(* ===== verification/Hub_Text.thy ===== *)
theory Hub_Text
  imports Main "HOL-Library.Sublist" "HOL-Library.Char_ord" "HOL-Library.List_Lexorder"
begin

text \<open>
  The prelude on strings. A Rust \<open>String\<close> or \<open>&str\<close> is modelled as the list of its
  UTF-8 bytes, \<^typ>\<open>string\<close>: \<open>s.len()\<close> is \<^const>\<open>length\<close>, the order of two strings is the
  lexicographic order of their bytes, and the operations of the standard library that look
  at characters (\<open>trim\<close>, \<open>chars().count()\<close>, \<open>is_whitespace\<close>, \<open>is_control\<close>) are written
  out on the byte encoding. Byte values are read with \<^const>\<open>of_char\<close>.

  The development's collections of rewrite and introduction rules are declared here too.
\<close>

named_theorems text_defs \<open>definitions of the byte classes, for evaluation on literals\<close>
named_theorems quiet \<open>what an operation does when nobody interferes and nothing fails\<close>
named_theorems keeps \<open>operations that keep a database invariant\<close>
named_theorems reads \<open>operations that leave the world as it is when nobody interferes\<close>

section \<open>Byte classes\<close>

definition code_of :: "char \<Rightarrow> nat" where
  [text_defs]: "code_of c = of_char c"

definition is_ascii_lowercase :: "char \<Rightarrow> bool" where
  [text_defs]: "is_ascii_lowercase c \<longleftrightarrow> 97 \<le> code_of c \<and> code_of c \<le> 122"

definition is_ascii_uppercase :: "char \<Rightarrow> bool" where
  [text_defs]: "is_ascii_uppercase c \<longleftrightarrow> 65 \<le> code_of c \<and> code_of c \<le> 90"

definition is_ascii_digit :: "char \<Rightarrow> bool" where
  [text_defs]: "is_ascii_digit c \<longleftrightarrow> 48 \<le> code_of c \<and> code_of c \<le> 57"

text \<open>A byte that continues a multi-byte character.\<close>

definition is_continuation :: "char \<Rightarrow> bool" where
  [text_defs]: "is_continuation c \<longleftrightarrow> 128 \<le> code_of c \<and> code_of c \<le> 191"

definition ascii_lower :: "char \<Rightarrow> char" where
  [text_defs]: "ascii_lower c = (if is_ascii_uppercase c then char_of (code_of c + 32) else c)"

definition to_ascii_lowercase :: "string \<Rightarrow> string" where
  "to_ascii_lowercase = map ascii_lower"

lemma code_of_bound [simp]: "code_of c < 256"
proof -
  have "code_of c = code_of c mod 256" by (simp add: code_of_def)
  also have "\<dots> < 256" by simp
  finally show ?thesis .
qed

lemma code_of_char_of [simp]: "n < 256 \<Longrightarrow> code_of (char_of n) = n"
  by (simp add: code_of_def)

lemma ascii_lower_idem [simp]: "ascii_lower (ascii_lower c) = ascii_lower c"
  by (auto simp: ascii_lower_def is_ascii_uppercase_def)

lemma ascii_lower_fixed [simp]:
  "is_ascii_lowercase c \<Longrightarrow> ascii_lower c = c"
  "is_ascii_digit c \<Longrightarrow> ascii_lower c = c"
  by (auto simp: text_defs)

lemma length_to_ascii_lowercase [simp]: "length (to_ascii_lowercase s) = length s"
  by (simp add: to_ascii_lowercase_def)

lemma to_ascii_lowercase_idem [simp]:
  "to_ascii_lowercase (to_ascii_lowercase s) = to_ascii_lowercase s"
  by (simp add: to_ascii_lowercase_def comp_def)


text \<open>
  The bytes that an identifier of the hub may use: \<open>[a-z0-9]\<close> first, \<open>[a-z0-9-]\<close> after.
\<close>

definition ident_start :: "char \<Rightarrow> bool" where
  "ident_start c \<longleftrightarrow> is_ascii_lowercase c \<or> is_ascii_digit c"

definition ident_char :: "char \<Rightarrow> bool" where
  "ident_char c \<longleftrightarrow> is_ascii_lowercase c \<or> is_ascii_digit c \<or> c = CHR ''-''"

lemma ident_start_char [simp]: "ident_start c \<Longrightarrow> ident_char c"
  by (auto simp: ident_start_def ident_char_def)

lemma ascii_lower_ident [simp]: "ident_char c \<Longrightarrow> ascii_lower c = c"
  by (auto simp: ident_char_def) (simp add: text_defs)

lemma lower_ident_word: "list_all ident_char s \<Longrightarrow> to_ascii_lowercase s = s"
  by (induction s) (auto simp: to_ascii_lowercase_def)

section \<open>White space and trimming\<close>

text \<open>
  The number of bytes of the white space character (Unicode \<open>White_Space\<close>) that a byte
  sequence starts with, 0 if it starts with another character: U+0009 to U+000D, U+0020,
  U+0085, U+00A0, U+1680, U+2000 to U+200A, U+2028, U+2029, U+202F, U+205F, U+3000.
\<close>

fun ws_width :: "nat list \<Rightarrow> nat" where
  "ws_width [] = 0"
| "ws_width (a # s) =
     (if 9 \<le> a \<and> a \<le> 13 \<or> a = 32 then 1
      else case s of [] \<Rightarrow> 0
      | b # s' \<Rightarrow>
          if a = 194 \<and> (b = 133 \<or> b = 160) then 2
          else case s' of [] \<Rightarrow> 0
          | c # _ \<Rightarrow>
              if a = 225 \<and> b = 154 \<and> c = 128 then 3
              else if a = 226 \<and> b = 128 \<and> (128 \<le> c \<and> c \<le> 138 \<or> c = 168 \<or> c = 169 \<or> c = 175)
              then 3
              else if a = 226 \<and> b = 129 \<and> c = 159 then 3
              else if a = 227 \<and> b = 128 \<and> c = 128 then 3
              else 0)"

text \<open>The same for the character a byte sequence ends with; the argument is reversed.\<close>

fun ws_width_back :: "nat list \<Rightarrow> nat" where
  "ws_width_back [] = 0"
| "ws_width_back (a # s) =
     (if 9 \<le> a \<and> a \<le> 13 \<or> a = 32 then 1
      else case s of [] \<Rightarrow> 0
      | b # s' \<Rightarrow>
          if ws_width [b, a] = 2 then 2
          else case s' of [] \<Rightarrow> 0
          | c # _ \<Rightarrow> if ws_width [c, b, a] = 3 then 3 else 0)"

definition starts_ws :: "string \<Rightarrow> nat" where
  "starts_ws s = ws_width (map code_of (take 3 s))"

definition ends_ws :: "string \<Rightarrow> nat" where
  "ends_ws r = ws_width_back (map code_of (take 3 r))"

function trim_start :: "string \<Rightarrow> string" where
  "trim_start s = (if starts_ws s = 0 \<or> s = [] then s else trim_start (drop (starts_ws s) s))"
  by pat_completeness auto
termination
  by (relation "measure length") auto

function trim_back :: "string \<Rightarrow> string" where
  "trim_back r = (if ends_ws r = 0 \<or> r = [] then r else trim_back (drop (ends_ws r) r))"
  by pat_completeness auto
termination
  by (relation "measure length") auto

declare trim_start.simps [simp del] trim_back.simps [simp del]

definition trim_end :: "string \<Rightarrow> string" where
  "trim_end s = rev (trim_back (rev s))"

text \<open>\<open>str::trim\<close>.\<close>

definition trim :: "string \<Rightarrow> string" where
  "trim s = trim_end (trim_start s)"

text \<open>A byte that neither is nor starts nor ends a white space character.\<close>

definition solid :: "char \<Rightarrow> bool" where
  "solid c \<longleftrightarrow> 33 \<le> code_of c \<and> code_of c \<le> 126"

lemma starts_ws_solid: "solid (hd s) \<Longrightarrow> starts_ws s = 0"
  by (cases s; simp add: starts_ws_def solid_def split: list.split)

lemma ends_ws_solid: "solid (hd s) \<Longrightarrow> ends_ws s = 0"
  by (cases s; simp add: ends_ws_def solid_def split: list.split)

lemma trim_solid: "solid (hd s) \<Longrightarrow> solid (last s) \<Longrightarrow> trim s = s"
  by (simp add: trim_def trim_end_def trim_start.simps [of s] trim_back.simps [of "rev s"]
      starts_ws_solid ends_ws_solid hd_rev)

lemma trim_Nil [simp]: "trim [] = []"
  by (simp add: trim_def trim_end_def trim_start.simps trim_back.simps starts_ws_def ends_ws_def)

lemma ident_char_solid [simp]: "ident_char c \<Longrightarrow> solid c"
  by (auto simp: ident_char_def solid_def) (auto simp: text_defs)

lemma trim_ident_word: "list_all ident_char s \<Longrightarrow> trim s = s"
  by (cases "s = []") (auto intro!: trim_solid simp: list_all_iff)

section \<open>Characters, splitting and searching\<close>

text \<open>\<open>s.chars().count()\<close>: the bytes that do not continue a character.\<close>

definition chars_count :: "string \<Rightarrow> nat" where
  "chars_count s = length (filter (\<lambda>c. \<not> is_continuation c) s)"

text \<open>\<open>s.chars().next()\<close> as a string.\<close>

definition first_char :: "string \<Rightarrow> string" where
  "first_char s = (case s of [] \<Rightarrow> [] | c # cs \<Rightarrow> c # takeWhile is_continuation cs)"

text \<open>\<open>s.chars().any(|c| c.is_whitespace() || c.is_control())\<close>.\<close>

fun has_ws_or_control :: "string \<Rightarrow> bool" where
  "has_ws_or_control [] = False"
| "has_ws_or_control (c # cs) =
     (starts_ws (c # cs) \<noteq> 0 \<or> code_of c < 32 \<or> code_of c = 127 \<or>
      (code_of c = 194 \<and> (case cs of [] \<Rightarrow> False | d # _ \<Rightarrow> 128 \<le> code_of d \<and> code_of d \<le> 159)) \<or>
      has_ws_or_control cs)"

definition strip_prefix :: "string \<Rightarrow> string \<Rightarrow> string option" where
  "strip_prefix p s = (if prefix p s then Some (drop (length p) s) else None)"

text \<open>\<open>m.contains(k)\<close> for a string \<open>k\<close>.\<close>

definition contains_str :: "string \<Rightarrow> string \<Rightarrow> bool" where
  "contains_str m k \<longleftrightarrow> sublist k m"

text \<open>\<open>s.split(c)\<close>: always at least one part.\<close>

fun split_on :: "char \<Rightarrow> string \<Rightarrow> string list" where
  "split_on c [] = [[]]"
| "split_on c (x # xs) =
     (if x = c then [] # split_on c xs
      else case split_on c xs of [] \<Rightarrow> [[x]] | p # ps \<Rightarrow> (x # p) # ps)"

fun join_with :: "char \<Rightarrow> string list \<Rightarrow> string" where
  "join_with c [] = []"
| "join_with c [p] = p"
| "join_with c (p # ps) = p @ c # join_with c ps"

lemma split_on_nonempty [simp]: "split_on c s \<noteq> []"
  by (induction s) (auto split: list.splits)

lemma join_split: "join_with c (split_on c s) = s"
proof (induction s)
  case (Cons x xs)
  then show ?case
    by (cases "split_on c xs"; cases "tl (split_on c xs)") auto
qed simp

lemma split_on_no_sep: "c \<notin> set p \<Longrightarrow> split_on c p = [p]"
  by (induction p) auto

lemma split_on_append: "c \<notin> set p \<Longrightarrow> split_on c (p @ c # s) = p # split_on c s"
  by (induction p) auto

lemma split_join:
  "ps \<noteq> [] \<Longrightarrow> list_all (\<lambda>p. c \<notin> set p) ps \<Longrightarrow> split_on c (join_with c ps) = ps"
  by (induction c ps rule: join_with.induct) (auto simp: split_on_no_sep split_on_append)

lemma split_on_parts: "p \<in> set (split_on c s) \<Longrightarrow> c \<notin> set p"
  by (induction s arbitrary: p) (auto split: list.splits if_splits)

lemma strip_prefix_Some: "strip_prefix p s = Some r \<longleftrightarrow> s = p @ r"
  by (auto simp: strip_prefix_def prefix_def)

lemma strip_prefix_append [simp]: "strip_prefix p (p @ r) = Some r"
  by (simp add: strip_prefix_Some)

text \<open>An unsigned integer of so many bits from a text: digits, with an optional plus.\<close>

fun digits_value :: "nat \<Rightarrow> string \<Rightarrow> nat" where
  "digits_value n [] = n"
| "digits_value n (c # cs) = digits_value (10 * n + (code_of c - 48)) cs"

definition parse_uint :: "nat \<Rightarrow> string \<Rightarrow> nat option" where
  "parse_uint bits s =
     (let ds = (case strip_prefix ''+'' s of Some r \<Rightarrow> r | None \<Rightarrow> s)
      in if ds \<noteq> [] \<and> list_all is_ascii_digit ds \<and> digits_value 0 ds < 2 ^ bits
         then Some (digits_value 0 ds) else None)"

lemma parse_uint_bound: "parse_uint bits s = Some n \<Longrightarrow> n < 2 ^ bits"
  by (auto simp: parse_uint_def Let_def split: if_splits)

text \<open>\<open>s.replace(c, r)\<close> for a character \<open>c\<close>.\<close>

definition replace_char :: "char \<Rightarrow> string \<Rightarrow> string \<Rightarrow> string" where
  "replace_char c r s = concat (map (\<lambda>x. if x = c then r else [x]) s)"

lemma replace_char_simps [simp]:
  "replace_char c r [] = []"
  "replace_char c r (x # s) = (if x = c then r else [x]) @ replace_char c r s"
  "replace_char c r (s @ t) = replace_char c r s @ replace_char c r t"
  by (simp_all add: replace_char_def)

text \<open>\<open>s.trim_end_matches(c)\<close> for a character \<open>c\<close>.\<close>

definition trim_end_char :: "char \<Rightarrow> string \<Rightarrow> string" where
  "trim_end_char c s = rev (dropWhile (\<lambda>x. x = c) (rev s))"

lemma trim_end_char_last: "trim_end_char c s = [] \<or> last (trim_end_char c s) \<noteq> c"
  using hd_dropWhile [of "\<lambda>x. x = c" "rev s"]
  by (auto simp: trim_end_char_def last_rev simp del: dropWhile_eq_Nil_conv)

section \<open>Decimal output\<close>

definition digit_char :: "nat \<Rightarrow> char" where
  "digit_char d = char_of (48 + d)"

fun show_nat :: "nat \<Rightarrow> string" where
  "show_nat n = (if n < 10 then [digit_char n] else show_nat (n div 10) @ [digit_char (n mod 10)])"

declare show_nat.simps [simp del]

section \<open>Lists and options\<close>

text \<open>\<open>Option::filter\<close>, \<open>Iterator::next\<close> and \<open>slice::first\<close>.\<close>

definition opt_filter :: "('a \<Rightarrow> bool) \<Rightarrow> 'a option \<Rightarrow> 'a option" where
  "opt_filter P x = (case x of None \<Rightarrow> None | Some a \<Rightarrow> if P a then Some a else None)"

definition first_of :: "'a list \<Rightarrow> 'a option" where
  "first_of xs = (case xs of [] \<Rightarrow> None | x # _ \<Rightarrow> Some x)"

lemma opt_filter_simps [simp]:
  "opt_filter P None = None"
  "opt_filter P (Some a) = (if P a then Some a else None)"
  by (simp_all add: opt_filter_def)

lemma opt_filter_eq_Some: "opt_filter P x = Some a \<longleftrightarrow> x = Some a \<and> P a"
  by (cases x) auto

lemma first_of_simps [simp]: "first_of [] = None" "first_of (x # xs) = Some x"
  by (simp_all add: first_of_def)

lemma first_of_eq_Some: "first_of xs = Some x \<Longrightarrow> x \<in> set xs"
  by (cases xs) auto

lemma first_of_eq_None [simp]: "first_of xs = None \<longleftrightarrow> xs = []"
  by (cases xs) auto

lemma first_of_filter_None: "first_of (filter P xs) = None \<longleftrightarrow> \<not> list_ex P xs"
  by (auto simp: list_ex_iff filter_empty_conv)

text \<open>A filter that at most one element of the list passes finds exactly that element.\<close>

lemma first_of_filter_unique:
  assumes "x \<in> set xs" and "P x" and "\<And>y. y \<in> set xs \<Longrightarrow> P y \<Longrightarrow> y = x"
  shows "first_of (filter P xs) = Some x"
proof (cases "filter P xs")
  case Nil
  with assms(1,2) show ?thesis by (auto simp: filter_empty_conv)
next
  case (Cons y ys)
  then have "y \<in> set (filter P xs)" by simp
  then have "y = x" using assms(3) by simp
  with Cons show ?thesis by simp
qed

text \<open>A \<open>LIMIT\<close> clause: absent, or the number of rows.\<close>

definition limit_to :: "nat option \<Rightarrow> 'a list \<Rightarrow> 'a list" where
  "limit_to l xs = (case l of None \<Rightarrow> xs | Some n \<Rightarrow> take n xs)"

lemma set_limit_to: "set (limit_to l xs) \<subseteq> set xs"
  by (auto simp: limit_to_def dest: in_set_takeD split: option.splits)

end
