(* ===== verification/Hub_Json.thy ===== *)
theory Hub_Json
  imports Hub_Text
begin

text \<open>
  JSON values as \<open>serde_json\<close> has them, and the decoding rules that \<open>serde\<close>'s derive gives
  the request structs. An object keeps its members in the order and with the repetitions of
  the text it was read from: reading it as a \<open>serde_json::Value\<close> lets the last of several
  equal keys win, a derived struct refuses a repeated field. A number is a signed integer or
  the text of any other number.
\<close>

datatype json =
    JNull
  | JBool bool
  | JInt int
  | JFloat string
  | JStr string
  | JArr "json list"
  | JObj "(string \<times> json) list"

text \<open>\<open>Value::get(key)\<close>: \<open>None\<close> unless the value is an object with that key.\<close>

fun obj_get :: "(string \<times> json) list \<Rightarrow> string \<Rightarrow> json option" where
  "obj_get ms k = map_of (rev ms) k"

fun get :: "json \<Rightarrow> string \<Rightarrow> json option" where
  "get (JObj ms) k = obj_get ms k"
| "get _ k = None"

fun as_str :: "json \<Rightarrow> string option" where
  "as_str (JStr s) = Some s"
| "as_str _ = None"

fun as_array :: "json \<Rightarrow> json list option" where
  "as_array (JArr xs) = Some xs"
| "as_array _ = None"

fun as_object :: "json \<Rightarrow> (string \<times> json) list option" where
  "as_object (JObj ms) = Some ms"
| "as_object _ = None"

definition is_object :: "json \<Rightarrow> bool" where
  "is_object v \<longleftrightarrow> as_object v \<noteq> None"

text \<open>\<open>v.get(k).and_then(|v| v.as_str())\<close>, the reading the hub uses everywhere.\<close>

definition get_str :: "json \<Rightarrow> string \<Rightarrow> string option" where
  "get_str v k = Option.bind (get v k) as_str"

text \<open>\<open>arr.iter().filter_map(|x| x.as_str().map(String::from)).collect()\<close>.\<close>

definition strings_of :: "json list \<Rightarrow> string list" where
  "strings_of xs = List.map_filter as_str xs"

definition json_strings :: "string list \<Rightarrow> json" where
  "json_strings ss = JArr (map JStr ss)"

definition json_opt :: "string option \<Rightarrow> json" where
  "json_opt x = (case x of None \<Rightarrow> JNull | Some s \<Rightarrow> JStr s)"

text \<open>A member that \<open>skip_serializing_if = "Option::is_none"\<close> leaves out.\<close>

definition opt_member :: "string \<Rightarrow> string option \<Rightarrow> (string \<times> json) list" where
  "opt_member k x = (case x of None \<Rightarrow> [] | Some s \<Rightarrow> [(k, JStr s)])"

lemma as_str_eq_Some [simp]: "as_str v = Some s \<longleftrightarrow> v = JStr s"
  by (cases v) auto

lemma as_object_eq_Some [simp]: "as_object v = Some ms \<longleftrightarrow> v = JObj ms"
  by (cases v) auto

lemma strings_of_json_strings [simp]: "strings_of (map JStr ss) = ss"
  by (induction ss) (simp_all add: strings_of_def List.map_filter_simps)

lemma get_str_eq_Some: "get_str v k = Some s \<longleftrightarrow> get v k = Some (JStr s)"
  by (auto simp: get_str_def bind_eq_Some_conv)

section \<open>Derived struct decoding\<close>

text \<open>
  \<open>serde_json::from_slice::<T>\<close> for a struct with the given fields: from an object, each
  field at most once and, under \<open>deny_unknown_fields\<close>, no other key; from an array, the
  fields by position. \<open>seq_default\<close> tells the fields that carry \<open>#[serde(default)]\<close>, which
  an array may leave out at its end. The result gives the value of each present field.
\<close>

definition decode_struct ::
  "bool \<Rightarrow> (string \<times> bool) list \<Rightarrow> json \<Rightarrow> (string \<Rightarrow> json option) option" where
  "decode_struct deny_unknown fields v =
     (case v of
        JObj ms \<Rightarrow>
          (if deny_unknown \<and> \<not> list_all (\<lambda>(k, _). k \<in> set (map fst fields)) ms then None
           else if \<not> distinct (filter (\<lambda>k. k \<in> set (map fst fields)) (map fst ms)) then None
           else Some (map_of ms))
      | JArr xs \<Rightarrow>
          (if length xs > length fields then None
           else if \<not> list_all snd (drop (length xs) fields) then None
           else Some (map_of (zip (map fst fields) xs)))
      | _ \<Rightarrow> None)"

text \<open>
  Field decoders: a required string, \<open>Option<String>\<close>, \<open>Option<u32>\<close>, \<open>Option<Option<String>>\<close>
  through \<open>double_option\<close>, \<open>Vec<String>\<close> with a default. The outer option is failure.
\<close>

definition dec_string :: "json option \<Rightarrow> string option" where
  "dec_string v = Option.bind v as_str"

definition dec_opt_string :: "json option \<Rightarrow> string option option" where
  "dec_opt_string v =
     (case v of None \<Rightarrow> Some None | Some JNull \<Rightarrow> Some None | Some (JStr s) \<Rightarrow> Some (Some s) | _ \<Rightarrow> None)"

definition dec_opt_u32 :: "json option \<Rightarrow> nat option option" where
  "dec_opt_u32 v =
     (case v of None \<Rightarrow> Some None | Some JNull \<Rightarrow> Some None
      | Some (JInt n) \<Rightarrow> (if 0 \<le> n \<and> n < 2 ^ 32 then Some (Some (nat n)) else None)
      | _ \<Rightarrow> None)"

definition dec_double_option :: "json option \<Rightarrow> string option option option" where
  "dec_double_option v =
     (case v of None \<Rightarrow> Some None | Some JNull \<Rightarrow> Some (Some None)
      | Some (JStr s) \<Rightarrow> Some (Some (Some s)) | _ \<Rightarrow> None)"

definition dec_strings :: "json option \<Rightarrow> string list option" where
  "dec_strings v =
     (case v of None \<Rightarrow> Some []
      | Some (JArr xs) \<Rightarrow> (if list_all (\<lambda>x. as_str x \<noteq> None) xs then Some (strings_of xs) else None)
      | _ \<Rightarrow> None)"

end
