(* ===== verification/Hub_Model.thy ===== *)
theory Hub_Model
  imports Hub_Json
begin

text \<open>
  The core types of the node tree and the rules on them
  (\<open>crates/chronista-hub-server/src/model.rs\<close>): resources, application and user entries,
  handles and slugs, the event envelope and its validation. Field names carry a short prefix
  of their struct, since record selectors are global.
\<close>

section \<open>Resources\<close>

datatype visibility = Public | Shared | Private

record resource =
  res_id :: string
  res_type :: string
  res_path :: string
  res_handle :: string
  res_owner :: "string option"
  res_visibility :: visibility
  res_payload :: json
  res_created_at :: string
  res_updated_at :: string

definition visibility_str :: "visibility \<Rightarrow> string" where
  "visibility_str v = (case v of Public \<Rightarrow> ''public'' | Shared \<Rightarrow> ''shared'' | Private \<Rightarrow> ''private'')"

definition visibility_of :: "string option \<Rightarrow> visibility option" where
  "visibility_of s =
     (if s = Some ''public'' then Some Public
      else if s = Some ''shared'' then Some Shared
      else if s = Some ''private'' then Some Private else None)"

lemma visibility_of_str [simp]: "visibility_of (Some (visibility_str v)) = Some v"
  by (cases v) (simp_all add: visibility_of_def visibility_str_def)

lemma visibility_of_eq_Some: "visibility_of s = Some v \<longleftrightarrow> s = Some (visibility_str v)"
  by (cases v) (auto simp: visibility_of_def visibility_str_def)

text \<open>
  Visibilities are ordered by how much they expose: nothing is more exposed than a public
  resource, and a private one is the least exposed.
\<close>

definition exposure :: "visibility \<Rightarrow> nat" where
  "exposure v = (case v of Private \<Rightarrow> 0 | Shared \<Rightarrow> 1 | Public \<Rightarrow> 2)"

instantiation visibility :: linorder
begin

definition less_eq_visibility :: "visibility \<Rightarrow> visibility \<Rightarrow> bool" where
  "less_eq_visibility a b \<longleftrightarrow> exposure a \<le> exposure b"

definition less_visibility :: "visibility \<Rightarrow> visibility \<Rightarrow> bool" where
  "less_visibility a b \<longleftrightarrow> exposure a < exposure b"

instance
  by standard (auto simp: less_eq_visibility_def less_visibility_def exposure_def split: visibility.splits)

end

lemma Public_le [simp]: "Public \<le> v \<longleftrightarrow> v = Public"
  by (cases v) (auto simp: less_eq_visibility_def exposure_def)

text \<open>The JSON form of a resource: camelCase times, no \<open>owner\<close> member when there is none.\<close>

definition resource_json :: "resource \<Rightarrow> json" where
  "resource_json r = JObj
     ([(''id'', JStr (res_id r)), (''type'', JStr (res_type r)), (''path'', JStr (res_path r)),
       (''handle'', JStr (res_handle r))] @ opt_member ''owner'' (res_owner r) @
      [(''visibility'', JStr (visibility_str (res_visibility r))), (''payload'', res_payload r),
       (''createdAt'', JStr (res_created_at r)), (''updatedAt'', JStr (res_updated_at r))])"

section \<open>Applications\<close>

datatype app_status = Pending | Active | Deregistering | Deregistered

definition app_status_str :: "app_status \<Rightarrow> string" where
  "app_status_str s =
     (case s of Pending \<Rightarrow> ''pending'' | Active \<Rightarrow> ''active''
      | Deregistering \<Rightarrow> ''deregistering'' | Deregistered \<Rightarrow> ''deregistered'')"

definition app_status_of :: "string \<Rightarrow> app_status option" where
  "app_status_of s =
     (if s = ''pending'' then Some Pending else if s = ''active'' then Some Active
      else if s = ''deregistering'' then Some Deregistering
      else if s = ''deregistered'' then Some Deregistered else None)"

lemma app_status_of_str [simp]: "app_status_of (app_status_str s) = Some s"
  by (cases s) (simp_all add: app_status_of_def app_status_str_def)

record app_entry =
  ae_app_id :: string
  ae_name :: string
  ae_description :: "string option"
  ae_icon_url :: "string option"
  ae_home_url :: "string option"
  ae_login_url :: "string option"
  ae_manifest_url :: "string option"
  ae_status :: app_status

definition app_entry_json :: "app_entry \<Rightarrow> json" where
  "app_entry_json e = JObj
     ([(''appId'', JStr (ae_app_id e)), (''name'', JStr (ae_name e))] @
      opt_member ''description'' (ae_description e) @ opt_member ''iconUrl'' (ae_icon_url e) @
      opt_member ''homeUrl'' (ae_home_url e) @ opt_member ''loginUrl'' (ae_login_url e) @
      opt_member ''manifestUrl'' (ae_manifest_url e) @
      [(''status'', JStr (app_status_str (ae_status e)))])"

record app_manifest =
  am_app_id :: string
  am_name :: string
  am_version :: string
  am_permissions :: "string list option"

definition app_manifest_json :: "app_manifest \<Rightarrow> json" where
  "app_manifest_json m = JObj
     ([(''appId'', JStr (am_app_id m)), (''name'', JStr (am_name m)), (''version'', JStr (am_version m))] @
      (case am_permissions m of None \<Rightarrow> [] | Some ps \<Rightarrow> [(''permissions'', json_strings ps)]))"

section \<open>Users, handles, publications\<close>

record user_entry =
  ue_usr_id :: string
  ue_handle :: "string option"
  ue_display_name :: "string option"
  ue_creo_sub :: "string option"
  ue_handle_changed_at :: "string option"
  ue_account_type :: string

record handle_reserve =
  hr_handle :: string
  hr_usr_id :: string
  hr_new_handle :: string
  hr_expires_at :: string

datatype rename_outcome = Renamed user_entry | Taken | Cooldown string

record public_user =
  pu_usr_id :: string
  pu_handle :: string
  pu_display_name :: "string option"
  pu_canonical_path :: string
  pu_account_type :: string

definition canonical_path :: "user_entry \<Rightarrow> string option" where
  "canonical_path u = map_option (\<lambda>h. ''/@'' @ h) (ue_handle u)"

definition is_publisher_kind :: "user_entry \<Rightarrow> bool" where
  "is_publisher_kind u \<longleftrightarrow> ue_account_type u = ''user'' \<or> ue_account_type u = ''organization''"

definition is_organization :: "user_entry \<Rightarrow> bool" where
  "is_organization u \<longleftrightarrow> ue_account_type u = ''organization''"

text \<open>\<open>UserEntry::public\<close>: only a person or an organisation with a handle is public.\<close>

definition public_of :: "user_entry \<Rightarrow> public_user option" where
  "public_of u =
     (if \<not> is_publisher_kind u then None
      else case ue_handle u of None \<Rightarrow> None
        | Some h \<Rightarrow> Some \<lparr>pu_usr_id = ue_usr_id u, pu_handle = h,
                          pu_display_name = ue_display_name u,
                          pu_canonical_path = ''/@'' @ h, pu_account_type = ue_account_type u\<rparr>)"

definition public_user_members :: "public_user \<Rightarrow> (string \<times> json) list" where
  "public_user_members p =
     [(''usrId'', JStr (pu_usr_id p)), (''handle'', JStr (pu_handle p)),
      (''displayName'', json_opt (pu_display_name p)),
      (''canonicalPath'', JStr (pu_canonical_path p)), (''accountType'', JStr (pu_account_type p))]"

lemma public_of_eq_Some:
  "public_of u = Some p \<longleftrightarrow> is_publisher_kind u \<and> ue_handle u = Some (pu_handle p) \<and>
     p = \<lparr>pu_usr_id = ue_usr_id u, pu_handle = pu_handle p, pu_display_name = ue_display_name u,
          pu_canonical_path = ''/@'' @ pu_handle p, pu_account_type = ue_account_type u\<rparr>"
  by (auto simp: public_of_def split: option.splits if_splits)

lemma public_of_None: "public_of u = None \<longleftrightarrow> \<not> is_publisher_kind u \<or> ue_handle u = None"
  by (auto simp: public_of_def split: option.splits)

definition role_can_publish :: "string \<Rightarrow> bool" where
  "role_can_publish r \<longleftrightarrow> r = ''owner'' \<or> r = ''admin'' \<or> r = ''member''"

record publication =
  pb_publisher :: string
  pb_slug :: string
  pb_url :: string
  pb_title :: "string option"
  pb_app_id :: string
  pb_updated_at :: "string option"

definition RESERVED_PUBLICATION_SLUGS :: "string list" where
  "RESERVED_PUBLICATION_SLUGS =
     [''identity'', ''apps'', ''node'', ''world'', ''api'', ''oauth'', ''errors'', ''static'', ''health'']"

text \<open>The shape shared by handles and slugs: one first byte, then identifier bytes.\<close>

definition ident_word :: "string \<Rightarrow> bool" where
  "ident_word s \<longleftrightarrow> (case s of [] \<Rightarrow> False | c # cs \<Rightarrow> ident_start c \<and> list_all ident_char cs)"

definition canonical_slug :: "string \<Rightarrow> string option" where
  "canonical_slug input =
     (let s = to_ascii_lowercase (trim input);
          first_ok = (case s of [] \<Rightarrow> False | b # _ \<Rightarrow> is_ascii_lowercase b \<or> is_ascii_digit b);
          rest_ok = list_all (\<lambda>b. is_ascii_lowercase b \<or> is_ascii_digit b \<or> b = CHR ''-'') (tl s)
      in if first_ok \<and> rest_ok \<and> length s \<le> 63 \<and> s \<notin> set RESERVED_PUBLICATION_SLUGS
         then Some s else None)"

definition canonical_handle :: "string \<Rightarrow> string option" where
  "canonical_handle input =
     (let h = to_ascii_lowercase (trim input);
          first_ok = (case h of [] \<Rightarrow> False | b # _ \<Rightarrow> is_ascii_lowercase b \<or> is_ascii_digit b);
          rest_ok = list_all (\<lambda>b. is_ascii_lowercase b \<or> is_ascii_digit b \<or> b = CHR ''-'') (tl h)
      in if first_ok \<and> rest_ok \<and> length h \<le> 31 then Some h else None)"

lemma ident_word_ident_char: "ident_word s \<Longrightarrow> list_all ident_char s"
  by (cases s) (auto simp: ident_word_def)

lemma ident_word_fixed:
  assumes "ident_word s"
  shows "to_ascii_lowercase (trim s) = s"
  using ident_word_ident_char [OF assms] by (simp add: trim_ident_word lower_ident_word)

lemma canonical_handle_alt:
  "canonical_handle input =
     (let h = to_ascii_lowercase (trim input) in if ident_word h \<and> length h \<le> 31 then Some h else None)"
  by (auto simp: canonical_handle_def ident_word_def ident_start_def ident_char_def [abs_def] Let_def
      split: list.splits)

lemma canonical_slug_alt:
  "canonical_slug input =
     (let s = to_ascii_lowercase (trim input)
      in if ident_word s \<and> length s \<le> 63 \<and> s \<notin> set RESERVED_PUBLICATION_SLUGS then Some s else None)"
  by (auto simp: canonical_slug_def ident_word_def ident_start_def ident_char_def [abs_def] Let_def
      split: list.splits)

lemma canonical_handle_ident: "canonical_handle x = Some h \<Longrightarrow> ident_word h \<and> length h \<le> 31"
  by (auto simp: canonical_handle_alt Let_def split: if_splits)

lemma canonical_slug_ident:
  "canonical_slug x = Some s \<Longrightarrow> ident_word s \<and> length s \<le> 63 \<and> s \<notin> set RESERVED_PUBLICATION_SLUGS"
  by (auto simp: canonical_slug_alt Let_def split: if_splits)

lemma canonical_handle_fixed: "canonical_handle h = Some h \<longleftrightarrow> ident_word h \<and> length h \<le> 31"
proof
  assume "ident_word h \<and> length h \<le> 31"
  then show "canonical_handle h = Some h"
    by (simp add: canonical_handle_alt ident_word_fixed)
qed (rule canonical_handle_ident)

lemma canonical_slug_fixed:
  "canonical_slug s = Some s \<longleftrightarrow> ident_word s \<and> length s \<le> 63 \<and> s \<notin> set RESERVED_PUBLICATION_SLUGS"
proof
  assume "ident_word s \<and> length s \<le> 63 \<and> s \<notin> set RESERVED_PUBLICATION_SLUGS"
  then show "canonical_slug s = Some s"
    by (simp add: canonical_slug_alt ident_word_fixed)
qed (rule canonical_slug_ident)

section \<open>Events and the validation of envelopes\<close>

datatype event_kind = ResourceCreated | ResourceUpdated | ResourceDeleted

definition event_kind_str :: "event_kind \<Rightarrow> string" where
  "event_kind_str k =
     (case k of ResourceCreated \<Rightarrow> ''resource.created'' | ResourceUpdated \<Rightarrow> ''resource.updated''
      | ResourceDeleted \<Rightarrow> ''resource.deleted'')"

definition event_kind_of :: "string option \<Rightarrow> event_kind option" where
  "event_kind_of s =
     (if s = Some ''resource.created'' then Some ResourceCreated
      else if s = Some ''resource.updated'' then Some ResourceUpdated
      else if s = Some ''resource.deleted'' then Some ResourceDeleted else None)"

lemma event_kind_of_str [simp]: "event_kind_of (Some (event_kind_str k)) = Some k"
  by (cases k) (simp_all add: event_kind_of_def event_kind_str_def)

lemma event_kind_of_eq_Some: "event_kind_of s = Some k \<longleftrightarrow> s = Some (event_kind_str k)"
  by (cases k) (auto simp: event_kind_of_def event_kind_str_def)

record event_envelope =
  ev_event_id :: string
  ev_app_id :: string
  ev_kind :: event_kind
  ev_resource :: resource
  ev_idempotency :: string
  ev_emitted_at :: string

definition envelope_json :: "event_envelope \<Rightarrow> json" where
  "envelope_json e = JObj
     [(''event_id'', JStr (ev_event_id e)), (''app_id'', JStr (ev_app_id e)),
      (''kind'', JStr (event_kind_str (ev_kind e))), (''resource'', resource_json (ev_resource e)),
      (''idempotency'', JStr (ev_idempotency e)), (''emitted_at'', JStr (ev_emitted_at e))]"

record validation_error =
  ve_field :: string
  ve_message :: string

definition verror :: "string \<Rightarrow> string \<Rightarrow> validation_error" where
  "verror f m = \<lparr>ve_field = f, ve_message = m\<rparr>"

definition validation_error_json :: "validation_error \<Rightarrow> json" where
  "validation_error_json e = JObj [(''field'', JStr (ve_field e)), (''message'', JStr (ve_message e))]"

text \<open>\<open>require_str\<close>: the field, and the error list with one more entry when it is not a string.\<close>

definition require_str ::
  "(string \<times> json) list \<Rightarrow> string \<Rightarrow> validation_error list \<Rightarrow> string option \<times> validation_error list" where
  "require_str obj key errors =
     (case Option.bind (obj_get obj key) as_str of
        Some s \<Rightarrow> (Some s, errors)
      | None \<Rightarrow> (None, errors @ [verror key ''required string'']))"

definition validate_resource ::
  "json \<Rightarrow> validation_error list \<Rightarrow> resource option \<times> validation_error list" where
  "validate_resource input errors =
     (case as_object input of
        None \<Rightarrow> (None, errors @ [verror ''resource'' ''must be object''])
      | Some obj \<Rightarrow>
          (let (i, local) = require_str obj ''id'' [];
               (ty, local) = require_str obj ''type'' local;
               (path, local) = require_str obj ''path'' local;
               (handle, local) = require_str obj ''handle'' local;
               vis = visibility_of (Option.bind (obj_get obj ''visibility'') as_str);
               local = (if vis = None
                        then local @ [verror ''visibility'' ''must be public | shared | private'']
                        else local);
               (payload, local) =
                 (case obj_get obj ''payload'' of
                    Some v \<Rightarrow> (if is_object v then (v, local)
                               else (JNull, local @ [verror ''payload'' ''must be object'']))
                  | None \<Rightarrow> (JNull, local @ [verror ''payload'' ''must be object'']));
               (created, local) = require_str obj ''createdAt'' local;
               (updated, local) = require_str obj ''updatedAt'' local
           in if local = []
              then (Some \<lparr>res_id = the i, res_type = the ty, res_path = the path,
                          res_handle = the handle, res_owner = None, res_visibility = the vis,
                          res_payload = payload, res_created_at = the created,
                          res_updated_at = the updated\<rparr>, errors)
              else (None, errors @ map (\<lambda>e. verror (''resource.'' @ ve_field e) (ve_message e)) local)))"

definition validate_envelope :: "json \<Rightarrow> validation_error list + event_envelope" where
  "validate_envelope input =
     (case as_object input of
        None \<Rightarrow> Inl [verror [] ''must be object'']
      | Some obj \<Rightarrow>
          (let (event_id, errors) = require_str obj ''event_id'' [];
               (app_id, errors) = require_str obj ''app_id'' errors;
               (idempotency, errors) = require_str obj ''idempotency'' errors;
               (emitted_at, errors) = require_str obj ''emitted_at'' errors;
               kind = event_kind_of (Option.bind (obj_get obj ''kind'') as_str);
               errors = (if kind = None
                         then errors @ [verror ''kind''
                                ''must be resource.created | resource.updated | resource.deleted'']
                         else errors);
               (resource, errors) =
                 (case obj_get obj ''resource'' of
                    Some r \<Rightarrow> validate_resource r errors
                  | None \<Rightarrow> (None, errors @ [verror ''resource'' ''required object'']))
           in if errors = []
              then Inr \<lparr>ev_event_id = the event_id, ev_app_id = the app_id, ev_kind = the kind,
                        ev_resource = the resource, ev_idempotency = the idempotency,
                        ev_emitted_at = the emitted_at\<rparr>
              else Inl errors))"


text \<open>
  The same computation as a list of complaints, one per field, in the order of the code.
\<close>

definition str_err :: "(string \<times> json) list \<Rightarrow> string \<Rightarrow> validation_error list" where
  "str_err obj k =
     (if Option.bind (obj_get obj k) as_str = None then [verror k ''required string''] else [])"

lemma require_str_eq:
  "require_str obj k es = (Option.bind (obj_get obj k) as_str, es @ str_err obj k)"
  by (simp add: require_str_def str_err_def split: option.split)

lemma str_err_Nil: "str_err obj k = [] \<longleftrightarrow> (\<exists>s. obj_get obj k = Some (JStr s))"
  by (auto simp: str_err_def bind_eq_Some_conv simp del: obj_get.simps)

definition vis_err :: "(string \<times> json) list \<Rightarrow> validation_error list" where
  "vis_err obj = (if visibility_of (Option.bind (obj_get obj ''visibility'') as_str) = None
     then [verror ''visibility'' ''must be public | shared | private''] else [])"

definition payload_err :: "(string \<times> json) list \<Rightarrow> validation_error list" where
  "payload_err obj = (case obj_get obj ''payload'' of
       Some v \<Rightarrow> (if is_object v then [] else [verror ''payload'' ''must be object''])
     | None \<Rightarrow> [verror ''payload'' ''must be object''])"

definition resource_errs :: "(string \<times> json) list \<Rightarrow> validation_error list" where
  "resource_errs obj = str_err obj ''id'' @ str_err obj ''type'' @ str_err obj ''path'' @
     str_err obj ''handle'' @ vis_err obj @ payload_err obj @ str_err obj ''createdAt'' @
     str_err obj ''updatedAt''"

text \<open>What it means that the members of an object are the fields of a resource, or of an envelope.\<close>

definition resource_fields :: "(string \<times> json) list \<Rightarrow> resource \<Rightarrow> bool" where
  "resource_fields obj r \<longleftrightarrow>
     obj_get obj ''id'' = Some (JStr (res_id r)) \<and> obj_get obj ''type'' = Some (JStr (res_type r)) \<and>
     obj_get obj ''path'' = Some (JStr (res_path r)) \<and>
     obj_get obj ''handle'' = Some (JStr (res_handle r)) \<and>
     obj_get obj ''visibility'' = Some (JStr (visibility_str (res_visibility r))) \<and>
     obj_get obj ''payload'' = Some (res_payload r) \<and> is_object (res_payload r) \<and>
     obj_get obj ''createdAt'' = Some (JStr (res_created_at r)) \<and>
     obj_get obj ''updatedAt'' = Some (JStr (res_updated_at r))"

definition envelope_fields :: "(string \<times> json) list \<Rightarrow> event_envelope \<Rightarrow> bool" where
  "envelope_fields obj e \<longleftrightarrow>
     obj_get obj ''event_id'' = Some (JStr (ev_event_id e)) \<and>
     obj_get obj ''app_id'' = Some (JStr (ev_app_id e)) \<and>
     obj_get obj ''kind'' = Some (JStr (event_kind_str (ev_kind e))) \<and>
     obj_get obj ''idempotency'' = Some (JStr (ev_idempotency e)) \<and>
     obj_get obj ''emitted_at'' = Some (JStr (ev_emitted_at e)) \<and>
     (\<exists>robj. obj_get obj ''resource'' = Some (JObj robj) \<and> resource_fields robj (ev_resource e))"

declare obj_get.simps [simp del]

lemma vis_err_Nil:
  "vis_err obj = [] \<longleftrightarrow> (\<exists>v. obj_get obj ''visibility'' = Some (JStr (visibility_str v)))"
  by (auto simp: vis_err_def visibility_of_eq_Some bind_eq_Some_conv)

lemma payload_err_Nil:
  "payload_err obj = [] \<longleftrightarrow> (\<exists>w. obj_get obj ''payload'' = Some w \<and> is_object w)"
  by (auto simp: payload_err_def split: option.splits)

lemma resource_errs_Nil: "resource_errs obj = [] \<longleftrightarrow> (\<exists>r. resource_fields obj r)"
proof
  assume "resource_errs obj = []"
  then obtain i ty p h v w c u where
    "obj_get obj ''id'' = Some (JStr i)" "obj_get obj ''type'' = Some (JStr ty)"
    "obj_get obj ''path'' = Some (JStr p)" "obj_get obj ''handle'' = Some (JStr h)"
    "obj_get obj ''visibility'' = Some (JStr (visibility_str v))"
    "obj_get obj ''payload'' = Some w" "is_object w"
    "obj_get obj ''createdAt'' = Some (JStr c)" "obj_get obj ''updatedAt'' = Some (JStr u)"
    by (auto simp: resource_errs_def str_err_Nil vis_err_Nil payload_err_Nil)
  then have "resource_fields obj \<lparr>res_id = i, res_type = ty, res_path = p, res_handle = h,
      res_owner = None, res_visibility = v, res_payload = w, res_created_at = c, res_updated_at = u\<rparr>"
    by (simp add: resource_fields_def)
  then show "\<exists>r. resource_fields obj r" ..
qed (auto simp: resource_errs_def resource_fields_def str_err_Nil vis_err_Nil payload_err_Nil)

lemma validate_resource_ok:
  assumes "resource_fields obj r"
  shows "validate_resource (JObj obj) es = (Some (r\<lparr>res_owner := None\<rparr>), es)"
  using assms
  by (simp add: validate_resource_def resource_fields_def require_str_eq str_err_def)

lemma validate_resource_bad:
  assumes "resource_errs obj \<noteq> []"
  shows "validate_resource (JObj obj) es =
    (None, es @ map (\<lambda>e. verror (''resource.'' @ ve_field e) (ve_message e)) (resource_errs obj))"
proof -
  have vis: "(if visibility_of (Option.bind (obj_get obj ''visibility'') as_str) = None
      then l @ [verror ''visibility'' ''must be public | shared | private''] else l) = l @ vis_err obj" for l
    by (simp add: vis_err_def)
  have payload: "(case obj_get obj ''payload'' of
        Some v \<Rightarrow> (if is_object v then (v, l) else (JNull, l @ [verror ''payload'' ''must be object'']))
      | None \<Rightarrow> (JNull, l @ [verror ''payload'' ''must be object''])) =
    (case obj_get obj ''payload'' of Some v \<Rightarrow> if is_object v then v else JNull | None \<Rightarrow> JNull,
     l @ payload_err obj)" for l
    by (simp add: payload_err_def split: option.split)
  show ?thesis
    using assms
    by (simp add: validate_resource_def require_str_eq vis payload resource_errs_def Let_def del: append_is_Nil_conv append_assoc)
      (simp)
qed

lemma validate_resource_snd:
  obtains r obj where "validate_resource v es = (Some r, es)" "v = JObj obj"
    "resource_fields obj r" "res_owner r = None"
  | xs where "validate_resource v es = (None, es @ xs)" "xs \<noteq> []"
    "\<nexists>obj r. v = JObj obj \<and> resource_fields obj r"
proof (cases "as_object v")
  case None
  then show ?thesis by (intro that(2)) (auto simp: validate_resource_def)
next
  case (Some obj)
  then have v: "v = JObj obj" by simp
  show ?thesis
  proof (cases "\<exists>r. resource_fields obj r")
    case True
    then obtain r where r: "resource_fields obj r" ..
    then show ?thesis
      by (intro that(1)[OF _ v, of "r\<lparr>res_owner := None\<rparr>"])
        (simp_all add: v validate_resource_ok, simp add: resource_fields_def)
  next
    case False
    then have "resource_errs obj \<noteq> []" by (simp add: resource_errs_Nil)
    with False show ?thesis
      by (intro that(2)[of "map (\<lambda>e. verror (''resource.'' @ ve_field e) (ve_message e)) (resource_errs obj)"])
        (auto simp: v validate_resource_bad)
  qed
qed

definition kind_err :: "(string \<times> json) list \<Rightarrow> validation_error list" where
  "kind_err obj = (if event_kind_of (Option.bind (obj_get obj ''kind'') as_str) = None
     then [verror ''kind'' ''must be resource.created | resource.updated | resource.deleted''] else [])"

definition resource_member_errs :: "(string \<times> json) list \<Rightarrow> validation_error list" where
  "resource_member_errs obj = snd (case obj_get obj ''resource'' of
       Some r \<Rightarrow> validate_resource r [] | None \<Rightarrow> (None, [verror ''resource'' ''required object'']))"

lemma validate_resource_acc:
  "validate_resource v es = (fst (validate_resource v []), es @ snd (validate_resource v []))"
  by (cases "as_object v")
    (auto simp: validate_resource_def Let_def split: prod.splits if_splits)

definition envelope_errs :: "(string \<times> json) list \<Rightarrow> validation_error list" where
  "envelope_errs obj = str_err obj ''event_id'' @ str_err obj ''app_id'' @ str_err obj ''idempotency'' @
     str_err obj ''emitted_at'' @ kind_err obj @ resource_member_errs obj"

lemma resource_member_errs_Nil:
  "resource_member_errs obj = [] \<longleftrightarrow>
     (\<exists>robj r. obj_get obj ''resource'' = Some (JObj robj) \<and> resource_fields robj r)"
proof (cases "obj_get obj ''resource''")
  case (Some v)
  then show ?thesis
    by (cases rule: validate_resource_snd [of v "[]"]) (auto simp: resource_member_errs_def)
qed (simp add: resource_member_errs_def)

lemma kind_err_Nil: "kind_err obj = [] \<longleftrightarrow> (\<exists>k. obj_get obj ''kind'' = Some (JStr (event_kind_str k)))"
  by (auto simp: kind_err_def event_kind_of_eq_Some bind_eq_Some_conv)

lemma envelope_errs_Nil: "envelope_errs obj = [] \<longleftrightarrow> (\<exists>e. envelope_fields obj e)"
proof
  assume "envelope_errs obj = []"
  then obtain i a d t k robj r where
    "obj_get obj ''event_id'' = Some (JStr i)" "obj_get obj ''app_id'' = Some (JStr a)"
    "obj_get obj ''idempotency'' = Some (JStr d)" "obj_get obj ''emitted_at'' = Some (JStr t)"
    "obj_get obj ''kind'' = Some (JStr (event_kind_str k))"
    "obj_get obj ''resource'' = Some (JObj robj)" "resource_fields robj r"
    by (auto simp: envelope_errs_def str_err_Nil kind_err_Nil resource_member_errs_Nil)
  then have "envelope_fields obj \<lparr>ev_event_id = i, ev_app_id = a, ev_kind = k, ev_resource = r,
      ev_idempotency = d, ev_emitted_at = t\<rparr>"
    by (simp add: envelope_fields_def)
  then show "\<exists>e. envelope_fields obj e" ..
next
  assume "\<exists>e. envelope_fields obj e"
  then show "envelope_errs obj = []"
    unfolding envelope_errs_def envelope_fields_def
    by (auto simp: str_err_Nil kind_err_Nil resource_member_errs_Nil)
qed

text \<open>The envelope that is accepted: as read, but for the owner, which ingestion never takes.\<close>

definition without_owner :: "event_envelope \<Rightarrow> event_envelope" where
  "without_owner e = e\<lparr>ev_resource := (ev_resource e)\<lparr>res_owner := None\<rparr>\<rparr>"

lemma validate_envelope_ok:
  assumes "envelope_fields obj e"
  shows "validate_envelope (JObj obj) = Inr (without_owner e)"
  using assms
  by (auto simp: validate_envelope_def envelope_fields_def require_str_eq str_err_def
      validate_resource_ok without_owner_def)

lemma validate_envelope_bad:
  assumes "envelope_errs obj \<noteq> []"
  shows "validate_envelope (JObj obj) = Inl (envelope_errs obj)"
proof -
  have "(case obj_get obj ''resource'' of Some r \<Rightarrow> validate_resource r es
      | None \<Rightarrow> (None, es @ [verror ''resource'' ''required object''])) =
    (case obj_get obj ''resource'' of Some r \<Rightarrow> fst (validate_resource r []) | None \<Rightarrow> None,
     es @ resource_member_errs obj)" for es
    by (subst validate_resource_acc) (simp add: resource_member_errs_def split: option.split)
  moreover have "(if event_kind_of (Option.bind (obj_get obj ''kind'') as_str) = None
      then l @ [verror ''kind'' ''must be resource.created | resource.updated | resource.deleted'']
      else l) = l @ kind_err obj" for l
    by (simp add: kind_err_def)
  ultimately show ?thesis
    using assms
    by (simp add: validate_envelope_def require_str_eq envelope_errs_def Let_def
        del: append_is_Nil_conv append_assoc) simp
qed

section \<open>Properties\<close>

lemma validate_envelope_iff:
  "validate_envelope v = Inr e \<longleftrightarrow>
     res_owner (ev_resource e) = None \<and> (\<exists>obj. v = JObj obj \<and> envelope_fields obj e)"
proof (cases "as_object v")
  case None
  then show ?thesis by (auto simp: validate_envelope_def)
next
  case (Some obj)
  then have v: "v = JObj obj" by simp
  show ?thesis
  proof (cases "\<exists>e. envelope_fields obj e")
    case True
    then obtain e' where e': "envelope_fields obj e'" ..
    have "envelope_fields obj e \<Longrightarrow> res_owner (ev_resource e) = None \<Longrightarrow> e = without_owner e'"
      using e' by (auto simp: envelope_fields_def resource_fields_def without_owner_def)
        (auto simp: visibility_str_def event_kind_str_def split: visibility.splits event_kind.splits)
    moreover have "envelope_fields obj (without_owner e')"
      using e' by (simp add: envelope_fields_def resource_fields_def without_owner_def)
    ultimately show ?thesis
      by (auto simp: v validate_envelope_ok [OF e']) (simp add: without_owner_def)
  next
    case False
    then have "envelope_errs obj \<noteq> []" by (simp add: envelope_errs_Nil)
    with False show ?thesis by (auto simp: v validate_envelope_bad)
  qed
qed

text \<open>
  C16: an envelope is accepted exactly when the JSON value is an object in which every
  required field is present with its type (the nested resource included), and then the
  accepted envelope has those fields and no owner: ingestion cannot name an owner.
\<close>

theorem validate_envelope_accepts_iff:
  "validate_envelope v = Inr e \<longleftrightarrow>
     res_owner (ev_resource e) = None \<and> (\<exists>obj. v = JObj obj \<and> envelope_fields obj e)"
  by (rule validate_envelope_iff)

end
