(* ===== verification/Hub_Table.thy ===== *)
theory Hub_Table
  imports Hub_Text "HOL-Library.AList"
begin

text \<open>
  A database table: the rows under their record ids, in the order a scan meets them. The
  interface \<open>keyed_table\<close> states what the stores rely on (reading after a write, a delete);
  it is interpreted on the operations below, which model the statements
  \<open>UPSERT type::record(..)\<close>, \<open>DELETE type::record(..)\<close>, \<open>UPDATE .. WHERE ..\<close> and
  \<open>SELECT .. WHERE ..\<close> of SurrealQL.
\<close>

type_synonym ('k, 'r) table = "('k \<times> 'r) list"

definition tab_get :: "('k, 'r) table \<Rightarrow> 'k \<Rightarrow> 'r option" where
  "tab_get t k = map_of t k"

definition tab_put :: "'k \<Rightarrow> 'r \<Rightarrow> ('k, 'r) table \<Rightarrow> ('k, 'r) table" where
  "tab_put k r t = AList.update k r t"

definition tab_del :: "'k \<Rightarrow> ('k, 'r) table \<Rightarrow> ('k, 'r) table" where
  "tab_del k t = AList.delete k t"

definition tab_ok :: "('k, 'r) table \<Rightarrow> bool" where
  "tab_ok t \<longleftrightarrow> distinct (map fst t)"

definition tab_rows :: "('k, 'r) table \<Rightarrow> 'r list" where
  "tab_rows t = map snd t"

definition tab_where :: "('r \<Rightarrow> bool) \<Rightarrow> ('k, 'r) table \<Rightarrow> 'r list" where
  "tab_where P t = filter P (map snd t)"

definition tab_update_where :: "('r \<Rightarrow> bool) \<Rightarrow> ('r \<Rightarrow> 'r) \<Rightarrow> ('k, 'r) table \<Rightarrow> ('k, 'r) table" where
  "tab_update_where P f t = map (\<lambda>(k, r). (k, if P r then f r else r)) t"

definition tab_delete_where :: "('r \<Rightarrow> bool) \<Rightarrow> ('k, 'r) table \<Rightarrow> ('k, 'r) table" where
  "tab_delete_where P t = filter (\<lambda>(k, r). \<not> P r) t"

text \<open>\<open>UPDATE type::record(..) SET ..\<close>: nothing happens when there is no such record.\<close>

definition tab_update :: "'k \<Rightarrow> ('r \<Rightarrow> 'r) \<Rightarrow> ('k, 'r) table \<Rightarrow> ('k, 'r) table" where
  "tab_update k f t = map (\<lambda>(k', r). (k', if k' = k then f r else r)) t"

text \<open>A write to a table as data: what a log of changes is replayed from.\<close>

datatype ('k, 'r) change = Put (change_key: 'k) 'r | Del (change_key: 'k)

fun apply_change ::
  "('k \<Rightarrow> 'r \<Rightarrow> 't \<Rightarrow> 't) \<Rightarrow> ('k \<Rightarrow> 't \<Rightarrow> 't) \<Rightarrow> ('k, 'r) change \<Rightarrow> 't \<Rightarrow> 't" where
  "apply_change put del (Put k r) t = put k r t"
| "apply_change put del (Del k) t = del k t"

section \<open>The interface\<close>

locale keyed_table =
  fixes get :: "'t \<Rightarrow> 'k \<Rightarrow> 'r option"
    and put :: "'k \<Rightarrow> 'r \<Rightarrow> 't \<Rightarrow> 't"
    and del :: "'k \<Rightarrow> 't \<Rightarrow> 't"
    and ok :: "'t \<Rightarrow> bool"
  assumes get_put: "get (put k r t) = (get t)(k \<mapsto> r)"
    and get_del: "get (del k t) = (get t)(k := None)"
    and ok_put: "ok t \<Longrightarrow> ok (put k r t)"
    and ok_del: "ok t \<Longrightarrow> ok (del k t)"
begin

lemma get_put_same [simp]: "get (put k r t) k = Some r"
  by (simp add: get_put)

lemma get_put_other [simp]: "k \<noteq> k' \<Longrightarrow> get (put k r t) k' = get t k'"
  by (simp add: get_put)

lemma get_del_same [simp]: "get (del k t) k = None"
  by (simp add: get_del)

lemma get_del_other [simp]: "k \<noteq> k' \<Longrightarrow> get (del k t) k' = get t k'"
  by (simp add: get_del)

text \<open>Writing twice, or deleting twice, is writing or deleting once: what makes a retry harmless.\<close>

lemma put_again: "get (put k r (put k r' t)) = get (put k r t)"
  by (simp add: get_put)

lemma del_again: "get (del k (del k t)) = get (del k t)"
  by (simp add: get_del)

text \<open>Operations on different keys commute.\<close>

lemma put_put_swap: "k \<noteq> k' \<Longrightarrow> get (put k r (put k' r' t)) = get (put k' r' (put k r t))"
  by (auto simp: get_put)

lemma put_del_swap: "k \<noteq> k' \<Longrightarrow> get (put k r (del k' t)) = get (del k' (put k r t))"
  by (auto simp: get_put get_del)

text \<open>
  A log of changes: each key holds what the last change of that key says, so replaying the log
  from a state that has already seen a prefix of it gives the same table.
\<close>

lemma get_change:
  "get (apply_change put del c t) k =
     (if change_key c = k then (case c of Put _ r \<Rightarrow> Some r | Del _ \<Rightarrow> None) else get t k)"
  by (cases c) (simp_all add: get_put get_del)

lemma get_changes_untouched:
  "k \<notin> change_key ` set cs \<Longrightarrow> get (fold (apply_change put del) cs t) k = get t k"
  by (induction cs arbitrary: t) (auto simp: get_change)

lemma get_changes_touched:
  "k \<in> change_key ` set cs \<Longrightarrow>
     get (fold (apply_change put del) cs t) k = get (fold (apply_change put del) cs t') k"
proof (induction cs arbitrary: t t')
  case (Cons c cs)
  show ?case
  proof (cases "k \<in> change_key ` set cs")
    case True
    then show ?thesis by (simp add: Cons.IH)
  next
    case False
    with Cons.prems have "change_key c = k" by auto
    with False show ?thesis by (simp add: get_changes_untouched get_change)
  qed
qed simp

lemma replay_after_prefix:
  "get (fold (apply_change put del) (xs @ ys) (fold (apply_change put del) xs t)) =
     get (fold (apply_change put del) (xs @ ys) t)"
proof
  fix k
  show "get (fold (apply_change put del) (xs @ ys) (fold (apply_change put del) xs t)) k =
     get (fold (apply_change put del) (xs @ ys) t) k"
  proof (cases "k \<in> change_key ` set (xs @ ys)")
    case True
    then show ?thesis by (rule get_changes_touched)
  next
    case False
    then show ?thesis by (simp add: get_changes_untouched image_Un del: fold_append)
  qed
qed

lemma ok_changes: "ok t \<Longrightarrow> ok (fold (apply_change put del) cs t)"
proof (induction cs arbitrary: t)
  case (Cons c cs)
  then show ?case by (cases c) (simp_all add: ok_put ok_del)
qed simp

end

interpretation tab: keyed_table tab_get tab_put tab_del tab_ok
  by unfold_locales
    (auto simp: tab_get_def tab_put_def tab_del_def tab_ok_def update_conv' delete_conv'
      distinct_update distinct_delete)

section \<open>Rows\<close>

lemma tab_ok_Nil [simp]: "tab_ok []"
  by (simp add: tab_ok_def)

lemma tab_get_Nil [simp]: "tab_get [] k = None"
  by (simp add: tab_get_def)

lemma tab_get_set: "tab_ok t \<Longrightarrow> tab_get t k = Some r \<longleftrightarrow> (k, r) \<in> set t"
  by (simp add: tab_get_def tab_ok_def)

lemma tab_get_in: "tab_get t k = Some r \<Longrightarrow> (k, r) \<in> set t"
  by (simp add: tab_get_def map_of_SomeD)

lemma tab_ok_unique: "tab_ok t \<Longrightarrow> (k, r) \<in> set t \<Longrightarrow> (k, r') \<in> set t \<Longrightarrow> r = r'"
  by (auto simp: tab_ok_def dest: eq_key_imp_eq_value)

lemma set_tab_put:
  "tab_ok t \<Longrightarrow> set (tab_put k r t) = insert (k, r) {(k', r') \<in> set t. k' \<noteq> k}"
proof -
  assume ok: "tab_ok t"
  have "(k', r') \<in> set (tab_put k r t) \<longleftrightarrow> ((tab_get t)(k \<mapsto> r)) k' = Some r'" for k' r'
    using tab_get_set [OF tab.ok_put [OF ok], of k r k' r'] by (simp add: tab.get_put)
  then show ?thesis
    by (auto simp: tab_get_set [OF ok] split: if_splits)
qed

lemma set_tab_del: "set (tab_del k t) = {(k', r') \<in> set t. k' \<noteq> k}"
  by (auto simp: tab_del_def AList.delete_eq)

lemma set_tab_rows: "set (tab_rows t) = snd ` set t"
  by (simp add: tab_rows_def)

lemma set_tab_where: "set (tab_where P t) = {r. P r \<and> (\<exists>k. (k, r) \<in> set t)}"
  by (force simp: tab_where_def)

lemma set_tab_update_where:
  "set (tab_update_where P f t) = (\<lambda>(k, r). (k, if P r then f r else r)) ` set t"
  by (simp add: tab_update_where_def)

lemma set_tab_delete_where: "set (tab_delete_where P t) = {(k, r) \<in> set t. \<not> P r}"
  by (auto simp: tab_delete_where_def)

lemma tab_ok_update_where: "tab_ok t \<Longrightarrow> tab_ok (tab_update_where P f t)"
  by (simp add: tab_ok_def tab_update_where_def comp_def case_prod_unfold)

lemma tab_ok_delete_where: "tab_ok t \<Longrightarrow> tab_ok (tab_delete_where P t)"
  by (auto simp: tab_ok_def tab_delete_where_def distinct_map intro: inj_on_subset)

lemma tab_get_update_where:
  "tab_get (tab_update_where P f t) k = map_option (\<lambda>r. if P r then f r else r) (tab_get t k)"
  by (induction t) (auto simp: tab_get_def tab_update_where_def)

lemma tab_update_where_none: "tab_where P t = [] \<Longrightarrow> tab_update_where P f t = t"
  by (induction t) (auto simp: tab_where_def tab_update_where_def split: if_splits)

lemma tab_get_delete_where:
  "tab_ok t \<Longrightarrow> tab_get (tab_delete_where P t) k = opt_filter (\<lambda>r. \<not> P r) (tab_get t k)"
  by (induction t)
    (auto simp: tab_get_def tab_ok_def tab_delete_where_def map_of_eq_None_iff opt_filter_def
      split: option.splits)

lemma tab_get_update:
  "tab_get (tab_update k f t) = (tab_get t)(k := map_option f (tab_get t k))"
  by (induction t) (auto simp: tab_update_def tab_get_def fun_eq_iff)

lemma tab_ok_update: "tab_ok t \<Longrightarrow> tab_ok (tab_update k f t)"
  by (simp add: tab_ok_def tab_update_def comp_def case_prod_unfold)

lemma set_tab_update:
  "set (tab_update k f t) = (\<lambda>(k', r). (k', if k' = k then f r else r)) ` set t"
  by (simp add: tab_update_def)

text \<open>
  A query for at most one row (\<open>LIMIT 1\<close> on a column that a unique index covers) finds the
  row that satisfies it.
\<close>

lemma first_where_unique:
  assumes "(k, r) \<in> set t" and "P r"
    and "\<And>k' r'. (k', r') \<in> set t \<Longrightarrow> P r' \<Longrightarrow> r' = r"
  shows "first_of (tab_where P t) = Some r"
  unfolding tab_where_def
proof (rule first_of_filter_unique)
  show "r \<in> set (map snd t)" using assms(1) by (force simp: image_iff)
  show "P r" by (rule assms(2))
  fix r' assume "r' \<in> set (map snd t)" "P r'"
  then obtain k' where "(k', r') \<in> set t" by auto
  then show "r' = r" using \<open>P r'\<close> by (rule assms(3))
qed

lemma first_where_None: "first_of (tab_where P t) = None \<longleftrightarrow> (\<forall>(k, r) \<in> set t. \<not> P r)"
  by (auto simp: tab_where_def filter_empty_conv)

lemma first_where_Some: "first_of (tab_where P t) = Some r \<Longrightarrow> P r \<and> (\<exists>k. (k, r) \<in> set t)"
  using first_of_eq_Some [of "tab_where P t" r] by (auto simp: set_tab_where)

lemma tab_put_fresh: "tab_get t k = None \<Longrightarrow> tab_put k r t = t @ [(k, r)]"
  by (induction t) (auto simp: tab_get_def tab_put_def split: if_splits)

lemma tab_where_Nil: "tab_where P t = [] \<longleftrightarrow> \<not> list_ex P (tab_rows t)"
  by (auto simp: tab_where_def tab_rows_def filter_empty_conv list_ex_iff)

section \<open>Row invariants\<close>

definition rows_ok :: "('k \<Rightarrow> 'r \<Rightarrow> bool) \<Rightarrow> ('k, 'r) table \<Rightarrow> bool" where
  "rows_ok P t \<longleftrightarrow> (\<forall>k r. (k, r) \<in> set t \<longrightarrow> P k r)"

lemma rows_ok_Nil [simp]: "rows_ok P []"
  by (simp add: rows_ok_def)

lemma rows_okD: "rows_ok P t \<Longrightarrow> (k, r) \<in> set t \<Longrightarrow> P k r"
  by (simp add: rows_ok_def)

lemma rows_ok_get: "rows_ok P t \<Longrightarrow> tab_get t k = Some r \<Longrightarrow> P k r"
  by (auto dest: tab_get_in rows_okD)

lemma rows_ok_put: "tab_ok t \<Longrightarrow> rows_ok P t \<Longrightarrow> P k r \<Longrightarrow> rows_ok P (tab_put k r t)"
  by (auto simp: rows_ok_def set_tab_put)

lemma rows_ok_del: "rows_ok P t \<Longrightarrow> rows_ok P (tab_del k t)"
  by (auto simp: rows_ok_def set_tab_del)

lemma rows_ok_delete_where: "rows_ok P t \<Longrightarrow> rows_ok P (tab_delete_where Q t)"
  by (auto simp: rows_ok_def set_tab_delete_where)

lemma rows_ok_update:
  "rows_ok P t \<Longrightarrow> (\<And>r. P k r \<Longrightarrow> P k (f r)) \<Longrightarrow> rows_ok P (tab_update k f t)"
  unfolding rows_ok_def set_tab_update by auto

lemma rows_ok_update_where:
  "rows_ok P t \<Longrightarrow> (\<And>k r. P k r \<Longrightarrow> Q r \<Longrightarrow> P k (f r)) \<Longrightarrow> rows_ok P (tab_update_where Q f t)"
  unfolding rows_ok_def set_tab_update_where by auto

text \<open>When the rows know their own key, an update by key changes the rows that satisfy it.\<close>

lemma tab_where_update:
  assumes "rows_ok (\<lambda>k r. key r = k) t" and "\<And>r. key (f r) = key r" and "\<And>r. \<not> P (f r)"
  shows "tab_where P (tab_update k f t) = filter (\<lambda>r. key r \<noteq> k) (tab_where P t)"
  using assms(1)
proof (induction t)
  case (Cons a t)
  have "rows_ok (\<lambda>k r. key r = k) t" "key (snd a) = fst a"
    using Cons.prems by (auto simp: rows_ok_def)
  then show ?case
    using Cons.IH assms(2,3) by (cases a) (auto simp: tab_where_def tab_update_def)
qed (simp add: tab_where_def tab_update_def)

text \<open>Reading at most one row by its key column is reading the row under that key.\<close>

lemma first_where_key:
  assumes "tab_ok t" and "rows_ok (\<lambda>k r. key r = k) t"
  shows "first_of (tab_where (\<lambda>r. key r = k \<and> Q r) t) = opt_filter Q (tab_get t k)"
proof (cases "opt_filter Q (tab_get t k)")
  case None
  then have "\<not> (key r = k \<and> Q r)" if "(k', r) \<in> set t" for k' r
    using that rows_okD [OF assms(2) that] tab_get_set [OF assms(1), of k r] by (auto split: if_splits)
  then show ?thesis unfolding None first_where_None by blast
next
  case (Some r)
  then have r: "(k, r) \<in> set t" "Q r" by (auto simp: opt_filter_eq_Some dest: tab_get_in)
  show ?thesis
    unfolding Some
  proof (rule first_where_unique [OF r(1)])
    show "key r = k \<and> Q r" using rows_okD [OF assms(2) r(1)] r(2) by simp
    fix k' r' assume "(k', r') \<in> set t" "key r' = k \<and> Q r'"
    then show "r' = r" using rows_okD [OF assms(2)] assms(1) r(1) by (metis tab_ok_unique)
  qed
qed

lemma opt_filter_True [simp]: "opt_filter (\<lambda>_. True) x = x"
  by (cases x) simp_all

lemmas first_where_key_only = first_where_key [where Q = "\<lambda>_. True", simplified]

end
