(* ===== verification/Hub_Schema.thy ===== *)
theory Hub_Schema
  imports Hub_Model Hub_Table
begin

text \<open>
  The tables of the hub's database (\<open>migrations/003\<close>, \<open>005\<close> to \<open>009\<close>, \<open>012\<close>, \<open>013\<close>): one
  record per row, with the columns that the server reads or writes, and the database as the
  record of its tables. A \<open>datetime\<close> column is a point of time in nanoseconds, a
  \<open>NONE\<close> or \<open>NULL\<close> column is \<^const>\<open>None\<close>. The uniqueness constraints are the predicates
  \<open>.._free\<close> that the writing statements consult.
\<close>

definition days :: "nat \<Rightarrow> nat" where
  "days n = n * (86400 * 1000000000)"

lemma days_add: "days (m + n) = days m + days n"
  by (simp add: days_def algebra_simps)

lemma days_le [simp]: "days m \<le> days n \<longleftrightarrow> m \<le> n"
  by (simp add: days_def)

lemma days_less [simp]: "days m < days n \<longleftrightarrow> m < n"
  by (simp add: days_def)

lemma days_pos [simp]: "0 < days n \<longleftrightarrow> 0 < n"
  by (simp add: days_def)

record event_row =
  er_event :: event_envelope
  er_received_at :: int
  er_processed_at :: "int option"
  er_failed_at :: "nat option"
  er_retry_count :: int
  er_last_error :: "string option"

record app_row =
  ar_entry :: app_entry
  ar_scopes :: "json option"
  ar_verified :: "json option"
  ar_manifest_version :: "json option"
  ar_public_key_jwks_uri :: "json option"

record user_row =
  ur_usr_id :: "string option"
  ur_handle :: "string option"
  ur_display_name :: "string option"
  ur_creo_sub :: "string option"
  ur_handle_changed_at :: "nat option"
  ur_account_type :: string

record reserve_row =
  rr_handle :: string
  rr_usr_id :: string
  rr_new_handle :: string
  rr_expires_at :: nat

record member_row =
  mr_org_user :: string
  mr_member_user :: string
  mr_role :: string
  mr_joined_at :: nat

record publication_row =
  pr_publisher :: string
  pr_slug :: string
  pr_url :: string
  pr_title :: "string option"
  pr_app_id :: string
  pr_updated_by :: "string option"
  pr_created_at :: nat
  pr_updated_at :: nat

record token_row =
  tr_token_hash :: string
  tr_app_id :: string
  tr_scopes :: "string list"
  tr_note :: "string option"
  tr_created_at :: nat
  tr_expires_at :: nat
  tr_revoked_at :: "nat option"

record db =
  tb_resource :: "(string, resource) table"
  tb_event :: "(string, event_row) table"
  tb_app :: "(string, app_row) table"
  tb_user :: "(string, user_row) table"
  tb_reserve :: "(string, reserve_row) table"
  tb_member :: "member_row list"
  tb_publication :: "(string \<times> string, publication_row) table"
  tb_token :: "(string, token_row) table"
  tb_migrations :: "string list"

definition empty_db :: db where
  "empty_db = \<lparr>tb_resource = [], tb_event = [], tb_app = [], tb_user = [], tb_reserve = [],
     tb_member = [], tb_publication = [], tb_token = [], tb_migrations = []\<rparr>"

text \<open>
  \<open>DEFINE INDEX .. UNIQUE\<close>: a value may be written to the row under a record id when no row
  under another record id has it. \<open>NONE\<close> is not indexed.
\<close>

definition index_free :: "('r \<Rightarrow> 'v option) \<Rightarrow> 'k \<Rightarrow> 'v option \<Rightarrow> ('k, 'r) table \<Rightarrow> bool" where
  "index_free col k v t \<longleftrightarrow> v = None \<or> list_all (\<lambda>(k', r). k' = k \<or> col r \<noteq> v) t"

definition indexed :: "('r \<Rightarrow> 'v option) \<Rightarrow> ('k, 'r) table \<Rightarrow> bool" where
  "indexed col t \<longleftrightarrow>
     (\<forall>k r k' r' v. (k, r) \<in> set t \<longrightarrow> (k', r') \<in> set t \<longrightarrow> col r = Some v \<longrightarrow> col r' = Some v \<longrightarrow> k = k')"

lemma indexed_Nil [simp]: "indexed col []"
  by (simp add: indexed_def)

lemma indexed_unique:
  assumes "tab_ok t" and "indexed col t" and "(k, r) \<in> set t" and "(k', r') \<in> set t"
    and "col r = Some v" and "col r' = Some v"
  shows "r' = r"
proof -
  have "k = k'" using assms(2-6) unfolding indexed_def by blast
  with assms(1,3,4) show ?thesis by (blast dest: tab_ok_unique)
qed

lemma indexed_put:
  assumes "tab_ok t" and "indexed col t" and "index_free col k (col r) t"
  shows "indexed col (tab_put k r t)"
  unfolding indexed_def
proof (intro allI impI)
  fix k1 r1 k2 r2 v
  assume in1: "(k1, r1) \<in> set (tab_put k r t)" and in2: "(k2, r2) \<in> set (tab_put k r t)"
    and v: "col r1 = Some v" "col r2 = Some v"
  have free: "col r' \<noteq> col r" if "(k', r') \<in> set t" "k' \<noteq> k" "col r \<noteq> None" for k' r'
    using assms(3) that by (auto simp: index_free_def list_all_iff)
  show "k1 = k2"
    using in1 in2 v assms(2) free unfolding set_tab_put [OF assms(1)] indexed_def
    by (auto 0 3)
qed

lemma indexed_subset: "indexed col t \<Longrightarrow> set t' \<subseteq> set t \<Longrightarrow> indexed col t'"
  unfolding indexed_def by blast

lemma indexed_del: "indexed col t \<Longrightarrow> indexed col (tab_del k t)"
  by (rule indexed_subset) (auto simp: set_tab_del)

lemma indexed_delete_where: "indexed col t \<Longrightarrow> indexed col (tab_delete_where P t)"
  by (rule indexed_subset) (auto simp: set_tab_delete_where)

lemma indexed_update_where:
  "(\<And>r. P r \<Longrightarrow> col (f r) = col r) \<Longrightarrow> indexed col t \<Longrightarrow> indexed col (tab_update_where P f t)"
  unfolding indexed_def set_tab_update_where
  by (auto 0 3 split: if_splits)

lemma indexed_update:
  "(\<And>r. col (f r) = col r) \<Longrightarrow> indexed col t \<Longrightarrow> indexed col (tab_update k f t)"
  unfolding indexed_def set_tab_update by (auto 0 3 split: if_splits)

end
