(* ===== verification/Hub_Error.thy ===== *)
theory Hub_Error
  imports Hub_Text
begin

text \<open>
  Errors of the server (\<open>anyhow::Error\<close>) and their classification in
  \<open>crates/chronista-hub-server/src/db.rs\<close> and \<open>storage.rs\<close>: which of them mean that the
  database cannot be reached, which are a transaction conflict and which a unique index.

  An error is its chain, outermost first: plain messages, and errors of the SurrealDB SDK
  with the three answers that the code asks the SDK's types for and the displayed text.
\<close>

record sdk_error =
  sdk_is_connection :: bool
  sdk_session_not_found :: bool
  sdk_auth_expired :: bool
  sdk_message :: string

datatype cause = Sdk sdk_error | Plain string

type_synonym error = "cause list"

fun cause_text :: "cause \<Rightarrow> string" where
  "cause_text (Sdk e) = sdk_message e"
| "cause_text (Plain m) = m"

text \<open>\<open>anyhow!(m)\<close>, \<open>e.to_string()\<close> and \<open>e.context(m)\<close>.\<close>

definition anyhow :: "string \<Rightarrow> error" where
  "anyhow m = [Plain m]"

definition error_text :: "error \<Rightarrow> string" where
  "error_text e = (case e of [] \<Rightarrow> [] | c # _ \<Rightarrow> cause_text c)"

definition with_context :: "string \<Rightarrow> error \<Rightarrow> error" where
  "with_context m e = Plain m # e"

text \<open>A statement error that the database reports with a plain text.\<close>

definition db_error :: "string \<Rightarrow> error" where
  "db_error m = [Sdk \<lparr>sdk_is_connection = False, sdk_session_not_found = False,
     sdk_auth_expired = False, sdk_message = m\<rparr>]"

section \<open>Is the database unreachable?\<close>

definition typed_kind :: "cause \<Rightarrow> string option" where
  "typed_kind c =
     (case c of
        Sdk e \<Rightarrow> (if sdk_is_connection e then Some ''connection''
                  else if sdk_session_not_found e then Some ''session''
                  else if sdk_auth_expired e then Some ''auth'' else None)
      | Plain _ \<Rightarrow> None)"

definition MARKERS :: "(string \<times> string) list" where
  "MARKERS =
     [(''Session not found'', ''session''),
      (''The session has expired'', ''auth''),
      (''Anonymous access not allowed'', ''auth''),
      (''Failed to send command'', ''connection''),
      (''Connection uninitialised'', ''connection''),
      (''connection was closed'', ''connection''),
      (''Connection refused'', ''connection''),
      (''Connection reset'', ''connection''),
      (''db ping timed out'', ''timeout''),
      (''db reconnect timed out'', ''timeout'')]"

definition marker_kind :: "string \<Rightarrow> string option" where
  "marker_kind m = map_option snd (find (\<lambda>(k, _). contains_str m k) MARKERS)"

text \<open>\<open>find_map\<close> over a chain.\<close>

fun find_map :: "('a \<Rightarrow> 'b option) \<Rightarrow> 'a list \<Rightarrow> 'b option" where
  "find_map f [] = None"
| "find_map f (x # xs) = (case f x of Some y \<Rightarrow> Some y | None \<Rightarrow> find_map f xs)"

lemma find_map_None: "find_map f xs = None \<longleftrightarrow> (\<forall>x \<in> set xs. f x = None)"
  by (induction xs) (auto split: option.splits)

lemma find_map_Some: "find_map f xs = Some y \<Longrightarrow> \<exists>x \<in> set xs. f x = Some y"
  by (induction xs) (auto split: option.splits)

definition kind_of :: "error \<Rightarrow> string option" where
  "kind_of e =
     (case find_map typed_kind e of
        Some k \<Rightarrow> Some k
      | None \<Rightarrow> find_map marker_kind (map cause_text e))"

definition is_unavailable :: "error \<Rightarrow> bool" where
  "is_unavailable e \<longleftrightarrow> kind_of e \<noteq> None"

section \<open>Conflicts and unique indexes\<close>

definition is_unique_violation :: "error \<Rightarrow> bool" where
  "is_unique_violation e \<longleftrightarrow> contains_str (error_text e) ''already contains''"

definition is_conflict_msg :: "string \<Rightarrow> bool" where
  "is_conflict_msg m \<longleftrightarrow> contains_str m ''Transaction conflict'' \<or> contains_str m ''can be retried''"

text \<open>The texts with which the database answers the failures that the code tells apart.\<close>

definition unique_index_error :: "string \<Rightarrow> error" where
  "unique_index_error idx = db_error (''Database index `'' @ idx @ ''` already contains the value'')"

definition thrown_error :: "string \<Rightarrow> error" where
  "thrown_error m = db_error (''An error occurred: '' @ m)"

definition record_exists_error :: error where
  "record_exists_error = db_error ''Database record already exists''"

definition field_assert_error :: error where
  "field_assert_error = db_error ''Found a value for a field, but the field must conform to its assertion''"

lemma contains_strI: "m = a @ k @ b \<Longrightarrow> contains_str m k"
  by (auto simp: contains_str_def sublist_def)

lemma is_unique_violation_index [simp]: "is_unique_violation (unique_index_error idx)"
  unfolding is_unique_violation_def unique_index_error_def db_error_def error_text_def
  by (auto intro!: contains_strI [where a = "''Database index `'' @ idx @ ''` ''" and b = "'' the value''"])

lemma is_unavailable_context: "is_unavailable e \<Longrightarrow> is_unavailable (with_context m e)"
  by (auto simp: is_unavailable_def kind_of_def with_context_def typed_kind_def split: option.splits)

end
