(* ===== verification/Hub_World.thy ===== *)
theory Hub_World
  imports Hub_Schema Hub_Error "HOL-Library.Word"
begin

text \<open>
  The world an asynchronous handler runs in, and the calculus of its steps.

  A handler is a function of the world (\<open>'a hub\<close>): the database, the clock, what the
  environment does at each query, the permit of the watchdog's \<open>Notify\<close> and the random
  source. Between two queries anything may happen; this is the script of the world. Each
  entry is consumed by one query: the time that passes before it, what the other clients of
  the database have done in the meantime, and how the query fares. Once the script is used up
  the handler runs alone and nothing fails.
\<close>

datatype fault =
    NoFault            \<comment> \<open>the query runs and its answer arrives\<close>
  | Refused error      \<comment> \<open>the query never runs: \<open>.await\<close> gives an error\<close>
  | Failed error       \<comment> \<open>the database answers with an error and changes nothing\<close>
  | Lost error         \<comment> \<open>the query runs but its answer is lost: \<open>.await\<close> gives an error\<close>

record env_step =
  es_elapsed :: nat
  es_others :: "db \<Rightarrow> db"
  es_fault :: fault

record world =
  w_db :: db
  w_now :: nat
  w_script :: "env_step list"
  w_kicked :: bool
  w_rand :: "nat \<Rightarrow> char"
  w_drawn :: nat

type_synonym 'a hub = "world \<Rightarrow> (error + 'a) \<times> world"

text \<open>
  Code outside the repository that the server calls, as parameters of the model: how the
  database prints a point of time, SHA-256 on bytes, and the parsers of JSON, URLs and
  base64url, the printers of JSON and base64. A parsed URL answers the questions that the code asks it.
\<close>

record url =
  url_scheme :: string
  url_username :: string
  url_has_password :: bool
  url_has_port :: bool
  url_host :: "string option"
  url_text :: string

record ext =
  x_time_str :: "nat \<Rightarrow> string"
  x_sha256 :: "string \<Rightarrow> string"
  x_parse_json :: "string \<Rightarrow> json option"
  x_parse_url :: "string \<Rightarrow> url option"
  x_base64url_decode :: "string \<Rightarrow> string option"
  x_json_text :: "json \<Rightarrow> string"
  x_base64 :: "string \<Rightarrow> string"

section \<open>Steps\<close>

definition ret :: "'a \<Rightarrow> 'a hub" where
  "ret a w = (Inr a, w)"

definition raise :: "error \<Rightarrow> 'a hub" where
  "raise e w = (Inl e, w)"

text \<open>\<open>let x = m?; f(x)\<close>.\<close>

definition bnd :: "'a hub \<Rightarrow> ('a \<Rightarrow> 'b hub) \<Rightarrow> 'b hub" where
  "bnd m f w = (case m w of (Inl e, w') \<Rightarrow> (Inl e, w') | (Inr a, w') \<Rightarrow> f a w')"

text \<open>The result of a step as a value, to match on: \<open>match m { Ok(..) => .., Err(..) => .. }\<close>.\<close>

definition attempt :: "'a hub \<Rightarrow> (error + 'a) hub" where
  "attempt m w = (case m w of (r, w') \<Rightarrow> (Inr r, w'))"

text \<open>\<open>.check()?\<close> and \<open>.take(0)?\<close> on an answer.\<close>

definition check :: "error + 'a \<Rightarrow> 'a hub" where
  "check r = (case r of Inl e \<Rightarrow> raise e | Inr a \<Rightarrow> ret a)"

text \<open>
  One query: a function of the database's clock and of the database, giving the answer of the
  statements (an error of theirs or their result) and the database after them.
\<close>

definition query :: "(nat \<Rightarrow> db \<Rightarrow> (error + 'a) \<times> db) \<Rightarrow> (error + 'a) hub" where
  "query q w =
     (case w_script w of
        [] \<Rightarrow> (case q (w_now w) (w_db w) of (r, d) \<Rightarrow> (Inr r, w\<lparr>w_db := d\<rparr>))
      | e # es \<Rightarrow>
          (let t = w_now w + es_elapsed e;
               d0 = es_others e (w_db w);
               w' = w\<lparr>w_now := t, w_script := es, w_db := d0\<rparr>
           in case es_fault e of
                NoFault \<Rightarrow> (case q t d0 of (r, d) \<Rightarrow> (Inr r, w'\<lparr>w_db := d\<rparr>))
              | Refused err \<Rightarrow> (Inl err, w')
              | Failed err \<Rightarrow> (Inr (Inl err), w')
              | Lost err \<Rightarrow> (case q t d0 of (r, d) \<Rightarrow> (Inl err, w'\<lparr>w_db := d\<rparr>))))"

definition run :: "(nat \<Rightarrow> db \<Rightarrow> (error + 'a) \<times> db) \<Rightarrow> 'a hub" where
  "run q = bnd (query q) check"

text \<open>A query that only reads.\<close>

definition select :: "(nat \<Rightarrow> db \<Rightarrow> 'a) \<Rightarrow> 'a hub" where
  "select f = run (\<lambda>t d. (Inr (f t d), d))"

text \<open>
  \<open>SystemTime::now()\<close> in milliseconds as an \<open>i64\<close>: the cast from \<open>u128\<close> keeps the low 64 bits.
\<close>

definition now_ms :: "nat \<Rightarrow> int" where
  "now_ms t = sint (word_of_nat (t div 1000000) :: 64 word)"

definition clock_ms :: "int hub" where
  "clock_ms w = (Inr (now_ms (w_now w)), w)"

text \<open>\<open>rand::rng().fill_bytes\<close>, \<open>tokio::time::sleep\<close> and \<open>Notify::notify_one\<close>.\<close>

definition draw :: "nat \<Rightarrow> string hub" where
  "draw n w = (Inr (map (\<lambda>i. w_rand w (w_drawn w + i)) [0..<n]), w\<lparr>w_drawn := w_drawn w + n\<rparr>)"

definition sleep_ms :: "nat \<Rightarrow> unit hub" where
  "sleep_ms n w = (Inr (), w\<lparr>w_now := w_now w + n * 1000000\<rparr>)"

definition kick :: "unit hub" where
  "kick w = (Inr (), w\<lparr>w_kicked := True\<rparr>)"

lemma now_ms_eq: "t div 1000000 < 2 ^ 63 \<Longrightarrow> now_ms t = int (t div 1000000)"
  by (simp add: now_ms_def signed_of_nat signed_take_bit_int_eq_self)

section \<open>Running alone\<close>

definition alone :: "world \<Rightarrow> bool" where
  "alone w \<longleftrightarrow> w_script w = []"

lemma alone_update [simp]:
  "alone (w\<lparr>w_db := d\<rparr>) = alone w" "alone (w\<lparr>w_now := t\<rparr>) = alone w"
  "alone (w\<lparr>w_drawn := n\<rparr>) = alone w" "alone (w\<lparr>w_kicked := b\<rparr>) = alone w"
  by (simp_all add: alone_def)

lemma ret_apply [simp]: "ret a w = (Inr a, w)"
  by (simp add: ret_def)

lemma raise_apply [simp]: "raise e w = (Inl e, w)"
  by (simp add: raise_def)

lemma bnd_apply [simp]:
  "m w = (Inr a, w') \<Longrightarrow> bnd m f w = f a w'"
  "m w = (Inl e, w') \<Longrightarrow> bnd m f w = (Inl e, w')"
  by (simp_all add: bnd_def)

lemma attempt_apply [simp]: "m w = (r, w') \<Longrightarrow> attempt m w = (Inr r, w')"
  by (simp add: attempt_def)

lemma check_simps [simp]: "check (Inl e) = raise e" "check (Inr a) = ret a"
  by (simp_all add: check_def)

lemma query_alone [quiet]:
  "alone w \<Longrightarrow> query q w = (Inr (fst (q (w_now w) (w_db w))), w\<lparr>w_db := snd (q (w_now w) (w_db w))\<rparr>)"
  by (simp add: query_def alone_def case_prod_unfold)

lemma run_alone [quiet]:
  "alone w \<Longrightarrow> run q w = (fst (q (w_now w) (w_db w)), w\<lparr>w_db := snd (q (w_now w) (w_db w))\<rparr>)"
  by (cases "fst (q (w_now w) (w_db w))") (simp_all add: run_def query_alone bnd_def)

lemma select_alone [quiet]: "alone w \<Longrightarrow> select f w = (Inr (f (w_now w) (w_db w)), w)"
  by (simp add: select_def run_alone)

text \<open>Sequencing after each kind of step, as straight-line rewriting.\<close>

lemma bnd_run_alone [quiet]:
  "alone w \<Longrightarrow> bnd (run q) f w = (case q (w_now w) (w_db w) of (r, d) \<Rightarrow>
     case r of Inl e \<Rightarrow> (Inl e, w\<lparr>w_db := d\<rparr>) | Inr a \<Rightarrow> f a (w\<lparr>w_db := d\<rparr>))"
  by (simp add: run_alone bnd_def split: prod.split sum.split)

lemma bnd_query_alone [quiet]:
  "alone w \<Longrightarrow> bnd (query q) f w = (case q (w_now w) (w_db w) of (r, d) \<Rightarrow> f r (w\<lparr>w_db := d\<rparr>))"
  by (simp add: query_alone bnd_def split: prod.split sum.split)

lemma bnd_select_alone [quiet]: "alone w \<Longrightarrow> bnd (select f) g w = g (f (w_now w) (w_db w)) w"
  by (simp add: select_alone)

lemma bnd_steps [quiet]:
  "bnd clock_ms f w = f (now_ms (w_now w)) w"
  "bnd (draw n) f' w = f' (map (\<lambda>i. w_rand w (w_drawn w + i)) [0..<n]) (w\<lparr>w_drawn := w_drawn w + n\<rparr>)"
  "bnd (sleep_ms n) g w = g () (w\<lparr>w_now := w_now w + n * 1000000\<rparr>)"
  "bnd kick g w = g () (w\<lparr>w_kicked := True\<rparr>)"
  "bnd (attempt m) h w = h (fst (m w)) (snd (m w))"
  by (simp_all add: bnd_def clock_ms_def draw_def sleep_ms_def kick_def attempt_def case_prod_unfold)

lemma bnd_ret [simp]: "bnd (ret a) f = f a"
  by (rule ext) simp

lemma bnd_raise [simp]: "bnd (raise e) f = raise e"
  by (rule ext) simp

lemma bnd_assoc: "bnd (bnd m f) g = bnd m (\<lambda>a. bnd (f a) g)"
  by (rule ext) (simp add: bnd_def split: prod.split sum.split)

text \<open>Inversion: what a result of a sequence, of a query, tells.\<close>

lemma bnd_eq_Inr:
  "bnd m f w = (Inr b, w') \<longleftrightarrow> (\<exists>a v. m w = (Inr a, v) \<and> f a v = (Inr b, w'))"
  by (auto simp: bnd_def split: prod.splits sum.splits)

lemma ret_eq: "ret a w = (Inr b, w') \<longleftrightarrow> b = a \<and> w' = w"
  by auto

lemma query_eq_Inr:
  assumes "query q w = (Inr r, w')"
  obtains t d where "q t d = (r, w_db w')" | err where "r = Inl err"
  using assms
  by (cases "w_script w") (auto simp: query_def Let_def split: prod.splits fault.splits)

lemma run_eq_Inr:
  assumes "run q w = (Inr a, w')"
  obtains t d where "fst (q t d) = Inr a" "w_db w' = snd (q t d)"
proof -
  obtain r v where r: "query q w = (Inr r, v)" and c: "check r v = (Inr a, w')"
    using assms by (auto simp: run_def bnd_eq_Inr)
  from c have "r = Inr a" "v = w'" by (cases r; auto)+
  with r have "query q w = (Inr (Inr a), w')" by simp
  then show thesis
  proof (rule query_eq_Inr)
    fix t d assume "q t d = (Inr a, w_db w')"
    then show thesis by (intro that [of t d]) simp_all
  qed simp
qed

section \<open>Database invariants under interference\<close>

text \<open>
  \<open>stable I w\<close>: the database satisfies \<open>I\<close>, and so does what the other clients of the script
  make of any database that does. \<open>keeps I m\<close>: the step \<open>m\<close> does its part.
\<close>

definition stable :: "(db \<Rightarrow> bool) \<Rightarrow> world \<Rightarrow> bool" where
  "stable I w \<longleftrightarrow> I (w_db w) \<and> (\<forall>e \<in> set (w_script w). \<forall>d. I d \<longrightarrow> I (es_others e d))"

definition keeps :: "(db \<Rightarrow> bool) \<Rightarrow> 'a hub \<Rightarrow> bool" where
  "keeps I m \<longleftrightarrow> (\<forall>w. stable I w \<longrightarrow> stable I (snd (m w)))"

lemma stable_alone: "alone w \<Longrightarrow> I (w_db w) \<Longrightarrow> stable I w"
  by (simp add: stable_def alone_def)

text \<open>\<open>returns I m Q\<close>: under the same reliance, whatever \<open>m\<close> returns satisfies \<open>Q\<close>.\<close>

definition returns :: "(db \<Rightarrow> bool) \<Rightarrow> 'a hub \<Rightarrow> ('a \<Rightarrow> bool) \<Rightarrow> bool" where
  "returns I m Q \<longleftrightarrow> (\<forall>w a w'. stable I w \<longrightarrow> m w = (Inr a, w') \<longrightarrow> Q a)"

lemma keepsD: "keeps I m \<Longrightarrow> stable I w \<Longrightarrow> stable I (snd (m w))"
  by (simp add: keeps_def)

lemma keeps_ret [keeps]: "keeps I (ret a)"
  by (simp add: keeps_def)

lemma keeps_raise [keeps]: "keeps I (raise e)"
  by (simp add: keeps_def)

lemma keeps_bnd [keeps]: "keeps I m \<Longrightarrow> (\<And>a. keeps I (f a)) \<Longrightarrow> keeps I (bnd m f)"
  unfolding keeps_def bnd_def
  by (force split: prod.splits sum.splits)

lemma keeps_attempt [keeps]: "keeps I m \<Longrightarrow> keeps I (attempt m)"
  by (simp add: keeps_def attempt_def case_prod_unfold)

lemma keeps_check [keeps]: "keeps I (check r)"
  by (cases r) (simp_all add: keeps_ret keeps_raise)

lemma keeps_query [keeps]:
  assumes "\<And>t d. I d \<Longrightarrow> I (snd (q t d))"
  shows "keeps I (query q)"
  unfolding keeps_def
proof (intro allI impI)
  fix w assume st: "stable I w"
  show "stable I (snd (query q w))"
  proof (cases "w_script w")
    case Nil
    then show ?thesis
      using st assms by (simp add: query_def stable_def case_prod_unfold)
  next
    case (Cons e es)
    then have "I (es_others e (w_db w))" using st by (simp add: stable_def)
    then show ?thesis
      using st Cons assms
      by (simp add: query_def stable_def Let_def case_prod_unfold split: fault.split)
  qed
qed

lemma keeps_run [keeps]: "(\<And>t d. I d \<Longrightarrow> I (snd (q t d))) \<Longrightarrow> keeps I (run q)"
  unfolding run_def by (intro keeps)

lemma keeps_select [keeps]: "keeps I (select f)"
  unfolding select_def by (intro keeps) simp

lemma keeps_clock [keeps]: "keeps I clock_ms"
  by (simp add: keeps_def clock_ms_def)

lemma keeps_draw [keeps]: "keeps I (draw n)"
  by (simp add: keeps_def draw_def stable_def)

lemma keeps_sleep [keeps]: "keeps I (sleep_ms n)"
  by (simp add: keeps_def sleep_ms_def stable_def)

lemma keeps_kick [keeps]: "keeps I kick"
  by (simp add: keeps_def kick_def stable_def)

lemma keeps_if [keeps]: "(b \<Longrightarrow> keeps I m) \<Longrightarrow> (\<not> b \<Longrightarrow> keeps I m') \<Longrightarrow> keeps I (if b then m else m')"
  by simp

lemma keeps_option [keeps]:
  "(x = None \<Longrightarrow> keeps I m) \<Longrightarrow> (\<And>a. x = Some a \<Longrightarrow> keeps I (f a)) \<Longrightarrow>
   keeps I (case x of None \<Rightarrow> m | Some a \<Rightarrow> f a)"
  by (cases x) simp_all

lemma keeps_sum [keeps]:
  "(\<And>a. x = Inl a \<Longrightarrow> keeps I (f a)) \<Longrightarrow> (\<And>b. x = Inr b \<Longrightarrow> keeps I (g b)) \<Longrightarrow>
   keeps I (case x of Inl a \<Rightarrow> f a | Inr b \<Rightarrow> g b)"
  by (cases x) simp_all

lemma keeps_prod [keeps]: "(\<And>a b. x = (a, b) \<Longrightarrow> keeps I (f a b)) \<Longrightarrow> keeps I (case x of (a, b) \<Rightarrow> f a b)"
  by (cases x) simp

lemma keeps_let [keeps]: "keeps I (f a) \<Longrightarrow> keeps I (Let a f)"
  by (simp add: Let_def)

lemma returnsD: "returns I m Q \<Longrightarrow> stable I w \<Longrightarrow> m w = (Inr a, w') \<Longrightarrow> Q a"
  unfolding returns_def by blast

lemma stable_True [simp]: "stable (\<lambda>_. True) w"
  by (simp add: stable_def)

lemma returns_ret: "Q a \<Longrightarrow> returns I (ret a) Q"
  by (simp add: returns_def)

lemma returns_raise: "returns I (raise e) Q"
  by (simp add: returns_def)

lemma returns_bnd:
  assumes "returns I m P" and "keeps I m" and "\<And>a. P a \<Longrightarrow> returns I (f a) Q"
  shows "returns I (bnd m f) Q"
  unfolding returns_def
proof (intro allI impI)
  fix w b w'
  assume st: "stable I w" and b: "bnd m f w = (Inr b, w')"
  then obtain a v where m: "m w = (Inr a, v)" and f: "f a v = (Inr b, w')"
    by (auto simp: bnd_def split: prod.splits sum.splits)
  have "P a" using assms(1) st m by (auto simp: returns_def)
  moreover have "stable I v" using keepsD [OF assms(2) st] m by simp
  ultimately show "Q b" using assms(3) f by (auto simp: returns_def)
qed

text \<open>A step after one of which is known what it returns.\<close>

lemma keeps_bnd_returns:
  assumes "returns I m P" and "keeps I m" and "\<And>a. P a \<Longrightarrow> keeps I (f a)"
  shows "keeps I (bnd m f)"
  unfolding keeps_def
proof (intro allI impI)
  fix w
  assume st: "stable I w"
  show "stable I (snd (bnd m f w))"
  proof (cases "m w")
    case (Pair r w')
    then have "stable I w'" using keepsD [OF assms(2) st] by simp
    then show ?thesis
      using Pair returnsD [OF assms(1) st] assms(3) by (cases r) (auto simp: bnd_def keeps_def)
  qed
qed

lemma returns_True: "returns I m (\<lambda>_. True)"
  by (simp add: returns_def)

lemma returns_weaken: "returns I m P \<Longrightarrow> (\<And>a. P a \<Longrightarrow> Q a) \<Longrightarrow> returns I m Q"
  by (auto simp: returns_def)

lemma returns_if: "returns I m Q \<Longrightarrow> returns I m' Q \<Longrightarrow> returns I (if b then m else m') Q"
  by simp

lemma returns_sum:
  "(\<And>a. returns I (f a) Q) \<Longrightarrow> (\<And>b. returns I (g b) Q) \<Longrightarrow>
   returns I (case x of Inl a \<Rightarrow> f a | Inr b \<Rightarrow> g b) Q"
  by (cases x) simp_all

lemma returns_attempt: "returns I m Q \<Longrightarrow> returns I (attempt m) (\<lambda>r. case r of Inl _ \<Rightarrow> True | Inr a \<Rightarrow> Q a)"
  by (auto simp: returns_def attempt_def split: prod.splits sum.split)

lemma returns_option:
  "returns I m Q \<Longrightarrow> (\<And>a. returns I (f a) Q) \<Longrightarrow>
   returns I (case x of None \<Rightarrow> m | Some a \<Rightarrow> f a) Q"
  by (cases x) simp_all

text \<open>What a read returns is true of some database that satisfies the invariant.\<close>

lemma returns_select:
  assumes "\<And>t d. I d \<Longrightarrow> Q (f t d)"
  shows "returns I (select f) Q"
  unfolding returns_def
proof (intro allI impI)
  fix w a w'
  assume st: "stable I w" and a: "select f w = (Inr a, w')"
  show "Q a"
  proof (cases "w_script w")
    case Nil
    then show ?thesis
      using st a assms by (auto simp: select_def run_def query_def bnd_def stable_def)
  next
    case (Cons e es)
    then have "I (es_others e (w_db w))" using st by (simp add: stable_def)
    then show ?thesis
      using a assms Cons
      by (auto simp: select_def run_def query_def bnd_def Let_def split: fault.splits)
  qed
qed

section \<open>Operations that only read\<close>

text \<open>\<open>reads m\<close>: left alone, the step \<open>m\<close> leaves the world as it is, whatever it returns.\<close>

definition reads :: "'a hub \<Rightarrow> bool" where
  "reads m \<longleftrightarrow> (\<forall>w. alone w \<longrightarrow> snd (m w) = w)"

lemma readsD: "reads m \<Longrightarrow> alone w \<Longrightarrow> snd (m w) = w"
  by (simp add: reads_def)

lemma readsE: "reads m \<Longrightarrow> alone w \<Longrightarrow> m w = (r, w') \<Longrightarrow> w' = w"
  using readsD by fastforce

lemma reads_basic [reads]:
  "reads (ret a)" "reads (raise e)" "reads clock_ms" "reads (select f)"
  by (auto simp: reads_def clock_ms_def select_alone)

lemma reads_check [reads]: "reads (check r)"
  by (cases r) (simp_all add: reads_def)

lemma reads_bnd [reads]: "reads m \<Longrightarrow> (\<And>a. reads (f a)) \<Longrightarrow> reads (bnd m f)"
  unfolding reads_def bnd_def by (force split: prod.splits sum.splits)

lemma reads_attempt [reads]: "reads m \<Longrightarrow> reads (attempt m)"
  by (simp add: reads_def attempt_def case_prod_unfold)

lemma reads_cases [reads]:
  "(b \<Longrightarrow> reads m) \<Longrightarrow> (\<not> b \<Longrightarrow> reads m') \<Longrightarrow> reads (if b then m else m')"
  "(x = None \<Longrightarrow> reads m) \<Longrightarrow> (\<And>a. x = Some a \<Longrightarrow> reads (f a)) \<Longrightarrow>
   reads (case x of None \<Rightarrow> m | Some a \<Rightarrow> f a)"
  "(\<And>a. y = Inl a \<Longrightarrow> reads (g a)) \<Longrightarrow> (\<And>b. y = Inr b \<Longrightarrow> reads (h b)) \<Longrightarrow>
   reads (case y of Inl a \<Rightarrow> g a | Inr b \<Rightarrow> h b)"
  "(\<And>a b. z = (a, b) \<Longrightarrow> reads (k a b)) \<Longrightarrow> reads (case z of (a, b) \<Rightarrow> k a b)"
  "reads (l v) \<Longrightarrow> reads (Let v l)"
  by (auto simp: Let_def split: option.split sum.split prod.split)

text \<open>What a sequence that begins with a read tells about it.\<close>

lemma bnd_readsE:
  assumes "bnd m f w = (Inr b, w')" and "reads m" and "alone w"
  obtains a where "m w = (Inr a, w)" "f a w = (Inr b, w')"
  using assms readsE [OF assms(2,3)] by (auto simp: bnd_eq_Inr)

section \<open>A concrete world and concrete parameters\<close>

text \<open>
  For the instances of the theorems: a world with a given database and script, and parsers
  that know a few texts.
\<close>

definition world_of :: "db \<Rightarrow> env_step list \<Rightarrow> world" where
  "world_of d es = \<lparr>w_db = d, w_now = 0, w_script = es, w_kicked = False, w_rand = char_of, w_drawn = 0\<rparr>"

abbreviation a_world :: "db \<Rightarrow> world" where
  "a_world d \<equiv> world_of d []"

lemma world_of_simps [simp]:
  "w_db (world_of d es) = d" "w_now (world_of d es) = 0" "w_script (world_of d es) = es"
  "(world_of d es)\<lparr>w_db := d'\<rparr> = world_of d' es"
  "w_kicked (world_of d es) = False" "w_rand (world_of d es) = char_of" "w_drawn (world_of d es) = 0"
  by (simp_all add: world_of_def)

lemma alone_a_world [simp]: "alone (a_world d)"
  by (simp add: alone_def)

lemma stable_a_world: "I d \<Longrightarrow> stable I (a_world d)"
  by (simp add: stable_def)

text \<open>A query at which nothing happens.\<close>

definition calm :: env_step where
  "calm = \<lparr>es_elapsed = 0, es_others = (\<lambda>d. d), es_fault = NoFault\<rparr>"

definition an_ext :: ext where
  "an_ext = \<lparr>x_time_str = show_nat, x_sha256 = rev, x_parse_json = (\<lambda>s. Some (JStr s)),
     x_parse_url = (\<lambda>s. None), x_base64url_decode = Some,
     x_json_text = (\<lambda>_. []), x_base64 = id\<rparr>"

end
