(* ===== verification/Resource_Store.thy ===== *)
theory Resource_Store
  imports Hub_World "HOL-Library.Multiset"
begin

text \<open>
  The tree of resources: the table \<open>hub_resource\<close> and the operations on it
  (\<open>crates/chronista-hub-server/src/storage.rs\<close>): the reads of the REST surface with their
  guard on federation nodes, the writes of the event consumer, and the node registry of the
  Unison surface with its owner guards.
\<close>

section \<open>Reads of the REST surface\<close>

record tree_read_options =
  tro_visibility :: "visibility option"
  tro_type :: "string option"
  tro_limit :: "nat option"

definition no_options :: tree_read_options where
  "no_options = \<lparr>tro_visibility = None, tro_type = None, tro_limit = None\<rparr>"

text \<open>The clause that keeps federation nodes that are not public out of the REST reads.\<close>

definition VP_NODE_REST_GUARD :: "resource \<Rightarrow> bool" where
  "VP_NODE_REST_GUARD r \<longleftrightarrow>
     \<not> ((res_type r = ''vp-node'' \<or> res_type r = ''vp-world'') \<and> res_visibility r \<noteq> Public)"

definition filter_clause :: "tree_read_options \<Rightarrow> resource \<Rightarrow> bool" where
  "filter_clause opts r \<longleftrightarrow>
     (case tro_visibility opts of None \<Rightarrow> True | Some v \<Rightarrow> res_visibility r = v) \<and>
     (case tro_type opts of None \<Rightarrow> True | Some t \<Rightarrow> res_type r = t)"

definition by_created :: "resource list \<Rightarrow> resource list" where
  "by_created rs = sort_key res_created_at rs"

definition get_resources_by_handle :: "string \<Rightarrow> tree_read_options \<Rightarrow> resource list hub" where
  "get_resources_by_handle handle opts = select (\<lambda>t d. limit_to (tro_limit opts) (by_created
     (tab_where (\<lambda>r. res_handle r = handle \<and> VP_NODE_REST_GUARD r \<and> filter_clause opts r)
       (tb_resource d))))"

definition normalize_path :: "string \<Rightarrow> string" where
  "normalize_path path = (if prefix ''/'' path then path else ''/'' @ path)"

definition get_resources_by_path ::
  "string \<Rightarrow> string \<Rightarrow> tree_read_options \<Rightarrow> resource list hub" where
  "get_resources_by_path handle path opts =
     (let normalized = normalize_path path
      in select (\<lambda>t d. limit_to (tro_limit opts) (by_created
           (tab_where (\<lambda>r. res_handle r = handle \<and> prefix normalized (res_path r) \<and>
                           VP_NODE_REST_GUARD r \<and> filter_clause opts r)
             (tb_resource d)))))"

definition get_resource_by_id :: "string \<Rightarrow> resource option hub" where
  "get_resource_by_id i = select (\<lambda>t d.
     first_of (tab_where (\<lambda>r. res_id r = i \<and> VP_NODE_REST_GUARD r) (tb_resource d)))"

definition list_resources_by_type :: "string \<Rightarrow> resource list hub" where
  "list_resources_by_type rtype = select (\<lambda>t d.
     by_created (tab_where (\<lambda>r. res_type r = rtype) (tb_resource d)))"

section \<open>Writes of the consumer\<close>

definition upsert_resource :: "resource \<Rightarrow> unit hub" where
  "upsert_resource r = run (\<lambda>t d. (Inr (), d\<lparr>tb_resource := tab_put (res_id r) r (tb_resource d)\<rparr>))"

definition delete_resource :: "string \<Rightarrow> unit hub" where
  "delete_resource i = run (\<lambda>t d. (Inr (), d\<lparr>tb_resource := tab_del i (tb_resource d)\<rparr>))"

section \<open>The node registry\<close>

definition node_rid :: "string \<Rightarrow> string" where
  "node_rid w = ''vp-node:'' @ w"

text \<open>\<open>WHERE owner = NONE OR owner = NULL OR owner = $owner\<close>.\<close>

definition owner_matches :: "string option \<Rightarrow> resource \<Rightarrow> bool" where
  "owner_matches who r \<longleftrightarrow> res_owner r = None \<or> res_owner r = who"

definition node_payload :: "string \<Rightarrow> string option \<Rightarrow> string list \<Rightarrow> json" where
  "node_payload name node_id endpoints = JObj
     [(''name'', JStr name), (''node_id'', json_opt node_id), (''endpoints'', json_strings endpoints)]"

definition node_row ::
  "string \<Rightarrow> string option \<Rightarrow> string \<Rightarrow> string \<Rightarrow> string list \<Rightarrow> string option \<Rightarrow> visibility \<Rightarrow> string \<Rightarrow> resource" where
  "node_row rid node_id handle name endpoints owner vis at =
     \<lparr>res_id = rid, res_type = ''vp-node'', res_path = ''/'', res_handle = handle,
      res_owner = owner, res_visibility = vis, res_payload = node_payload name node_id endpoints,
      res_created_at = at, res_updated_at = at\<rparr>"

definition register_node ::
  "ext \<Rightarrow> string option \<Rightarrow> string \<Rightarrow> string \<Rightarrow> string list \<Rightarrow> string option \<Rightarrow> visibility \<Rightarrow> string hub" where
  "register_node x node_id handle name endpoints owner vis =
     (let rid = (case node_id of Some w \<Rightarrow> node_rid w | None \<Rightarrow> node_rid handle)
      in bnd (run (\<lambda>t d.
           if (case tab_get (tb_resource d) rid of None \<Rightarrow> True | Some r \<Rightarrow> owner_matches owner r)
           then let row = node_row rid node_id handle name endpoints owner vis (x_time_str x t)
                in (Inr [row], d\<lparr>tb_resource := tab_put rid row (tb_resource d)\<rparr>)
           else (Inr [], d)))
         (\<lambda>rows. case first_of rows of
              Some r \<Rightarrow> ret (res_created_at r)
            | None \<Rightarrow> raise (anyhow ''node_id is already registered by another owner'')))"

definition unregister_node ::
  "string option \<Rightarrow> string option \<Rightarrow> string option \<Rightarrow> nat hub" where
  "unregister_node node_id handle requester =
     (case (case node_id of Some w \<Rightarrow> Some (node_rid w) | None \<Rightarrow> map_option node_rid handle) of
        None \<Rightarrow> raise (anyhow ''node_id or handle required for unregister'')
      | Some rid \<Rightarrow>
          run (\<lambda>t d. case tab_get (tb_resource d) rid of
               None \<Rightarrow> (Inr 0, d)
             | Some r \<Rightarrow>
                 (if (case requester of Some _ \<Rightarrow> owner_matches requester r | None \<Rightarrow> res_owner r = None)
                  then (Inr 1, d\<lparr>tb_resource := tab_del rid (tb_resource d)\<rparr>)
                  else (Inr 0, d))))"

definition node_visible_to :: "string option \<Rightarrow> resource \<Rightarrow> bool" where
  "node_visible_to viewer r \<longleftrightarrow>
     (case viewer of
        Some u \<Rightarrow> res_type r = ''vp-node'' \<and> (res_visibility r = Public \<or> res_owner r = Some u)
      | None \<Rightarrow> res_type r = ''vp-node'' \<and> res_visibility r = Public)"

definition list_nodes_visible_to :: "string option \<Rightarrow> resource list hub" where
  "list_nodes_visible_to viewer = select (\<lambda>t d.
     by_created (tab_where (node_visible_to viewer) (tb_resource d)))"

section \<open>The table's invariant\<close>

text \<open>A resource is stored under its own id.\<close>

definition resource_inv :: "db \<Rightarrow> bool" where
  "resource_inv d \<longleftrightarrow> tab_ok (tb_resource d) \<and> rows_ok (\<lambda>k r. res_id r = k) (tb_resource d)"

lemma resource_inv_put:
  "resource_inv d \<Longrightarrow> res_id r = k \<Longrightarrow> resource_inv (d\<lparr>tb_resource := tab_put k r (tb_resource d)\<rparr>)"
  by (auto simp: resource_inv_def tab.ok_put intro!: rows_ok_put)

lemma resource_inv_del: "resource_inv d \<Longrightarrow> resource_inv (d\<lparr>tb_resource := tab_del k (tb_resource d)\<rparr>)"
  by (auto simp: resource_inv_def tab.ok_del intro!: rows_ok_del)

lemma resource_inv_get: "resource_inv d \<Longrightarrow> tab_get (tb_resource d) k = Some r \<Longrightarrow> res_id r = k"
  by (auto simp: resource_inv_def dest: rows_ok_get)

lemma node_row_simps [simp]:
  "res_id (node_row rid n h nm eps w v at) = rid"
  "res_type (node_row rid n h nm eps w v at) = ''vp-node''"
  "res_owner (node_row rid n h nm eps w v at) = w"
  "res_visibility (node_row rid n h nm eps w v at) = v"
  "res_handle (node_row rid n h nm eps w v at) = h"
  "res_created_at (node_row rid n h nm eps w v at) = at"
  "res_payload (node_row rid n h nm eps w v at) = node_payload nm n eps"
  by (simp_all add: node_row_def)

lemma upsert_resource_alone [quiet]:
  "alone w \<Longrightarrow> upsert_resource r w =
     (Inr (), w\<lparr>w_db := (w_db w)\<lparr>tb_resource := tab_put (res_id r) r (tb_resource (w_db w))\<rparr>\<rparr>)"
  by (simp add: upsert_resource_def quiet)

lemma delete_resource_alone [quiet]:
  "alone w \<Longrightarrow> delete_resource i w =
     (Inr (), w\<lparr>w_db := (w_db w)\<lparr>tb_resource := tab_del i (tb_resource (w_db w))\<rparr>\<rparr>)"
  by (simp add: delete_resource_def quiet)

lemma reads_keep [keeps]:
  "keeps I (get_resources_by_handle h opts)" "keeps I (get_resources_by_path h p opts)"
  "keeps I (get_resource_by_id i)" "keeps I (list_resources_by_type ty)"
  "keeps I (list_nodes_visible_to viewer)"
  unfolding get_resources_by_handle_def get_resources_by_path_def get_resource_by_id_def
    list_resources_by_type_def list_nodes_visible_to_def
  by (intro keeps)+

lemma resource_reads [reads]:
  "reads (get_resources_by_handle h opts)" "reads (get_resources_by_path h p opts)"
  "reads (get_resource_by_id i)" "reads (list_resources_by_type ty)"
  "reads (list_nodes_visible_to viewer)"
  unfolding get_resources_by_handle_def get_resources_by_path_def get_resource_by_id_def
    list_resources_by_type_def list_nodes_visible_to_def
  by (intro reads)+

text \<open>The four writes keep any invariant that their own change keeps.\<close>

lemma keeps_upsert [keeps]:
  "(\<And>d. I d \<Longrightarrow> I (d\<lparr>tb_resource := tab_put (res_id r) r (tb_resource d)\<rparr>)) \<Longrightarrow> keeps I (upsert_resource r)"
  unfolding upsert_resource_def by (intro keeps) simp

lemma keeps_delete [keeps]:
  "(\<And>d. I d \<Longrightarrow> I (d\<lparr>tb_resource := tab_del i (tb_resource d)\<rparr>)) \<Longrightarrow> keeps I (delete_resource i)"
  unfolding delete_resource_def by (intro keeps) simp

lemma keeps_register:
  assumes "\<And>d rid row. I d \<Longrightarrow> res_id row = rid \<Longrightarrow>
      (case tab_get (tb_resource d) rid of None \<Rightarrow> True | Some r \<Rightarrow> owner_matches owner r) \<Longrightarrow>
      I (d\<lparr>tb_resource := tab_put rid row (tb_resource d)\<rparr>)"
  shows "keeps I (register_node x node_id handle name endpoints owner vis)"
  unfolding register_node_def Let_def
  by (intro keeps) (auto intro!: assms)

lemma keeps_unregister:
  assumes "\<And>d rid r. I d \<Longrightarrow> tab_get (tb_resource d) rid = Some r \<Longrightarrow> owner_matches requester r \<Longrightarrow>
      I (d\<lparr>tb_resource := tab_del rid (tb_resource d)\<rparr>)"
  shows "keeps I (unregister_node node_id handle requester)"
  unfolding unregister_node_def
proof (intro keeps)
  fix rid t d
  assume I: "I d"
  show "I (snd (case tab_get (tb_resource d) rid of None \<Rightarrow> (Inr 0, d)
       | Some r \<Rightarrow> if (case requester of Some _ \<Rightarrow> owner_matches requester r | None \<Rightarrow> res_owner r = None)
           then (Inr 1, d\<lparr>tb_resource := tab_del rid (tb_resource d)\<rparr>) else (Inr 0, d)))"
  proof (cases "tab_get (tb_resource d) rid")
    case (Some r)
    have "owner_matches requester r"
      if "case requester of Some _ \<Rightarrow> owner_matches requester r | None \<Rightarrow> res_owner r = None"
      using that by (auto simp: owner_matches_def split: option.splits)
    then show ?thesis using I Some assms by auto
  qed (use I in simp)
qed

lemma resource_writes_keep_inv:
  "keeps resource_inv (upsert_resource r)" "keeps resource_inv (delete_resource i)"
  "keeps resource_inv (register_node x node_id handle name endpoints owner vis)"
  "keeps resource_inv (unregister_node nid h requester)"
  by (auto intro!: keeps_upsert keeps_delete keeps_register keeps_unregister resource_inv_put resource_inv_del)

section \<open>Properties\<close>

text \<open>What the REST surface may show: a federation node, under its present type name or the former one, only when it is public.\<close>

definition rest_visible :: "resource \<Rightarrow> bool" where
  "rest_visible r \<longleftrightarrow> (if res_type r \<in> {''vp-node'', ''vp-world''} then res_visibility r = Public else True)"

lemma guard_visible: "VP_NODE_REST_GUARD r \<longleftrightarrow> rest_visible r"
  by (auto simp: VP_NODE_REST_GUARD_def rest_visible_def)

text \<open>
  C17: whatever other clients do and whatever fails, no read of the REST surface ever returns
  a federation node that is not public, under its present type name or the former one.
\<close>

theorem rest_reads_hide_private_nodes:
  "returns (\<lambda>_. True) (get_resources_by_handle h opts) (list_all rest_visible) \<and>
   returns (\<lambda>_. True) (get_resources_by_path h p opts) (list_all rest_visible) \<and>
   returns (\<lambda>_. True) (get_resource_by_id i) (\<lambda>r. list_all rest_visible (case r of None \<Rightarrow> [] | Some a \<Rightarrow> [a]))"
proof (intro conjI)
  have sub: "list_all rest_visible (limit_to l (by_created (tab_where P t)))"
    if "\<And>r. P r \<Longrightarrow> VP_NODE_REST_GUARD r" for l P and t :: "(string, resource) table"
    using set_limit_to [of l "by_created (tab_where P t)"] that
    by (auto simp: list_all_iff by_created_def set_tab_where guard_visible)
  show "returns (\<lambda>_. True) (get_resources_by_handle h opts) (list_all rest_visible)"
    unfolding get_resources_by_handle_def by (rule returns_select) (rule sub, simp)
  show "returns (\<lambda>_. True) (get_resources_by_path h p opts) (list_all rest_visible)"
    unfolding get_resources_by_path_def Let_def by (rule returns_select) (rule sub, simp)
  show "returns (\<lambda>_. True) (get_resource_by_id i) (\<lambda>r. list_all rest_visible (case r of None \<Rightarrow> [] | Some a \<Rightarrow> [a]))"
    unfolding get_resource_by_id_def
    by (rule returns_select) (auto simp: guard_visible split: option.split dest!: first_where_Some)
qed

text \<open>
  A node that a user owns cannot be overwritten or removed through the registry by anyone else.
\<close>

lemma foreign_registration_keeps:
  assumes "res_owner row = Some u" and "actor \<noteq> Some u"
  shows "keeps (\<lambda>d. tab_get (tb_resource d) rid = Some row) (register_node x nid h nm eps actor v)"
  by (rule keeps_register) (use assms in \<open>auto simp: owner_matches_def tab.get_put split: if_splits\<close>)

lemma foreign_unregistration_keeps:
  assumes "res_owner row = Some u" and "actor \<noteq> Some u"
  shows "keeps (\<lambda>d. tab_get (tb_resource d) rid = Some row) (unregister_node nid' h' actor)"
  by (rule keeps_unregister) (use assms in \<open>auto simp: owner_matches_def tab.get_del\<close>)

text \<open>
  A viewer discovers exactly the public nodes and the nodes it owns, in the order of
  their creation; without an identity, exactly the public ones.
\<close>

theorem nodes_visible_exactly:
  assumes "alone w"
  shows "\<exists>rs. list_nodes_visible_to viewer w = (Inr rs, w) \<and> sorted (map res_created_at rs) \<and>
    mset rs = mset (filter (\<lambda>r. res_type r = ''vp-node'' \<and>
      (Public \<le> res_visibility r \<or> viewer \<noteq> None \<and> res_owner r = viewer)) (tab_rows (tb_resource (w_db w))))"
proof -
  have visible: "node_visible_to viewer = (\<lambda>r. res_type r = ''vp-node'' \<and>
      (Public \<le> res_visibility r \<or> viewer \<noteq> None \<and> res_owner r = viewer))"
    by (auto simp: node_visible_to_def fun_eq_iff split: option.split)
  show ?thesis
    by (simp add: list_nodes_visible_to_def quiet assms by_created_def tab_where_def tab_rows_def visible)
qed

text \<open>Concrete instances of the properties, on a world with one private node.\<close>

definition a_node :: resource where
  "a_node = node_row ''vp-node:w1'' (Some ''w1'') ''alice'' ''laptop'' [''quic://a''] (Some ''usr_a'') Private ''t0''"

definition node_db :: db where
  "node_db = empty_db\<lparr>tb_resource := [(''vp-node:w1'', a_node)]\<rparr>"

theorem nodes_visible_witness:
  "\<exists>rs. list_nodes_visible_to (Some ''usr_a'') (a_world node_db) = (Inr rs, a_world node_db) \<and>
     mset rs = {#a_node#}"
proof -
  have "filter (\<lambda>r. res_type r = ''vp-node'' \<and>
      (Public \<le> res_visibility r \<or> Some ''usr_a'' \<noteq> None \<and> res_owner r = Some ''usr_a''))
      (tab_rows (tb_resource (w_db (a_world node_db)))) = [a_node]"
    by (simp add: node_db_def tab_rows_def a_node_def)
  then show ?thesis
    using nodes_visible_exactly [of "a_world node_db" "Some ''usr_a''"] by auto
qed

end
