(* ===== verification/Event_Log.thy ===== *)
theory Event_Log
  imports Hub_World "HOL-Library.Multiset"
begin

text \<open>
  The log of ingested events: the table \<open>hub_event\<close> and its operations
  (\<open>crates/chronista-hub-server/src/event_log.rs\<close>). The interface \<open>work_queue\<close> states what the
  consumer relies on when it works the log off in order; it is interpreted on the table.
\<close>

section \<open>Operations\<close>

record append_result =
  ap_accepted :: bool
  ap_reason :: "string option"

record stored_event =
  se_envelope :: event_envelope
  se_received_at :: int
  se_processed_at :: "int option"

definition stored_of :: "event_row \<Rightarrow> stored_event" where
  "stored_of r = \<lparr>se_envelope = er_event r, se_received_at = er_received_at r,
     se_processed_at = er_processed_at r\<rparr>"

definition row_idempotency :: "event_row \<Rightarrow> string option" where
  "row_idempotency r = Some (ev_idempotency (er_event r))"

definition new_event_row :: "event_envelope \<Rightarrow> int \<Rightarrow> event_row" where
  "new_event_row event at = \<lparr>er_event = event, er_received_at = at, er_processed_at = None,
     er_failed_at = None, er_retry_count = 0, er_last_error = None\<rparr>"

definition has_idempotency :: "string \<Rightarrow> bool hub" where
  "has_idempotency key = select (\<lambda>t d.
     tab_where (\<lambda>r. ev_idempotency (er_event r) = key) (tb_event d) \<noteq> [])"

definition has_event_id :: "string \<Rightarrow> bool hub" where
  "has_event_id i = select (\<lambda>t d. tab_where (\<lambda>r. ev_event_id (er_event r) = i) (tb_event d) \<noteq> [])"

text \<open>\<open>CREATE type::record('hub_event', id) CONTENT ..\<close> under the unique index on \<open>idempotency\<close>.\<close>

definition create_event :: "event_row \<Rightarrow> db \<Rightarrow> (error + unit) \<times> db" where
  "create_event row d =
     (let i = ev_event_id (er_event row)
      in if tab_get (tb_event d) i \<noteq> None then (Inl record_exists_error, d)
         else if \<not> index_free row_idempotency i (row_idempotency row) (tb_event d)
         then (Inl (unique_index_error ''idempotency_idx''), d)
         else (Inr (), d\<lparr>tb_event := tab_put i row (tb_event d)\<rparr>))"

definition append_event :: "event_envelope \<Rightarrow> append_result hub" where
  "append_event event =
     bnd (has_idempotency (ev_idempotency event)) (\<lambda>dup.
     if dup then ret \<lparr>ap_accepted = False, ap_reason = Some ''duplicate idempotency key''\<rparr>
     else bnd (has_event_id (ev_event_id event)) (\<lambda>existing.
     if existing then ret \<lparr>ap_accepted = False, ap_reason = Some ''duplicate event_id''\<rparr>
     else bnd clock_ms (\<lambda>now.
     bnd (run (\<lambda>t d. create_event (new_event_row event now) d)) (\<lambda>_.
     ret \<lparr>ap_accepted = True, ap_reason = None\<rparr>))))"

definition is_pending :: "event_row \<Rightarrow> bool" where
  "is_pending r \<longleftrightarrow> er_processed_at r = None \<and> er_failed_at r = None"

definition pending_rows :: "(string, event_row) table \<Rightarrow> event_row list" where
  "pending_rows t = sort_key er_received_at (tab_where is_pending t)"

definition unprocessed :: "nat option \<Rightarrow> stored_event list hub" where
  "unprocessed limit = select (\<lambda>t d. map stored_of (limit_to limit (pending_rows (tb_event d))))"

definition count_failure :: "string \<Rightarrow> event_row \<Rightarrow> event_row" where
  "count_failure err r = r\<lparr>er_retry_count := er_retry_count r + 1, er_last_error := Some err\<rparr>"

definition dead_letter :: "int \<Rightarrow> nat \<Rightarrow> event_row \<Rightarrow> event_row" where
  "dead_letter max_retries t r =
     (if max_retries \<le> er_retry_count r \<and> er_failed_at r = None then r\<lparr>er_failed_at := Some t\<rparr> else r)"

definition record_failure :: "string \<Rightarrow> string \<Rightarrow> int \<Rightarrow> unit hub" where
  "record_failure event_id err max_retries = run (\<lambda>t d.
     (Inr (), d\<lparr>tb_event := tab_update event_id (dead_letter max_retries t)
                            (tab_update event_id (count_failure err) (tb_event d))\<rparr>))"

definition processed_row :: "int \<Rightarrow> event_row \<Rightarrow> event_row" where
  "processed_row now r = r\<lparr>er_processed_at := Some now\<rparr>"

definition mark_processed :: "string \<Rightarrow> unit hub" where
  "mark_processed event_id =
     bnd clock_ms (\<lambda>now. run (\<lambda>t d.
       (Inr (), d\<lparr>tb_event := tab_update event_id (processed_row now) (tb_event d)\<rparr>)))"

section \<open>The invariant of the log\<close>

text \<open>
  An event is stored under its own id, no two events share an idempotency key, and only an
  event that has failed as often as the consumer allows is a dead letter.
\<close>

definition MAX_RETRIES :: int where
  "MAX_RETRIES = 5"

definition event_row_ok :: "string \<Rightarrow> event_row \<Rightarrow> bool" where
  "event_row_ok k r \<longleftrightarrow> ev_event_id (er_event r) = k \<and> 0 \<le> er_retry_count r \<and>
     (er_failed_at r = None \<or> MAX_RETRIES \<le> er_retry_count r)"

definition event_inv :: "db \<Rightarrow> bool" where
  "event_inv d \<longleftrightarrow> tab_ok (tb_event d) \<and> indexed row_idempotency (tb_event d) \<and>
     rows_ok event_row_ok (tb_event d)"

lemma event_inv_empty: "event_inv empty_db"
  by (simp add: event_inv_def empty_db_def)

lemma event_inv_create: "event_inv d \<Longrightarrow> event_row_ok (ev_event_id (er_event row)) row \<Longrightarrow> event_inv (snd (create_event row d))"
  by (auto simp: event_inv_def create_event_def Let_def tab.ok_put intro!: indexed_put rows_ok_put)

lemma event_inv_update:
  assumes "event_inv d" and "\<And>r. er_event (f r) = er_event r"
    and "\<And>r. event_row_ok k r \<Longrightarrow> event_row_ok k (f r)"
  shows "event_inv (d\<lparr>tb_event := tab_update k f (tb_event d)\<rparr>)"
  using assms
  by (auto simp: event_inv_def tab_ok_update row_idempotency_def [abs_def] intro!: indexed_update rows_ok_update)

lemma row_updates [simp]:
  "er_event (count_failure e r) = er_event r" "er_event (dead_letter m t r) = er_event r"
  "er_event (processed_row n r) = er_event r" "er_event (new_event_row ev n) = ev"
  "er_processed_at (new_event_row ev n) = None" "er_failed_at (new_event_row ev n) = None"
  "er_received_at (new_event_row ev n) = n"
  by (simp_all add: count_failure_def dead_letter_def processed_row_def new_event_row_def)

lemma row_updates_ok [simp]:
  "event_row_ok k r \<Longrightarrow> event_row_ok k (processed_row n r)"
  "event_row_ok k r \<Longrightarrow> event_row_ok k (count_failure e r)"
  "event_row_ok k r \<Longrightarrow> event_row_ok k (dead_letter MAX_RETRIES t r)"
  "ev_event_id ev = k \<Longrightarrow> event_row_ok k (new_event_row ev n)"
  by (auto simp: event_row_ok_def count_failure_def dead_letter_def processed_row_def new_event_row_def)

text \<open>The operations keep every invariant that their own change keeps.\<close>

lemma log_reads_keep [keeps]:
  "keeps I (has_idempotency key)" "keeps I (has_event_id i)" "keeps I (unprocessed l)"
  unfolding has_idempotency_def has_event_id_def unprocessed_def by (intro keeps)+

lemma keeps_append:
  "(\<And>d now. I d \<Longrightarrow> I (snd (create_event (new_event_row ev now) d))) \<Longrightarrow> keeps I (append_event ev)"
  unfolding append_event_def by (intro keeps)

lemma keeps_mark:
  "(\<And>d now. I d \<Longrightarrow> I (d\<lparr>tb_event := tab_update i (processed_row now) (tb_event d)\<rparr>)) \<Longrightarrow>
   keeps I (mark_processed i)"
  unfolding mark_processed_def by (intro keeps) simp

lemma keeps_record_failure:
  "(\<And>d t. I d \<Longrightarrow> I (d\<lparr>tb_event := tab_update i (dead_letter m t) (tab_update i (count_failure e) (tb_event d))\<rparr>)) \<Longrightarrow>
   keeps I (record_failure i e m)"
  unfolding record_failure_def by (intro keeps) simp

lemma event_inv_failure:
  assumes "event_inv d"
  shows "event_inv (d\<lparr>tb_event := tab_update i (dead_letter MAX_RETRIES t)
    (tab_update i (count_failure e) (tb_event d))\<rparr>)"
proof -
  have "event_inv (d\<lparr>tb_event := tab_update i (count_failure e) (tb_event d)\<rparr>)"
    by (rule event_inv_update [OF assms]) simp_all
  then have "event_inv (d\<lparr>tb_event := tab_update i (count_failure e) (tb_event d)\<rparr>
    \<lparr>tb_event := tab_update i (dead_letter MAX_RETRIES t)
      (tb_event (d\<lparr>tb_event := tab_update i (count_failure e) (tb_event d)\<rparr>))\<rparr>)"
    by (rule event_inv_update) simp_all
  then show ?thesis by simp
qed

lemma log_keeps_event_inv:
  "keeps event_inv (append_event ev)" "keeps event_inv (mark_processed i)"
  "keeps event_inv (record_failure i e MAX_RETRIES)"
  by (auto intro!: keeps_append keeps_mark keeps_record_failure event_inv_create event_inv_update
      event_inv_failure)

section \<open>A queue that is worked off in order\<close>

text \<open>
  What the consumer relies on: finishing an event takes exactly that event out of the pending
  ones and leaves the order of the others.
\<close>

locale work_queue =
  fixes pending :: "'q \<Rightarrow> 'e list"
    and ident :: "'e \<Rightarrow> 'i"
    and finish :: "'i \<Rightarrow> 'q \<Rightarrow> 'q"
    and ok :: "'q \<Rightarrow> bool"
  assumes pending_finish: "ok q \<Longrightarrow> pending (finish i q) = filter (\<lambda>e. ident e \<noteq> i) (pending q)"
    and ok_finish: "ok q \<Longrightarrow> ok (finish i q)"
    and distinct_pending: "ok q \<Longrightarrow> distinct (map ident (pending q))"
begin

lemma ok_finish_all: "ok q \<Longrightarrow> ok (fold finish is q)"
  by (induction "is" arbitrary: q) (simp_all add: ok_finish)

lemma pending_finish_all:
  "ok q \<Longrightarrow> pending (fold finish is q) = filter (\<lambda>e. ident e \<notin> set is) (pending q)"
  by (induction "is" arbitrary: q) (auto simp: ok_finish pending_finish intro: filter_cong)

text \<open>Finishing a batch from the front of the queue leaves the rest of the queue.\<close>

lemma finish_batch:
  assumes "ok q"
  shows "pending (fold finish (map ident (take n (pending q))) q) = drop n (pending q)"
proof -
  let ?xs = "pending q"
  have "distinct (map ident (take n ?xs) @ map ident (drop n ?xs))"
    using distinct_pending [OF assms] by (simp flip: map_append)
  then have "ident e \<in> set (map ident (take n ?xs)) \<Longrightarrow> e \<notin> set (drop n ?xs)" for e
    by auto
  then have "filter (\<lambda>e. ident e \<notin> set (map ident (take n ?xs))) (take n ?xs @ drop n ?xs) = drop n ?xs"
    unfolding filter_append by (auto simp: filter_empty_conv filter_id_conv)
  then show ?thesis by (simp add: pending_finish_all [OF assms])
qed

end

definition row_event_id :: "event_row \<Rightarrow> string" where
  "row_event_id r = ev_event_id (er_event r)"

definition event_table_ok :: "(string, event_row) table \<Rightarrow> bool" where
  "event_table_ok t \<longleftrightarrow> tab_ok t \<and> rows_ok (\<lambda>k r. row_event_id r = k) t"

lemma event_inv_table: "event_inv d \<Longrightarrow> event_table_ok (tb_event d)"
  by (auto simp: event_inv_def event_table_ok_def rows_ok_def event_row_ok_def row_event_id_def)

lemma row_event_id_updates [simp]:
  "row_event_id (processed_row n r) = row_event_id r" "row_event_id (new_event_row ev n) = ev_event_id ev"
  "row_event_id (count_failure e r) = row_event_id r" "row_event_id (dead_letter m t r) = row_event_id r"
  by (simp_all add: row_event_id_def)

lemma distinct_where:
  assumes "tab_ok t" and "rows_ok (\<lambda>k r. key r = k) t"
  shows "distinct (map key (tab_where P t))"
proof -
  have "map key (map snd t) = map fst t"
    using assms(2) by (auto simp: rows_ok_def)
  then show ?thesis
    using assms(1) unfolding tab_where_def tab_ok_def by (metis distinct_map_filter)
qed

interpretation event_queue: work_queue pending_rows row_event_id
  "\<lambda>i. tab_update i (processed_row now)" event_table_ok for now
proof unfold_locales
  fix t :: "(string, event_row) table" and i
  assume ok: "event_table_ok t"
  show "pending_rows (tab_update i (processed_row now) t) = filter (\<lambda>r. row_event_id r \<noteq> i) (pending_rows t)"
    using ok by (simp add: pending_rows_def event_table_ok_def is_pending_def processed_row_def filter_sort
        tab_where_update [where key = row_event_id and f = "processed_row now"] row_event_id_def)
  show "event_table_ok (tab_update i (processed_row now) t)"
    using ok by (auto simp: event_table_ok_def tab_ok_update intro!: rows_ok_update)
  show "distinct (map row_event_id (pending_rows t))"
    using ok distinct_where [of t row_event_id is_pending]
    by (auto simp: event_table_ok_def pending_rows_def distinct_map)
qed

section \<open>Properties\<close>

text \<open>
  An event is appended exactly when the log has neither its idempotency key nor its id,
  the key being looked at first; then its row, unprocessed and with the present time, comes
  last in the table, and otherwise the log is as it was.
\<close>

theorem append_event_alone:
  assumes "alone w" and "event_inv (w_db w)"
  shows "append_event ev w =
    (if list_ex (\<lambda>r. ev_idempotency (er_event r) = ev_idempotency ev) (tab_rows (tb_event (w_db w)))
     then (Inr \<lparr>ap_accepted = False, ap_reason = Some ''duplicate idempotency key''\<rparr>, w)
     else if list_ex (\<lambda>r. ev_event_id (er_event r) = ev_event_id ev) (tab_rows (tb_event (w_db w)))
     then (Inr \<lparr>ap_accepted = False, ap_reason = Some ''duplicate event_id''\<rparr>, w)
     else (Inr \<lparr>ap_accepted = True, ap_reason = None\<rparr>,
       w\<lparr>w_db := (w_db w)\<lparr>tb_event := tb_event (w_db w) @
         [(ev_event_id ev, new_event_row ev (now_ms (w_now w)))]\<rparr>\<rparr>))"
proof -
  let ?t = "tb_event (w_db w)" and ?i = "ev_event_id ev"
  have "tab_get ?t ?i = None \<and> index_free row_idempotency ?i (row_idempotency row) ?t"
    if "\<not> list_ex (\<lambda>r. ev_idempotency (er_event r) = ev_idempotency ev) (tab_rows ?t)"
      "\<not> list_ex (\<lambda>r. ev_event_id (er_event r) = ev_event_id ev) (tab_rows ?t)" "er_event row = ev" for row
    using that event_inv_table [OF assms(2)]
    by (cases "tab_get ?t ?i")
      (fastforce simp: event_table_ok_def tab_rows_def list_ex_iff index_free_def list_all_iff
        row_idempotency_def row_event_id_def dest: tab_get_in rows_ok_get)+
  from this [of "new_event_row ev (now_ms (w_now w))"] show ?thesis
    using assms(1)
    by (auto simp: append_event_def has_idempotency_def has_event_id_def quiet tab_where_Nil
        create_event_def Let_def tab_put_fresh)
qed

text \<open>
  whatever other clients do and whatever fails, an event that \<open>append\<close> reports as accepted
  is in the log at that moment, as it was given and unprocessed.
\<close>

theorem accepted_event_is_logged:
  assumes "append_event ev w = (Inr a, w')" and "ap_accepted a"
  shows "\<exists>row. tab_get (tb_event (w_db w')) (ev_event_id ev) = Some row \<and> er_event row = ev \<and> is_pending row"
proof -
  obtain now v where run: "run (\<lambda>t d. create_event (new_event_row ev now) d) v = (Inr (), w')"
    using assms by (auto simp: append_event_def bnd_eq_Inr split: if_splits)
  show ?thesis
    by (rule run_eq_Inr [OF run])
      (auto simp: create_event_def Let_def is_pending_def split: if_splits)
qed

text \<open>
  An event in the log never changes: no append, no completion and no failure, under
  interference and faults, changes the envelope stored under an id.
\<close>

theorem logged_event_never_changes:
  "keeps (\<lambda>d. map_option er_event (tab_get (tb_event d) i) = Some ev) (append_event ev') \<and>
   keeps (\<lambda>d. map_option er_event (tab_get (tb_event d) i) = Some ev) (mark_processed j) \<and>
   keeps (\<lambda>d. map_option er_event (tab_get (tb_event d) i) = Some ev) (record_failure j err n)"
  by (intro conjI keeps_append keeps_mark keeps_record_failure)
    (auto simp: create_event_def Let_def tab.get_put tab_get_update split: if_splits)

text \<open>Repeated failures of one event.\<close>

definition fail_times :: "string \<Rightarrow> string list \<Rightarrow> unit hub" where
  "fail_times i errs = fold (\<lambda>e m. bnd m (\<lambda>_. record_failure i e MAX_RETRIES)) errs (ret ())"

definition fail_row :: "nat \<Rightarrow> string \<Rightarrow> event_row \<Rightarrow> event_row" where
  "fail_row t e r = dead_letter MAX_RETRIES t (count_failure e r)"

lemma fail_times_alone:
  assumes "alone w" and "tab_get (tb_event (w_db w)) i = Some row"
  shows "\<exists>w'. fail_times i errs w = (Inr (), w') \<and> alone w' \<and> w_now w' = w_now w \<and>
    tab_get (tb_event (w_db w')) i = Some (fold (fail_row (w_now w)) errs row)"
proof (induction errs rule: rev_induct)
  case (snoc e errs)
  then obtain v where v: "fail_times i errs w = (Inr (), v)" "alone v" "w_now v = w_now w"
    "tab_get (tb_event (w_db v)) i = Some (fold (fail_row (w_now w)) errs row)" by blast
  have "fail_times i (errs @ [e]) w = record_failure i e MAX_RETRIES v"
    using v(1) by (simp add: fail_times_def)
  then show ?case
    using v by (simp add: record_failure_def quiet tab_get_update fail_row_def [of _ e])
qed (use assms in \<open>simp add: fail_times_def\<close>)

lemma fail_row_fold:
  assumes "is_pending row" and "er_retry_count row < MAX_RETRIES"
  shows "er_event (fold (fail_row t) errs row) = er_event row \<and>
    er_retry_count (fold (fail_row t) errs row) = er_retry_count row + int (length errs) \<and>
    (errs \<noteq> [] \<longrightarrow> er_last_error (fold (fail_row t) errs row) = Some (last errs)) \<and>
    (is_pending (fold (fail_row t) errs row) \<longleftrightarrow> er_retry_count row + int (length errs) < MAX_RETRIES)"
proof (induction errs rule: rev_induct)
  case (snoc e errs)
  then show ?case
    by (auto simp: fail_row_def dead_letter_def count_failure_def is_pending_def)
qed (use assms in simp)

text \<open>
  C20: an event whose application keeps failing is offered to the consumer again up to the limit
  and no further: after \<open>n\<close> recorded failures it is pending exactly while its count is below
  the limit, and its last error is the last one recorded.
\<close>

theorem failures_dead_letter:
  assumes "alone w" and "tab_get (tb_event (w_db w)) i = Some row" and "is_pending row"
    and "0 \<le> er_retry_count row" and "er_retry_count row < MAX_RETRIES" and "errs \<noteq> []"
  shows "\<exists>w' row'. fail_times i errs w = (Inr (), w') \<and> tab_get (tb_event (w_db w')) i = Some row' \<and>
     er_event row' = er_event row \<and> er_retry_count row' = er_retry_count row + int (length errs) \<and>
     er_last_error row' = Some (last errs) \<and>
     (is_pending row' \<longleftrightarrow> er_retry_count row + int (length errs) < MAX_RETRIES)"
proof -
  obtain w' where w': "fail_times i errs w = (Inr (), w')"
    and row': "tab_get (tb_event (w_db w')) i = Some (fold (fail_row (w_now w)) errs row)"
    using fail_times_alone [OF assms(1,2)] by blast
  show ?thesis
    using fail_row_fold [OF assms(3,5), of "w_now w" errs] assms(6) w' row' by auto
qed


section \<open>Concrete instances\<close>

definition an_event :: event_envelope where
  "an_event = \<lparr>ev_event_id = ''e1'', ev_app_id = ''app'', ev_kind = ResourceCreated,
     ev_resource = \<lparr>res_id = ''r1'', res_type = ''note'', res_path = ''/'', res_handle = ''ann'', res_owner = None,
       res_visibility = Public, res_payload = JObj [], res_created_at = ''t0'', res_updated_at = ''t0''\<rparr>,
     ev_idempotency = ''k1'', ev_emitted_at = ''t0''\<rparr>"

lemma an_event_simps:
  "ev_event_id an_event = ''e1''" "ev_idempotency an_event = ''k1''"
  by (simp_all add: an_event_def)

definition one_event_db :: db where
  "one_event_db = empty_db\<lparr>tb_event := [(''e1'', new_event_row an_event 0)]\<rparr>"

lemma one_event_inv: "event_inv one_event_db"
  by (auto simp: event_inv_def one_event_db_def tab_ok_def indexed_def rows_ok_def an_event_def)

lemma append_accepts: "append_event an_event (a_world empty_db) =
    (Inr \<lparr>ap_accepted = True, ap_reason = None\<rparr>, a_world one_event_db)"
  by (simp add: append_event_def has_idempotency_def has_event_id_def quiet create_event_def
      empty_db_def tab_where_def index_free_def tab_put_fresh one_event_db_def now_ms_def
      an_event_simps)

theorem append_event_witness:
  "append_event an_event (a_world empty_db) =
     (Inr \<lparr>ap_accepted = True, ap_reason = None\<rparr>, a_world one_event_db) \<and>
   append_event an_event (a_world one_event_db) =
     (Inr \<lparr>ap_accepted = False, ap_reason = Some ''duplicate idempotency key''\<rparr>, a_world one_event_db)"
  using append_event_alone [of "a_world empty_db" an_event] append_event_alone [of "a_world one_event_db" an_event]
  by (simp add: event_inv_empty one_event_inv)
    (simp add: one_event_db_def empty_db_def tab_rows_def an_event_simps now_ms_def)

theorem accepted_event_witness:
  "\<exists>row. tab_get (tb_event (w_db (a_world one_event_db))) ''e1'' = Some row \<and> er_event row = an_event \<and> is_pending row"
  using accepted_event_is_logged [OF append_accepts] by (simp add: an_event_def)

theorem failures_dead_letter_witness:
  "\<exists>w' row'. fail_times ''e1'' [''x'', ''x'', ''x'', ''x'', ''y''] (a_world one_event_db) = (Inr (), w') \<and>
     tab_get (tb_event (w_db w')) ''e1'' = Some row' \<and> er_last_error row' = Some ''y'' \<and> \<not> is_pending row'"
  using failures_dead_letter [of "a_world one_event_db" "''e1''" "new_event_row an_event 0" "[''x'', ''x'', ''x'', ''x'', ''y'']"]
  by (auto simp: one_event_db_def is_pending_def new_event_row_def MAX_RETRIES_def tab_get_def)

end
