(* ===== verification/Consumer.thy ===== *)
theory Consumer
  imports Resource_Store Event_Log
begin

text \<open>
  The event consumer (\<open>crates/chronista-hub-server/src/consumer.rs\<close>): it polls the unprocessed
  events, applies them to the resource tree one after the other, marks them and counts what
  failed. The tree is the projection of the log, and the lemmas say how far that is true: alone,
  after a crash, and after a failure.
\<close>

section \<open>Operations\<close>

definition apply_event :: "stored_event \<Rightarrow> unit hub" where
  "apply_event event =
     (case ev_kind (se_envelope event) of
        ResourceCreated \<Rightarrow> upsert_resource (ev_resource (se_envelope event))
      | ResourceUpdated \<Rightarrow> upsert_resource (ev_resource (se_envelope event))
      | ResourceDeleted \<Rightarrow> delete_resource (res_id (ev_resource (se_envelope event))))"

text \<open>The loop of \<open>tick\<close> over the polled events, with its two counters.\<close>

fun work_off :: "stored_event list \<Rightarrow> nat \<Rightarrow> nat \<Rightarrow> (nat \<times> nat) hub" where
  "work_off [] p e = ret (p, e)"
| "work_off (ev # evs) p e =
     (let event_id = ev_event_id (se_envelope ev)
      in bnd (attempt (apply_event ev)) (\<lambda>applied.
         case applied of
           Inr _ \<Rightarrow> bnd (attempt (mark_processed event_id)) (\<lambda>marked.
             case marked of
               Inr _ \<Rightarrow> work_off evs (p + 1) e
             | Inl _ \<Rightarrow> work_off evs p (e + 1))
         | Inl err \<Rightarrow> bnd (attempt (record_failure event_id (error_text err) MAX_RETRIES)) (\<lambda>_.
             work_off evs p (e + 1))))"

definition tick :: "nat \<Rightarrow> (nat \<times> nat) hub" where
  "tick batch =
     bnd (attempt (unprocessed (Some batch))) (\<lambda>polled.
     case polled of
       Inl err \<Rightarrow> (if is_unavailable err then bnd kick (\<lambda>_. ret (0, 1)) else ret (0, 1))
     | Inr pending \<Rightarrow> work_off pending 0 0)"

text \<open>
  The spawned loop: what \<open>tokio::select!\<close> may see, in the order it happens. \<open>Changed b\<close> is a
  change of the stop channel to \<open>b\<close>.
\<close>

datatype consumer_signal = Ticked | Changed bool

fun consumer_loop :: "consumer_signal list \<Rightarrow> unit hub" where
  "consumer_loop [] = ret ()"
| "consumer_loop (Ticked # ss) = bnd (tick 100) (\<lambda>_. consumer_loop ss)"
| "consumer_loop (Changed b # ss) = (if b then ret () else consumer_loop ss)"

text \<open>\<open>ConsumerHandle::stop\<close>: the loop is told to stop and waited for.\<close>

definition stop_consumer :: "consumer_signal list \<Rightarrow> unit hub" where
  "stop_consumer ss = consumer_loop (ss @ [Changed True])"

text \<open>Stopping ends the loop after the rounds it has begun, whatever would have come later.\<close>

lemma consumer_loop_stops: "consumer_loop (ss @ Changed True # later) = consumer_loop ss"
  by (induction ss rule: consumer_loop.induct) (simp_all del: ret_apply)

lemma stopped_consumer: "stop_consumer ss = consumer_loop ss" "consumer_loop (ss @ Changed True # later) = stop_consumer ss"
  by (simp_all add: stop_consumer_def consumer_loop_stops)

section \<open>The projection\<close>

definition change_of :: "event_envelope \<Rightarrow> (string, resource) change" where
  "change_of ev =
     (if ev_kind ev = ResourceDeleted then Del (res_id (ev_resource ev))
      else Put (res_id (ev_resource ev)) (ev_resource ev))"

definition project :: "event_envelope list \<Rightarrow> (string, resource) table \<Rightarrow> (string, resource) table" where
  "project evs t = fold (apply_change tab_put tab_del) (map change_of evs) t"

lemma project_simps [simp]:
  "project [] t = t" "project (ev # evs) t = project evs (apply_change tab_put tab_del (change_of ev) t)"
  "project (evs @ evs') t = project evs' (project evs t)"
  by (simp_all add: project_def)

lemma apply_event_alone [quiet]:
  "alone w \<Longrightarrow> apply_event ev w =
     (Inr (), w\<lparr>w_db := (w_db w)\<lparr>tb_resource :=
        apply_change tab_put tab_del (change_of (se_envelope ev)) (tb_resource (w_db w))\<rparr>\<rparr>)"
  by (cases "ev_kind (se_envelope ev)") (simp_all add: apply_event_def quiet change_of_def)

lemma mark_processed_alone [quiet]:
  "alone w \<Longrightarrow> mark_processed i w =
     (Inr (), w\<lparr>w_db := (w_db w)\<lparr>tb_event :=
        tab_update i (processed_row (now_ms (w_now w))) (tb_event (w_db w))\<rparr>\<rparr>)"
  by (simp add: mark_processed_def quiet)

definition finish_all :: "int \<Rightarrow> event_envelope list \<Rightarrow> (string, event_row) table \<Rightarrow> (string, event_row) table" where
  "finish_all now evs t = fold (\<lambda>i. tab_update i (processed_row now)) (map ev_event_id evs) t"

definition after_work :: "event_envelope list \<Rightarrow> world \<Rightarrow> world" where
  "after_work evs w = w\<lparr>w_db := (w_db w)\<lparr>tb_resource := project evs (tb_resource (w_db w)),
     tb_event := finish_all (now_ms (w_now w)) evs (tb_event (w_db w))\<rparr>\<rparr>"

lemma work_off_alone:
  "alone w \<Longrightarrow> work_off evs p e w = (Inr (p + length evs, e), after_work (map se_envelope evs) w)"
proof (induction evs arbitrary: p w)
  case Nil
  then show ?case by (simp add: after_work_def finish_all_def)
next
  case (Cons ev evs)
  then show ?case
    by (simp add: Let_def quiet after_work_def finish_all_def)
qed

lemma unprocessed_alone [quiet]:
  "alone w \<Longrightarrow> unprocessed l w = (Inr (map stored_of (limit_to l (pending_rows (tb_event (w_db w))))), w)"
  by (simp add: unprocessed_def quiet)

definition backlog :: "world \<Rightarrow> event_envelope list" where
  "backlog w = map er_event (pending_rows (tb_event (w_db w)))"

lemma tick_alone_eq:
  "alone w \<Longrightarrow> tick batch w = (Inr (length (take batch (backlog w)), 0), after_work (take batch (backlog w)) w)"
  by (simp add: tick_def quiet work_off_alone backlog_def limit_to_def take_map stored_of_def comp_def)

lemma after_work_simps [simp]:
  "alone (after_work evs w) = alone w" "w_now (after_work evs w) = w_now w"
  "tb_resource (w_db (after_work evs w)) = project evs (tb_resource (w_db w))"
  "tb_event (w_db (after_work evs w)) = finish_all (now_ms (w_now w)) evs (tb_event (w_db w))"
  by (simp_all add: after_work_def)

lemma backlog_after_batch:
  assumes "event_table_ok (tb_event (w_db w))"
  shows "backlog (after_work (take n (backlog w)) w) = drop n (backlog w)"
proof -
  have "map ev_event_id (take n (backlog w)) = map row_event_id (take n (pending_rows (tb_event (w_db w))))"
    by (simp add: backlog_def take_map row_event_id_def comp_def)
  then show ?thesis
    using event_queue.finish_batch [OF assms, of "now_ms (w_now w)" n]
    by (simp add: backlog_def finish_all_def drop_map)
qed

lemma event_table_ok_after [simp]:
  "event_table_ok (tb_event (w_db w)) \<Longrightarrow> event_table_ok (tb_event (w_db (after_work evs w)))"
  by (simp add: finish_all_def event_queue.ok_finish_all)

lemma after_work_append: "after_work ys (after_work xs w) = after_work (xs @ ys) w"
  by (simp add: after_work_def finish_all_def)

section \<open>Properties\<close>

lemma keeps_apply_event:
  "(\<And>d. I d \<Longrightarrow> I (d\<lparr>tb_resource := apply_change tab_put tab_del (change_of (se_envelope ev)) (tb_resource d)\<rparr>)) \<Longrightarrow>
   keeps I (apply_event ev)"
  unfolding apply_event_def change_of_def
  by (cases "ev_kind (se_envelope ev)") (auto intro!: keeps_upsert keeps_delete)

lemma keeps_work_off:
  assumes "\<And>ev. keeps I (apply_event ev)" "\<And>i. keeps I (mark_processed i)"
    "\<And>i e. keeps I (record_failure i e MAX_RETRIES)"
  shows "keeps I (work_off evs p e)"
proof (induction evs arbitrary: p e)
  case (Cons ev evs)
  then show ?case unfolding work_off.simps by (intro keeps assms)
qed (simp add: keeps_ret)

lemma keeps_tick:
  assumes "\<And>ev. keeps I (apply_event ev)" "\<And>i. keeps I (mark_processed i)"
    "\<And>i e. keeps I (record_failure i e MAX_RETRIES)"
  shows "keeps I (tick b)"
  unfolding tick_def by (intro keeps keeps_work_off assms)

lemma keeps_consumer_loop: "(\<And>b. keeps I (tick b)) \<Longrightarrow> keeps I (consumer_loop ss)"
  by (induction ss rule: consumer_loop.induct) (auto intro!: keeps)

text \<open>
  the running consumer, under any interference and any faults, keeps the log's and the
  tree's invariants: unique ids and idempotency keys, dead letters only after the retry limit,
  every resource stored under its own id.
\<close>

theorem consumer_keeps_invariants:
  "keeps event_inv (consumer_loop ss) \<and> keeps resource_inv (consumer_loop ss)"
proof
  have "event_inv (d\<lparr>tb_resource := t\<rparr>) = event_inv d" for d t
    by (simp add: event_inv_def)
  then show "keeps event_inv (consumer_loop ss)"
    by (intro keeps_consumer_loop keeps_tick keeps_apply_event log_keeps_event_inv) simp
  have r: "resource_inv (d\<lparr>tb_event := t\<rparr>) = resource_inv d" for d t
    by (simp add: resource_inv_def)
  have "resource_inv d \<Longrightarrow>
      resource_inv (d\<lparr>tb_resource := apply_change tab_put tab_del (change_of ev) (tb_resource d)\<rparr>)" for d ev
    by (auto simp: change_of_def intro!: resource_inv_put resource_inv_del)
  then show "keeps resource_inv (consumer_loop ss)"
    by (intro keeps_consumer_loop keeps_tick keeps_apply_event keeps_mark keeps_record_failure)
      (simp_all add: r)
qed

lemma work_off_counts:
  "\<exists>p' e' w'. work_off evs p e w = (Inr (p', e'), w') \<and> p' + e' = p + e + length evs"
proof (induction evs arbitrary: p e w)
  case (Cons ev evs)
  show ?case
    using Cons [of "p + 1" e] Cons [of p "e + 1"]
    by (auto simp: Let_def quiet split: sum.split)
qed simp

text \<open>
  one round of the consumer always ends and reports, whatever fails: the two counters
  account for every polled event, at most a batch of them, or for the one failed poll.
\<close>

theorem tick_accounts_for_every_event:
  "\<exists>p e w'. tick batch w = (Inr (p, e), w') \<and> p + e \<le> max batch 1 \<and>
     (case unprocessed (Some batch) w of
        (Inr evs, _) \<Rightarrow> p + e = length evs | (Inl _, _) \<Rightarrow> p = 0 \<and> e = 1)"
proof (cases "unprocessed (Some batch) w")
  case (Pair r v)
  show ?thesis
  proof (cases r)
    case (Inl err)
    with Pair show ?thesis by (auto simp: tick_def quiet bnd_steps)
  next
    case (Inr evs)
    have "returns (\<lambda>_. True) (unprocessed (Some batch)) (\<lambda>l. length l \<le> batch)"
      unfolding unprocessed_def by (rule returns_select) (simp add: limit_to_def)
    then have "length evs \<le> batch"
      by (rule returnsD [where w = w and w' = v and a = evs]) (use Pair Inr in simp_all)
    moreover obtain p e w' where "work_off evs 0 0 v = (Inr (p, e), w')" "p + e = length evs"
      using work_off_counts [of evs 0 0 v] by auto
    ultimately show ?thesis
      using Pair Inr by (simp add: tick_def quiet)
  qed
qed

lemma consumer_backlog:
  assumes "alone w" and "event_inv (w_db w)"
  shows "consumer_loop (replicate n Ticked) w = (Inr (), after_work (take (100 * n) (backlog w)) w) \<and>
     backlog (after_work (take (100 * n) (backlog w)) w) = drop (100 * n) (backlog w)"
proof
  show "consumer_loop (replicate n Ticked) w = (Inr (), after_work (take (100 * n) (backlog w)) w)"
    using assms(1) event_inv_table [OF assms(2)]
  proof (induction n arbitrary: w)
    case 0
    then show ?case by (simp add: after_work_def finish_all_def)
  next
    case (Suc n)
    have "consumer_loop (replicate (Suc n) Ticked) w =
        consumer_loop (replicate n Ticked) (after_work (take 100 (backlog w)) w)"
      using Suc.prems(1) by (simp add: tick_alone_eq)
    also have "\<dots> = (Inr (), after_work (take 100 (backlog w) @ take (100 * n) (drop 100 (backlog w))) w)"
      using Suc.IH [of "after_work (take 100 (backlog w)) w"] Suc.prems event_table_ok_after [OF Suc.prems(2)]
      by (simp add: backlog_after_batch after_work_append del: after_work_simps(4))
    also have "take 100 (backlog w) @ take (100 * n) (drop 100 (backlog w)) = take (100 * Suc n) (backlog w)"
      by (simp flip: take_add add: add.commute)
    finally show ?case .
  qed
  show "backlog (after_work (take (100 * n) (backlog w)) w) = drop (100 * n) (backlog w)"
    by (rule backlog_after_batch [OF event_inv_table [OF assms(2)]])
qed

text \<open>
  C18: left alone, \<open>n\<close> rounds of the consumer work off the first \<open>100 n\<close> events of the backlog
  in the order of their arrival: the tree becomes their projection, the log marks them processed,
  and the rest of the backlog remains; nothing else in the database changes.
\<close>

theorem consumer_projects_backlog:
  assumes "alone w" and "event_inv (w_db w)"
  shows "consumer_loop (replicate n Ticked) w = (Inr (), after_work (take (100 * n) (backlog w)) w) \<and>
     backlog (after_work (take (100 * n) (backlog w)) w) = drop (100 * n) (backlog w)"
  by (rule consumer_backlog [OF assms])

lemma apply_change_twice:
  "tab_get (project evs (apply_change tab_put tab_del c (apply_change tab_put tab_del c t))) =
     tab_get (project evs (apply_change tab_put tab_del c t))"
  using tab.replay_after_prefix [of "[c]" "map change_of evs" t] by (simp add: project_def)

text \<open>
  C19: a crash in the middle of an event does no harm: when the consumer dies after applying an
  event and before marking it, the next round applies it once more, and the resource tree and
  the backlog are what an uninterrupted round would have left.
\<close>

theorem crash_between_apply_and_mark:
  assumes "alone w" and "event_inv (w_db w)" and "backlog w = xs @ ev # ys"
    and "length (xs @ ev # ys) \<le> batch"
    and "bnd (work_off (map (\<lambda>e. \<lparr>se_envelope = e, se_received_at = at, se_processed_at = None\<rparr>) xs) 0 0)
           (\<lambda>_. apply_event \<lparr>se_envelope = ev, se_received_at = at, se_processed_at = None\<rparr>) w = (Inr (), crashed)"
  shows "tab_get (tb_resource (w_db (snd (tick batch crashed)))) = tab_get (tb_resource (w_db (snd (tick batch w)))) \<and>
     backlog (snd (tick batch crashed)) = [] \<and> backlog (snd (tick batch w)) = []"
proof -
  let ?db = "w_db (after_work xs w)"
  note table = event_inv_table [OF assms(2)]
  have crashed: "crashed = (after_work xs w)\<lparr>w_db := ?db\<lparr>tb_resource :=
      apply_change tab_put tab_del (change_of ev) (tb_resource ?db)\<rparr>\<rparr>"
    using assms(1,5) by (simp add: work_off_alone quiet comp_def del: after_work_simps(3,4))
  have xs: "xs = take (length xs) (backlog w)" using assms(3) by simp
  have "backlog (after_work xs w) = drop (length xs) (backlog w)"
    by (subst xs) (rule backlog_after_batch [OF table])
  then have "backlog (after_work xs w) = ev # ys" by (simp add: assms(3))
  then have rest: "backlog crashed = ev # ys" by (simp add: crashed backlog_def)
  have ok: "event_table_ok (tb_event (w_db crashed))"
    using event_table_ok_after [OF table] by (simp add: crashed)
  have alone: "alone crashed" using assms(1) by (simp add: crashed)
  have all: "take batch (ev # ys) = ev # ys" "take batch (xs @ ev # ys) = xs @ ev # ys"
    using assms(4) by simp_all
  show ?thesis
    using alone assms(1,3) rest all
      backlog_after_batch [OF ok, of batch] backlog_after_batch [OF table, of batch] assms(4)
    by (simp add: tick_alone_eq apply_change_twice del: take_Cons' take_append) (simp add: crashed apply_change_twice)
qed

definition newer_event :: event_envelope where
  "newer_event = an_event\<lparr>ev_event_id := ''e2'', ev_kind := ResourceUpdated, ev_idempotency := ''k2'',
     ev_resource := (ev_resource an_event)\<lparr>res_updated_at := ''t1''\<rparr>\<rparr>"

definition two_events_db :: db where
  "two_events_db = empty_db\<lparr>tb_event :=
     [(''e1'', new_event_row an_event 0), (''e2'', new_event_row newer_event 1)]\<rparr>"

lemma event_fields:
  "ev_kind an_event = ResourceCreated" "ev_kind newer_event = ResourceUpdated"
  "ev_event_id newer_event = ''e2''" "res_id (ev_resource an_event) = ''r1''"
  "res_id (ev_resource newer_event) = ''r1''"
  by (simp_all add: an_event_def newer_event_def)

lemma two_events_backlog: "backlog (world_of two_events_db es) = [an_event, newer_event]"
  by (simp add: backlog_def pending_rows_def two_events_db_def tab_where_def is_pending_def)

definition third_query_refused :: world where
  "third_query_refused = world_of two_events_db [calm, calm, calm\<lparr>es_fault := Refused (anyhow ''Connection reset'')\<rparr>]"

text \<open>
  a failure in the middle of a batch does harm: the consumer goes on with the later events of
  the batch and takes the failed one up again afterwards. When the mark of an update is lost and
  the same batch holds a newer update of the same resource, the older one is applied last: the
  tree differs for good from the projection of the log.
\<close>

theorem lost_mark_lets_old_overwrite_new:
  "\<exists>w'. consumer_loop [Ticked, Ticked] third_query_refused = (Inr (), w') \<and> backlog w' = [] \<and>
     tab_get (tb_resource (w_db w')) ''r1'' = Some (ev_resource an_event) \<and>
     tab_get (project (backlog third_query_refused) []) ''r1'' = Some (ev_resource newer_event) \<and>
     ev_resource newer_event \<noteq> ev_resource an_event"
proof -
  let ?w = third_query_refused
  let ?w1 = "a_world (two_events_db\<lparr>tb_resource := [(''r1'', ev_resource newer_event)],
    tb_event := [(''e1'', new_event_row an_event 0), (''e2'', processed_row 0 (new_event_row newer_event 1))]\<rparr>)"
  have first: "tick 100 ?w = (Inr (1, 1), ?w1)"
    by (simp add: third_query_refused_def two_events_db_def tick_def unprocessed_def select_def run_def bnd_def
        query_def attempt_def calm_def world_of_def limit_to_def pending_rows_def tab_where_def is_pending_def
        stored_of_def apply_event_def upsert_resource_def mark_processed_def clock_ms_def tab_put_def
        tab_update_def now_ms_def empty_db_def an_event_simps event_fields Let_def)
  have backlog1: "backlog ?w1 = [an_event]"
    by (simp add: backlog_def pending_rows_def tab_where_def is_pending_def processed_row_def)
  have second: "tick 100 ?w1 = (Inr (1, 0), after_work [an_event] ?w1)"
    by (simp add: tick_alone_eq backlog1)
  have "consumer_loop [Ticked, Ticked] ?w = (Inr (), after_work [an_event] ?w1)"
    by (simp add: first second)
  moreover have "backlog (after_work [an_event] ?w1) = []"
    by (simp add: backlog_def pending_rows_def finish_all_def tab_update_def tab_where_def is_pending_def
        processed_row_def an_event_simps)
  moreover have "tab_get (tb_resource (w_db (after_work [an_event] ?w1))) ''r1'' = Some (ev_resource an_event)"
    by (simp add: change_of_def event_fields tab_get_def tab_put_def)
  moreover have "tab_get (project (backlog ?w) []) ''r1'' = Some (ev_resource newer_event)"
    by (simp add: third_query_refused_def two_events_backlog change_of_def event_fields tab_get_def tab_put_def)
  moreover have "ev_resource newer_event \<noteq> ev_resource an_event"
    by (simp add: newer_event_def an_event_def)
  ultimately show ?thesis by blast
qed

section \<open>Concrete instances\<close>

lemma two_events_inv: "event_inv two_events_db"
  by (auto simp: event_inv_def two_events_db_def tab_ok_def indexed_def rows_ok_def an_event_def newer_event_def
      row_idempotency_def)

theorem consumer_projects_backlog_witness:
  "consumer_loop [Ticked] (a_world two_events_db) =
     (Inr (), after_work [an_event, newer_event] (a_world two_events_db)) \<and>
   backlog (after_work [an_event, newer_event] (a_world two_events_db)) = []"
  using consumer_projects_backlog [of "a_world two_events_db" 1]
  by (simp add: two_events_inv two_events_backlog)

theorem crash_between_apply_and_mark_witness:
  "\<exists>crashed. backlog (snd (tick 10 crashed)) = [] \<and>
     tab_get (tb_resource (w_db (snd (tick 10 crashed)))) =
       tab_get (tb_resource (w_db (snd (tick 10 (a_world two_events_db)))))"
proof -
  let ?m = "bnd (work_off (map (\<lambda>e. \<lparr>se_envelope = e, se_received_at = 0, se_processed_at = None\<rparr>) [an_event]) 0 0)
      (\<lambda>_. apply_event \<lparr>se_envelope = newer_event, se_received_at = 0, se_processed_at = None\<rparr>) (a_world two_events_db)"
  have "?m = (Inr (), snd ?m)"
    by (simp add: work_off_alone quiet del: work_off.simps)
  from crash_between_apply_and_mark [OF _ _ _ _ this, where ys = "[]" and batch = 10] show ?thesis
    by (intro exI [of _ "snd ?m"]) (simp add: two_events_inv two_events_backlog)
qed

end
