(* ===== verification/User_Roster.thy ===== *)
theory User_Roster
  imports Hub_World
begin

text \<open>
  The roster of users and their handles: the tables \<open>user\<close> and \<open>handle_reserve\<close> and the
  operations on them (\<open>crates/chronista-hub-server/src/storage.rs\<close>): first contact, claiming and
  renaming a handle, the reservation of the former handle for 100 days, display names. The
  uniqueness of handles rests on the database's unique indexes, not on the server's reads.
\<close>

section \<open>Retrying on a transaction conflict\<close>

text \<open>
  \<open>retry_on_conflict\<close>: three runs at most, 10 and 20 milliseconds apart, and only a conflict is
  retried. The first argument is the number of retries that are left.
\<close>

fun retry_left :: "nat \<Rightarrow> 'a hub \<Rightarrow> 'a hub" where
  "retry_left 0 f = f"
| "retry_left (Suc n) f = bnd (attempt f) (\<lambda>r.
     case r of
       Inl e \<Rightarrow> (if is_conflict_msg (error_text e)
                  then bnd (sleep_ms (10 * (2 - n))) (\<lambda>_. retry_left n f) else raise e)
     | Inr a \<Rightarrow> ret a)"

definition retry_on_conflict :: "'a hub \<Rightarrow> 'a hub" where
  "retry_on_conflict f = retry_left 2 f"

lemma keeps_retry_left: "keeps I f \<Longrightarrow> keeps I (retry_left n f)"
  by (induction n) (auto intro!: keeps)

lemma keeps_retry [keeps]: "keeps I f \<Longrightarrow> keeps I (retry_on_conflict f)"
  by (simp add: retry_on_conflict_def keeps_retry_left)

lemma returns_retry_left: "returns I f Q \<Longrightarrow> keeps I f \<Longrightarrow> returns I (retry_left n f) Q"
proof (induction n)
  case (Suc n)
  show ?case
    unfolding retry_left.simps
  proof (rule returns_bnd [OF returns_attempt [OF Suc.prems(1)] keeps_attempt [OF Suc.prems(2)]])
    fix r :: "error + 'a"
    assume "case r of Inl _ \<Rightarrow> True | Inr a \<Rightarrow> Q a"
    then show "returns I (case r of Inl e \<Rightarrow> if is_conflict_msg (error_text e)
        then bnd (sleep_ms (10 * (2 - n))) (\<lambda>_. retry_left n f) else raise e | Inr a \<Rightarrow> ret a) Q"
      using Suc.IH [OF Suc.prems]
      by (auto intro: returns_ret returns_raise returns_bnd [OF returns_True keeps_sleep] split: sum.split)
  qed
qed simp

lemma returns_retry: "returns I f Q \<Longrightarrow> keeps I f \<Longrightarrow> returns I (retry_on_conflict f) Q"
  by (simp add: retry_on_conflict_def returns_retry_left)

text \<open>A run that does not end in a conflict is the only run.\<close>

lemma retry_once [quiet]:
  "f w = (Inr a, w') \<Longrightarrow> retry_on_conflict f w = (Inr a, w')"
  by (simp add: retry_on_conflict_def numeral_2_eq_2 bnd_steps)

section \<open>Reading the roster\<close>

definition user_of :: "ext \<Rightarrow> user_row \<Rightarrow> user_entry" where
  "user_of x r = \<lparr>ue_usr_id = (case ur_usr_id r of Some u \<Rightarrow> u | None \<Rightarrow> []), ue_handle = ur_handle r,
     ue_display_name = ur_display_name r, ue_creo_sub = ur_creo_sub r,
     ue_handle_changed_at = map_option (x_time_str x) (ur_handle_changed_at r),
     ue_account_type = ur_account_type r\<rparr>"

definition find_user :: "(user_row \<Rightarrow> bool) \<Rightarrow> db \<Rightarrow> user_row option" where
  "find_user P d = first_of (tab_where P (tb_user d))"

definition get_user_by_sub :: "ext \<Rightarrow> string \<Rightarrow> user_entry option hub" where
  "get_user_by_sub x sub = select (\<lambda>t d. map_option (user_of x) (find_user (\<lambda>r. ur_creo_sub r = Some sub) d))"

definition get_user_by_handle :: "ext \<Rightarrow> string \<Rightarrow> user_entry option hub" where
  "get_user_by_handle x h = select (\<lambda>t d. map_option (user_of x) (find_user (\<lambda>r. ur_handle r = Some h) d))"

definition get_user_by_id :: "ext \<Rightarrow> string \<Rightarrow> user_entry option hub" where
  "get_user_by_id x u = select (\<lambda>t d. map_option (user_of x) (find_user (\<lambda>r. ur_usr_id r = Some u) d))"

definition reserve_of :: "ext \<Rightarrow> reserve_row \<Rightarrow> handle_reserve" where
  "reserve_of x r = \<lparr>hr_handle = rr_handle r, hr_usr_id = rr_usr_id r, hr_new_handle = rr_new_handle r,
     hr_expires_at = x_time_str x (rr_expires_at r)\<rparr>"

definition live_reserve :: "(reserve_row \<Rightarrow> bool) \<Rightarrow> nat \<Rightarrow> db \<Rightarrow> reserve_row option" where
  "live_reserve P t d = first_of (tab_where (\<lambda>r. P r \<and> t < rr_expires_at r) (tb_reserve d))"

definition get_reserve :: "ext \<Rightarrow> string \<Rightarrow> handle_reserve option hub" where
  "get_reserve x h = select (\<lambda>t d. map_option (reserve_of x) (live_reserve (\<lambda>r. rr_handle r = h) t d))"

definition get_reserve_of :: "ext \<Rightarrow> string \<Rightarrow> handle_reserve option hub" where
  "get_reserve_of x u = select (\<lambda>t d. map_option (reserve_of x) (live_reserve (\<lambda>r. rr_usr_id r = u) t d))"

definition resolve_moved_handle :: "ext \<Rightarrow> string \<Rightarrow> user_entry option hub" where
  "resolve_moved_handle x old =
     bnd (get_reserve x old) (\<lambda>r.
     case r of
       None \<Rightarrow> ret None
     | Some r \<Rightarrow> bnd (get_user_by_id x (hr_usr_id r)) (\<lambda>u.
         ret (opt_filter (\<lambda>u. ue_handle u \<noteq> None \<and> ue_account_type u = ''user'') u)))"

text \<open>\<open>reserve.is_some_and(|r| r.usr_id != usr_id)\<close>.\<close>

definition held_by_other :: "string \<Rightarrow> handle_reserve option \<Rightarrow> bool" where
  "held_by_other usr_id reserve \<longleftrightarrow> (case reserve of Some r \<Rightarrow> hr_usr_id r \<noteq> usr_id | None \<Rightarrow> False)"

section \<open>First contact\<close>

definition USR_ALPHABET :: string where
  "USR_ALPHABET = ''123456789ABCDEFGHJKLMNPQRSTUVWXYZabcdefghijkmnopqrstuvwxyz''"

definition usr_id_of :: "string \<Rightarrow> string" where
  "usr_id_of bytes = ''usr_'' @ map (\<lambda>b. USR_ALPHABET ! (code_of b mod length USR_ALPHABET)) bytes"

definition new_usr_id :: "string hub" where
  "new_usr_id = bnd (draw 16) (\<lambda>bytes. ret (usr_id_of bytes))"

definition fresh_user :: "string \<Rightarrow> string \<Rightarrow> user_row" where
  "fresh_user usr_id sub = \<lparr>ur_usr_id = Some usr_id, ur_handle = None, ur_display_name = None,
     ur_creo_sub = Some sub, ur_handle_changed_at = None, ur_account_type = ''user''\<rparr>"

definition create_user :: "string \<Rightarrow> string \<Rightarrow> db \<Rightarrow> (error + unit) \<times> db" where
  "create_user usr_id sub d =
     (if tab_get (tb_user d) usr_id \<noteq> None then (Inl record_exists_error, d)
      else if \<not> index_free ur_creo_sub usr_id (Some sub) (tb_user d)
      then (Inl (unique_index_error ''user_creo_sub_idx''), d)
      else (Inr (), d\<lparr>tb_user := tab_put usr_id (fresh_user usr_id sub) (tb_user d)\<rparr>))"

definition ensure_user_once :: "ext \<Rightarrow> string \<Rightarrow> user_entry hub" where
  "ensure_user_once x sub =
     bnd (get_user_by_sub x sub) (\<lambda>u.
     case u of
       Some u \<Rightarrow> ret u
     | None \<Rightarrow>
         bnd new_usr_id (\<lambda>usr_id.
         bnd (query (\<lambda>t d. create_user usr_id sub d)) (\<lambda>created.
         let reread = bnd (get_user_by_sub x sub) (\<lambda>u. case u of
               Some u \<Rightarrow> ret u
             | None \<Rightarrow> raise (anyhow ''user row vanished right after ensure_user''))
         in case created of
              Inr _ \<Rightarrow> reread
            | Inl e \<Rightarrow> (if is_unique_violation e then reread else raise e))))"

definition ensure_user :: "ext \<Rightarrow> string \<Rightarrow> user_entry hub" where
  "ensure_user x sub = retry_on_conflict (ensure_user_once x sub)"

section \<open>Claiming a handle\<close>

definition claim_update :: "string \<Rightarrow> string \<Rightarrow> db \<Rightarrow> (error + unit) \<times> db" where
  "claim_update usr_id handle d =
     (case tab_get (tb_user d) usr_id of
        None \<Rightarrow> (Inr (), d)
      | Some r \<Rightarrow>
          if ur_handle r = None \<and> ur_account_type r = ''user'' then
            (if index_free ur_handle usr_id (Some handle) (tb_user d)
             then (Inr (), d\<lparr>tb_user := tab_put usr_id (r\<lparr>ur_handle := Some handle\<rparr>) (tb_user d)\<rparr>)
             else (Inl (unique_index_error ''user_handle_idx''), d))
          else (Inr (), d))"

definition claim_handle_once :: "ext \<Rightarrow> string \<Rightarrow> string \<Rightarrow> user_entry option hub" where
  "claim_handle_once x usr_id handle =
     bnd (get_user_by_handle x handle) (\<lambda>holder.
     if holder \<noteq> None then ret None
     else bnd (get_reserve x handle) (\<lambda>reserve.
     if held_by_other usr_id reserve then ret None
     else bnd (query (\<lambda>t d. claim_update usr_id handle d)) (\<lambda>updated.
     case updated of
       Inr _ \<Rightarrow> bnd (get_user_by_id x usr_id) (\<lambda>u. ret (opt_filter (\<lambda>u. ue_handle u = Some handle) u))
     | Inl e \<Rightarrow> (if is_unique_violation e then ret None else raise e))))"

definition claim_handle :: "ext \<Rightarrow> string \<Rightarrow> string \<Rightarrow> user_entry option hub" where
  "claim_handle x usr_id handle = retry_on_conflict (claim_handle_once x usr_id handle)"

section \<open>Renaming\<close>

definition cooldown_over :: "nat \<Rightarrow> user_row \<Rightarrow> bool" where
  "cooldown_over t r \<longleftrightarrow>
     (case ur_handle_changed_at r of None \<Rightarrow> True | Some c \<Rightarrow> c + days 30 \<le> t)"

definition cooldown_until :: "string \<Rightarrow> nat \<Rightarrow> db \<Rightarrow> nat option" where
  "cooldown_until usr_id t d =
     Option.bind (find_user (\<lambda>r. ur_usr_id r = Some usr_id \<and> \<not> cooldown_over t r) d)
       (\<lambda>r. map_option (\<lambda>c. c + days 30) (ur_handle_changed_at r))"

definition rename_tx :: "string \<Rightarrow> string \<Rightarrow> string \<Rightarrow> nat \<Rightarrow> db \<Rightarrow> (error + unit) \<times> db" where
  "rename_tx usr_id old new t d =
     (case tab_get (tb_user d) usr_id of
        None \<Rightarrow> (Inl (thrown_error ''stale''), d)
      | Some r \<Rightarrow>
          if ur_handle r = Some old \<and> ur_account_type r = ''user'' \<and> cooldown_over t r then
            (if index_free ur_handle usr_id (Some new) (tb_user d)
             then (Inr (), d\<lparr>
               tb_user := tab_put usr_id (r\<lparr>ur_handle := Some new, ur_handle_changed_at := Some t\<rparr>) (tb_user d),
               tb_reserve := tab_put old
                 \<lparr>rr_handle = old, rr_usr_id = usr_id, rr_new_handle = new, rr_expires_at = t + days 100\<rparr>
                 (tab_delete_where (\<lambda>r. rr_usr_id r = usr_id) (tb_reserve d))\<rparr>)
             else (Inl (unique_index_error ''user_handle_idx''), d))
          else (Inl (thrown_error ''stale''), d))"

text \<open>
  \<open>take_errors\<close> of a failed transaction: the statement that caused the failure has its text,
  the others have the text that they were not executed.
\<close>

definition tx_messages :: "error \<Rightarrow> string list" where
  "tx_messages e = [''The query was not executed due to a failed transaction'', error_text e]"

definition tx_conflict :: "string \<Rightarrow> bool" where
  "tx_conflict m \<longleftrightarrow> contains_str m ''not executed'' \<or> contains_str m ''Cannot COMMIT'' \<or> is_conflict_msg m"

definition rename_failure :: "string list \<Rightarrow> rename_outcome option hub" where
  "rename_failure msgs =
     (if list_ex (\<lambda>m. contains_str m ''already contains'') msgs then ret (Some Taken)
      else if list_ex (\<lambda>m. contains_str m ''stale'') msgs then ret (Some Taken)
      else if list_all tx_conflict msgs then ret None
      else raise (anyhow (''rename_handle failed: '' @
        (case find (\<lambda>m. \<not> tx_conflict m) msgs of Some m \<Rightarrow> m | None \<Rightarrow> []))))"

definition rename_handle_once :: "ext \<Rightarrow> string \<Rightarrow> string \<Rightarrow> string \<Rightarrow> rename_outcome option hub" where
  "rename_handle_once x usr_id old new =
     bnd (select (cooldown_until usr_id)) (\<lambda>until.
     case until of
       Some c \<Rightarrow> ret (Some (Cooldown (x_time_str x c)))
     | None \<Rightarrow>
         bnd (get_reserve x new) (\<lambda>reserve.
         if held_by_other usr_id reserve then ret (Some Taken)
         else bnd (query (rename_tx usr_id old new)) (\<lambda>resp.
         case resp of
           Inl e \<Rightarrow> rename_failure (tx_messages e)
         | Inr _ \<Rightarrow>
             bnd (get_user_by_id x usr_id) (\<lambda>u.
             case u of
               Some u \<Rightarrow> (if ue_handle u = Some new then ret (Some (Renamed u))
                 else raise (anyhow ''rename_handle: committed but the row does not show the new handle''))
             | None \<Rightarrow> raise (anyhow ''rename_handle: committed but the row does not show the new handle'')))))"

text \<open>The loop \<open>for attempt in 0..3\<close>, from a given attempt.\<close>

fun rename_attempts :: "ext \<Rightarrow> string \<Rightarrow> string \<Rightarrow> string \<Rightarrow> nat list \<Rightarrow> rename_outcome hub" where
  "rename_attempts x usr_id old new [] = ret Taken"
| "rename_attempts x usr_id old new (k # rest) =
     bnd (rename_handle_once x usr_id old new) (\<lambda>r.
     case r of
       None \<Rightarrow> bnd (sleep_ms (10 * (k + 1))) (\<lambda>_. rename_attempts x usr_id old new rest)
     | Some outcome \<Rightarrow> ret outcome)"

definition rename_handle :: "ext \<Rightarrow> string \<Rightarrow> string \<Rightarrow> string \<Rightarrow> rename_outcome hub" where
  "rename_handle x usr_id old new = rename_attempts x usr_id old new [0, 1, 2]"

section \<open>Display names\<close>

definition set_display_name :: "ext \<Rightarrow> string \<Rightarrow> string option \<Rightarrow> user_entry option hub" where
  "set_display_name x usr_id name = retry_on_conflict (
     bnd (run (\<lambda>t d. (Inr (), d\<lparr>tb_user := tab_update usr_id
            (\<lambda>r. if ur_account_type r = ''user'' then r\<lparr>ur_display_name := name\<rparr> else r) (tb_user d)\<rparr>)))
       (\<lambda>_. get_user_by_id x usr_id))"

section \<open>The invariant of the roster\<close>

text \<open>
  Handles and subjects are unique, a user row is stored under its own \<open>usr_id\<close> (reserved names,
  which are not users, have none), a reservation under its handle, and nobody has two reservations.
\<close>

definition user_row_ok :: "string \<Rightarrow> user_row \<Rightarrow> bool" where
  "user_row_ok k r \<longleftrightarrow>
     ur_usr_id r = Some k \<or> ur_usr_id r = None \<and> ur_account_type r \<noteq> ''user''"

definition reserve_row_ok :: "string \<Rightarrow> reserve_row \<Rightarrow> bool" where
  "reserve_row_ok k r \<longleftrightarrow> rr_handle r = k"

definition rr_owner :: "reserve_row \<Rightarrow> string option" where
  "rr_owner r = Some (rr_usr_id r)"

definition roster_inv :: "db \<Rightarrow> bool" where
  "roster_inv d \<longleftrightarrow>
     tab_ok (tb_user d) \<and> indexed ur_handle (tb_user d) \<and> indexed ur_creo_sub (tb_user d) \<and>
     rows_ok user_row_ok (tb_user d) \<and>
     tab_ok (tb_reserve d) \<and> rows_ok reserve_row_ok (tb_reserve d) \<and> indexed rr_owner (tb_reserve d)"

lemma roster_inv_empty: "roster_inv empty_db"
  by (simp add: roster_inv_def empty_db_def)

lemma roster_inv_user_put:
  assumes "roster_inv d" and "user_row_ok k r"
    and "index_free ur_handle k (ur_handle r) (tb_user d)"
    and "index_free ur_creo_sub k (ur_creo_sub r) (tb_user d)"
  shows "roster_inv (d\<lparr>tb_user := tab_put k r (tb_user d)\<rparr>)"
  using assms by (simp add: roster_inv_def tab.ok_put indexed_put rows_ok_put)

text \<open>A row that keeps its value of an indexed column may always be written back.\<close>

lemma index_free_same:
  assumes "tab_ok t" and "indexed col t" and "tab_get t k = Some r"
  shows "index_free col k (col r) t"
  using assms tab_get_in [OF assms(3)]
  by (fastforce simp: index_free_def list_all_iff indexed_def)

lemma index_free_None [simp]: "index_free col k None t"
  by (simp add: index_free_def)

lemma roster_inv_create: "roster_inv d \<Longrightarrow> roster_inv (snd (create_user u s d))"
  by (auto simp: create_user_def fresh_user_def user_row_ok_def intro!: roster_inv_user_put)

lemma roster_inv_claim:
  assumes "roster_inv d"
  shows "roster_inv (snd (claim_update u h d))"
proof (cases "tab_get (tb_user d) u")
  case (Some r)
  have "user_row_ok u r" "index_free ur_creo_sub u (ur_creo_sub r) (tb_user d)"
    using assms Some by (auto simp: roster_inv_def dest: rows_ok_get index_free_same)
  then show ?thesis
    using assms Some by (auto simp: claim_update_def user_row_ok_def intro!: roster_inv_user_put)
qed (use assms in \<open>simp add: claim_update_def\<close>)

lemma roster_inv_reserve:
  assumes "roster_inv d"
  shows "roster_inv (d\<lparr>tb_reserve := tab_put old
     \<lparr>rr_handle = old, rr_usr_id = u, rr_new_handle = new, rr_expires_at = e\<rparr>
     (tab_delete_where (\<lambda>r. rr_usr_id r = u) (tb_reserve d))\<rparr>)"
proof -
  let ?t = "tab_delete_where (\<lambda>r. rr_usr_id r = u) (tb_reserve d)"
  have t: "tab_ok ?t" "rows_ok reserve_row_ok ?t" "indexed rr_owner ?t"
    using assms by (simp_all add: roster_inv_def tab_ok_delete_where rows_ok_delete_where indexed_delete_where)
  have "index_free rr_owner old (Some u) ?t"
    by (auto simp: index_free_def list_all_iff set_tab_delete_where rr_owner_def)
  then show ?thesis
    using assms t by (auto simp: roster_inv_def rr_owner_def reserve_row_ok_def
        intro!: tab.ok_put rows_ok_put indexed_put)
qed

lemma roster_inv_rename:
  assumes "roster_inv d"
  shows "roster_inv (snd (rename_tx u old new t d))"
proof (cases "tab_get (tb_user d) u")
  case (Some r)
  have "user_row_ok u r" "index_free ur_creo_sub u (ur_creo_sub r) (tb_user d)"
    using assms Some by (auto simp: roster_inv_def dest: rows_ok_get index_free_same)
  then have "index_free ur_handle u (Some new) (tb_user d) \<Longrightarrow>
      roster_inv (d\<lparr>tb_user := tab_put u (r\<lparr>ur_handle := Some new, ur_handle_changed_at := Some t\<rparr>) (tb_user d)\<rparr>)"
    using assms by (auto simp: user_row_ok_def intro!: roster_inv_user_put)
  from roster_inv_reserve [OF this] show ?thesis
    using assms Some by (simp add: rename_tx_def)
qed (use assms in \<open>simp add: rename_tx_def\<close>)

lemma roster_inv_display:
  assumes "roster_inv d"
  shows "roster_inv (d\<lparr>tb_user := tab_update u
    (\<lambda>r. if ur_account_type r = ''user'' then r\<lparr>ur_display_name := n\<rparr> else r) (tb_user d)\<rparr>)"
  using assms
  by (auto simp: roster_inv_def user_row_ok_def intro!: tab_ok_update rows_ok_update indexed_update)

section \<open>What the operations keep\<close>

lemma roster_reads_keep [keeps]:
  "keeps I (get_user_by_sub x s)" "keeps I (get_user_by_handle x h)" "keeps I (get_user_by_id x u)"
  "keeps I (get_reserve x h)" "keeps I (get_reserve_of x u)" "keeps I (resolve_moved_handle x h)"
  "keeps I new_usr_id"
  unfolding get_user_by_sub_def get_user_by_handle_def get_user_by_id_def get_reserve_def
    get_reserve_of_def resolve_moved_handle_def new_usr_id_def
  by (intro keeps)+

lemma roster_reads [reads]:
  "reads (get_user_by_sub x s)" "reads (get_user_by_handle x h)" "reads (get_user_by_id x u)"
  "reads (get_reserve x h)" "reads (get_reserve_of x u)" "reads (resolve_moved_handle x h)"
  unfolding get_user_by_sub_def get_user_by_handle_def get_user_by_id_def get_reserve_def
    get_reserve_of_def resolve_moved_handle_def
  by (intro reads)+

lemma keeps_ensure_once: "(\<And>d u. I d \<Longrightarrow> I (snd (create_user u s d))) \<Longrightarrow> keeps I (ensure_user_once x s)"
  unfolding ensure_user_once_def Let_def by (intro keeps)

lemma keeps_ensure: "(\<And>d u. I d \<Longrightarrow> I (snd (create_user u s d))) \<Longrightarrow> keeps I (ensure_user x s)"
  unfolding ensure_user_def by (intro keeps keeps_ensure_once)

lemma keeps_claim_once: "(\<And>d. I d \<Longrightarrow> I (snd (claim_update u h d))) \<Longrightarrow> keeps I (claim_handle_once x u h)"
  unfolding claim_handle_once_def by (intro keeps)

lemma keeps_claim: "(\<And>d. I d \<Longrightarrow> I (snd (claim_update u h d))) \<Longrightarrow> keeps I (claim_handle x u h)"
  unfolding claim_handle_def by (intro keeps keeps_claim_once)

lemma keeps_rename_failure [keeps]: "keeps I (rename_failure msgs)"
  unfolding rename_failure_def by (intro keeps)

lemma keeps_rename_once:
  "(\<And>d t. I d \<Longrightarrow> I (snd (rename_tx u old new t d))) \<Longrightarrow> keeps I (rename_handle_once x u old new)"
  unfolding rename_handle_once_def by (intro keeps)

lemma keeps_rename:
  assumes "\<And>d t. I d \<Longrightarrow> I (snd (rename_tx u old new t d))"
  shows "keeps I (rename_handle x u old new)"
proof -
  have "keeps I (rename_attempts x u old new ks)" for ks
  proof (induction ks)
    case (Cons k ks)
    then show ?case unfolding rename_attempts.simps by (intro keeps keeps_rename_once assms)
  qed (simp add: keeps_ret del: ret_apply)
  then show ?thesis unfolding rename_handle_def .
qed

lemma keeps_display:
  assumes "\<And>d. I d \<Longrightarrow> I (d\<lparr>tb_user := tab_update u
    (\<lambda>r. if ur_account_type r = ''user'' then r\<lparr>ur_display_name := n\<rparr> else r) (tb_user d)\<rparr>)"
  shows "keeps I (set_display_name x u n)"
  unfolding set_display_name_def by (intro keeps) (simp add: assms)

section \<open>What the reads find\<close>

lemma find_by_id_where:
  assumes "roster_inv d"
  shows "find_user (\<lambda>r. ur_usr_id r = Some u \<and> Q r) d =
    opt_filter (\<lambda>r. ur_usr_id r = Some u \<and> Q r) (tab_get (tb_user d) u)"
proof -
  have key: "k = u" if "(k, r) \<in> set (tb_user d)" "ur_usr_id r = Some u" for k r
    using assms that by (auto simp: roster_inv_def user_row_ok_def dest!: rows_okD)
  have ok: "tab_ok (tb_user d)" using assms by (simp add: roster_inv_def)
  show ?thesis
  proof (cases "\<exists>r. (u, r) \<in> set (tb_user d) \<and> ur_usr_id r = Some u \<and> Q r")
    case True
    then obtain r where r: "(u, r) \<in> set (tb_user d)" "ur_usr_id r = Some u" "Q r" by blast
    have "first_of (tab_where (\<lambda>r. ur_usr_id r = Some u \<and> Q r) (tb_user d)) = Some r"
      by (rule first_where_unique [where k = u]) (use r key ok in \<open>auto dest: tab_ok_unique\<close>)
    then show ?thesis using r ok by (simp add: find_user_def opt_filter_eq_Some tab_get_set [symmetric])
  next
    case False
    then have "find_user (\<lambda>r. ur_usr_id r = Some u \<and> Q r) d = None"
      unfolding find_user_def first_where_None using key by auto
    moreover have "opt_filter (\<lambda>r. ur_usr_id r = Some u \<and> Q r) (tab_get (tb_user d) u) = None"
      using False by (auto simp: opt_filter_def dest: tab_get_in split: option.split)
    ultimately show ?thesis by simp
  qed
qed

lemmas find_by_id = find_by_id_where [where Q = "\<lambda>_. True", simplified]

lemma find_by_handle:
  assumes "roster_inv d" and "(k, r) \<in> set (tb_user d)" and "ur_handle r = Some h"
  shows "find_user (\<lambda>r. ur_handle r = Some h) d = Some r"
  unfolding find_user_def
proof (rule first_where_unique [where k = k])
  fix k' r' assume "(k', r') \<in> set (tb_user d)" "ur_handle r' = Some h"
  then show "r' = r" using assms unfolding roster_inv_def by (blast intro: indexed_unique)
qed (use assms in auto)

lemma find_by_handle_None:
  "find_user (\<lambda>r. ur_handle r = Some h) d = None \<longleftrightarrow> (\<forall>(k, r) \<in> set (tb_user d). ur_handle r \<noteq> Some h)"
  unfolding find_user_def by (rule first_where_None)

lemma find_user_Some: "find_user P d = Some r \<Longrightarrow> P r \<and> (\<exists>k. (k, r) \<in> set (tb_user d))"
  by (simp add: find_user_def first_where_Some)

lemma index_free_handle:
  assumes "find_user (\<lambda>r. ur_handle r = Some h) d = None"
  shows "index_free ur_handle k (Some h) (tb_user d)"
  using assms by (auto simp: find_by_handle_None index_free_def list_all_iff)

lemma live_reserve_eq:
  assumes "roster_inv d"
  shows "live_reserve (\<lambda>r. rr_handle r = h) t d = opt_filter (\<lambda>r. t < rr_expires_at r) (tab_get (tb_reserve d) h)"
  using assms first_where_key [of "tb_reserve d" rr_handle h]
  by (simp add: live_reserve_def roster_inv_def reserve_row_ok_def [abs_def])

text \<open>The reads that a handler makes before it writes, as one question to the roster.\<close>

definition reserved_for_other :: "db \<Rightarrow> nat \<Rightarrow> string \<Rightarrow> string \<Rightarrow> bool" where
  "reserved_for_other d t u h \<longleftrightarrow>
     (case tab_get (tb_reserve d) h of None \<Rightarrow> False | Some r \<Rightarrow> t < rr_expires_at r \<and> rr_usr_id r \<noteq> u)"

definition handle_available :: "db \<Rightarrow> nat \<Rightarrow> string \<Rightarrow> string \<Rightarrow> bool" where
  "handle_available d t u h \<longleftrightarrow>
     find_user (\<lambda>r. ur_handle r = Some h) d = None \<and> \<not> reserved_for_other d t u h"

lemma reserve_of_simps [simp]:
  "hr_usr_id (reserve_of x r) = rr_usr_id r" "hr_handle (reserve_of x r) = rr_handle r"
  by (simp_all add: reserve_of_def)

lemma held_by_other_eq:
  assumes "roster_inv d"
  shows "held_by_other u (map_option (reserve_of x) (live_reserve (\<lambda>r. rr_handle r = h) t d)) =
    reserved_for_other d t u h"
  using assms
  by (auto simp: held_by_other_def live_reserve_eq reserved_for_other_def opt_filter_def split: option.splits)

end
