(* ===== verification/Handle_Rules.thy ===== *)
theory Handle_Rules
  imports User_Roster
begin

text \<open>
  What the roster promises about handles: the exact outcome of each operation when it runs
  alone, what remains true under any interference and any faults, the reservation of a former
  handle, and the race that the reservation does not survive.
\<close>

section \<open>Alone: exact outcomes\<close>

lemma get_user_by_id_alone [quiet]:
  "alone w \<Longrightarrow> bnd (get_user_by_id x u) f w =
     f (map_option (user_of x) (find_user (\<lambda>r. ur_usr_id r = Some u) (w_db w))) w"
  by (simp add: get_user_by_id_def quiet)

lemma get_user_by_handle_alone [quiet]:
  "alone w \<Longrightarrow> bnd (get_user_by_handle x h) f w =
     f (map_option (user_of x) (find_user (\<lambda>r. ur_handle r = Some h) (w_db w))) w"
  by (simp add: get_user_by_handle_def quiet)

lemma get_reserve_alone [quiet]:
  "alone w \<Longrightarrow> bnd (get_reserve x h) f w =
     f (map_option (reserve_of x) (live_reserve (\<lambda>r. rr_handle r = h) (w_now w) (w_db w))) w"
  by (simp add: get_reserve_def quiet)

lemma user_of_simps [simp]:
  "ue_handle (user_of x r) = ur_handle r" "ue_creo_sub (user_of x r) = ur_creo_sub r"
  "ue_account_type (user_of x r) = ur_account_type r" "ue_display_name (user_of x r) = ur_display_name r"
  "ur_usr_id r = Some u \<Longrightarrow> ue_usr_id (user_of x r) = u"
  by (simp_all add: user_of_def)

lemma user_type_id:
  "roster_inv d \<Longrightarrow> tab_get (tb_user d) u = Some r \<Longrightarrow> ur_account_type r = ''user'' \<Longrightarrow> ur_usr_id r = Some u"
  unfolding roster_inv_def by (auto dest!: rows_ok_get simp: user_row_ok_def)

lemma claim_update_eq:
  assumes "handle_available d t u h"
  shows "claim_update u h d =
    (case tab_get (tb_user d) u of
       Some r \<Rightarrow> (if ur_handle r = None \<and> ur_account_type r = ''user''
                 then (Inr (), d\<lparr>tb_user := tab_put u (r\<lparr>ur_handle := Some h\<rparr>) (tb_user d)\<rparr>) else (Inr (), d))
     | None \<Rightarrow> (Inr (), d))"
  using assms by (simp add: claim_update_def handle_available_def index_free_handle split: option.split)

text \<open>
  The specification of a claim: it succeeds exactly when nobody has the handle, no live
  reservation of somebody else holds it and the claimer is a user without a handle.
\<close>

definition claim_spec :: "ext \<Rightarrow> string \<Rightarrow> string \<Rightarrow> nat \<Rightarrow> db \<Rightarrow> user_entry option \<times> db" where
  "claim_spec x u h t d =
    (case tab_get (tb_user d) u of
       None \<Rightarrow> (None, d)
     | Some r \<Rightarrow>
         if handle_available d t u h \<and> ur_handle r = None \<and> ur_account_type r = ''user''
         then (Some (user_of x (r\<lparr>ur_handle := Some h\<rparr>)),
               d\<lparr>tb_user := tab_put u (r\<lparr>ur_handle := Some h\<rparr>) (tb_user d)\<rparr>)
         else (None, d))"

lemma claim_handle_eq:
  assumes "alone w" and "roster_inv (w_db w)"
  shows "claim_handle x u h w =
    (case claim_spec x u h (w_now w) (w_db w) of (r, d) \<Rightarrow> (Inr r, w\<lparr>w_db := d\<rparr>))"
proof -
  let ?d = "w_db w"
  have inv: "roster_inv (snd (claim_update u h ?d))" by (rule roster_inv_claim [OF assms(2)])
  note reserve = held_by_other_eq [OF assms(2)]
  show ?thesis
  proof (cases "handle_available ?d (w_now w) u h")
    case False
    then have "claim_handle_once x u h w = (Inr None, w)"
      using assms(1) by (auto simp: claim_handle_once_def quiet reserve handle_available_def)
    then have "claim_handle x u h w = (Inr None, w)" by (simp add: claim_handle_def quiet)
    with False show ?thesis by (simp add: claim_spec_def split: option.split)
  next
    case True
    then have free: "find_user (\<lambda>r. ur_handle r = Some h) ?d = None" "\<not> reserved_for_other ?d (w_now w) u h"
      by (simp_all add: handle_available_def)
    have nobody: "ur_handle r \<noteq> Some h" if "tab_get (tb_user ?d) u = Some r" for r
      using free(1) tab_get_in [OF that] by (auto simp: find_by_handle_None)
    obtain d' where q: "claim_update u h ?d = (Inr (), d')"
      using claim_update_eq [OF True] by (auto split: option.splits if_splits)
    with inv have inv': "roster_inv d'" by simp
    have "claim_handle_once x u h w =
      (Inr (opt_filter (\<lambda>e. ue_handle e = Some h) (map_option (user_of x)
        (opt_filter (\<lambda>r. ur_usr_id r = Some u) (tab_get (tb_user d') u)))), w\<lparr>w_db := d'\<rparr>)"
      using assms(1) free by (simp add: claim_handle_once_def quiet reserve q find_by_id [OF inv'])
    then show ?thesis
      using q True nobody claim_update_eq [OF True] user_type_id [OF assms(2), of u]
      by (auto simp: claim_spec_def claim_handle_def quiet tab.get_put opt_filter_def split: option.splits)
  qed
qed

lemma rename_failure_taken:
  assumes "contains_str (error_text e) ''already contains'' \<or> contains_str (error_text e) ''stale''"
  shows "rename_failure (tx_messages e) = ret (Some Taken)"
  using assms by (auto simp: rename_failure_def tx_messages_def)

lemma rename_failure_stale [simp]: "rename_failure (tx_messages (thrown_error ''stale'')) = ret (Some Taken)"
  by (rule rename_failure_taken)
    (auto simp: thrown_error_def db_error_def error_text_def
      intro!: contains_strI [where a = "''An error occurred: ''" and b = "[]"])

lemma rename_failure_index [simp]: "rename_failure (tx_messages (unique_index_error i)) = ret (Some Taken)"
  by (rule rename_failure_taken)
    (simp add: is_unique_violation_index [unfolded is_unique_violation_def])

text \<open>The database after a rename, and when a rename may happen.\<close>

definition renamed_row :: "string \<Rightarrow> nat \<Rightarrow> user_row \<Rightarrow> user_row" where
  "renamed_row new t r = r\<lparr>ur_handle := Some new, ur_handle_changed_at := Some t\<rparr>"

definition renamed_db :: "string \<Rightarrow> string \<Rightarrow> string \<Rightarrow> nat \<Rightarrow> user_row \<Rightarrow> db \<Rightarrow> db" where
  "renamed_db u old new t r d = d\<lparr>tb_user := tab_put u (renamed_row new t r) (tb_user d),
     tb_reserve := tab_put old
       \<lparr>rr_handle = old, rr_usr_id = u, rr_new_handle = new, rr_expires_at = t + days 100\<rparr>
       (tab_delete_where (\<lambda>r. rr_usr_id r = u) (tb_reserve d))\<rparr>"

definition may_rename :: "string \<Rightarrow> string \<Rightarrow> string \<Rightarrow> user_row \<Rightarrow> db \<Rightarrow> bool" where
  "may_rename u old new r d \<longleftrightarrow> ur_handle r = Some old \<and> ur_account_type r = ''user'' \<and>
     index_free ur_handle u (Some new) (tb_user d)"

lemma rename_tx_cases:
  assumes "roster_inv d" and "cooldown_until u t d = None"
  shows "rename_tx u old new t d =
    (case tab_get (tb_user d) u of
       None \<Rightarrow> (Inl (thrown_error ''stale''), d)
     | Some r \<Rightarrow>
         if may_rename u old new r d then (Inr (), renamed_db u old new t r d)
         else if ur_handle r = Some old \<and> ur_account_type r = ''user''
         then (Inl (unique_index_error ''user_handle_idx''), d)
         else (Inl (thrown_error ''stale''), d))"
proof -
  have "cooldown_over t r" if "tab_get (tb_user d) u = Some r" "ur_account_type r = ''user''" for r
    using assms(2) that user_type_id [OF assms(1) that]
    by (auto simp: cooldown_until_def find_by_id_where [OF assms(1)] cooldown_over_def bind_eq_None_conv
        split: option.splits if_splits)
  then show ?thesis
    by (auto simp: rename_tx_def may_rename_def renamed_db_def renamed_row_def split: option.splits)
qed

text \<open>
  The specification of a rename, with its four outcomes in this order: within 30 days of the
  last rename it is refused with the time it becomes possible; a new handle that a live
  reservation keeps for somebody else is taken; when the row has the old handle, is a user's and
  nobody else has the new one, the row gets it and the old handle is reserved for 100 days in
  place of any earlier reservation; otherwise it is taken. Only the third changes the database.
\<close>

definition rename_spec :: "ext \<Rightarrow> string \<Rightarrow> string \<Rightarrow> string \<Rightarrow> nat \<Rightarrow> db \<Rightarrow> rename_outcome \<times> db" where
  "rename_spec x u old new t d =
    (case cooldown_until u t d of
       Some c \<Rightarrow> (Cooldown (x_time_str x c), d)
     | None \<Rightarrow>
         if reserved_for_other d t u new then (Taken, d)
         else case tab_get (tb_user d) u of
             None \<Rightarrow> (Taken, d)
           | Some r \<Rightarrow>
               if may_rename u old new r d
               then (Renamed (user_of x (renamed_row new t r)), renamed_db u old new t r d)
               else (Taken, d))"

lemma rename_handle_eq:
  assumes "alone w" and "roster_inv (w_db w)"
  shows "rename_handle x u old new w =
    (case rename_spec x u old new (w_now w) (w_db w) of (r, d) \<Rightarrow> (Inr r, w\<lparr>w_db := d\<rparr>))"
proof -
  let ?d = "w_db w" and ?t = "w_now w"
  note reserve = held_by_other_eq [OF assms(2)]
  have once: "rename_handle x u old new w = (Inr r, w')" if "rename_handle_once x u old new w = (Inr (Some r), w')" for r w'
    using that by (simp add: rename_handle_def)
  show ?thesis
  proof (cases "cooldown_until u ?t ?d")
    case (Some c)
    then show ?thesis
      using assms(1) by (auto intro!: once simp: rename_spec_def rename_handle_once_def quiet)
  next
    case None
    note tx = rename_tx_cases [OF assms(2) None, of old new]
    show ?thesis
    proof (cases "\<exists>r. \<not> reserved_for_other ?d ?t u new \<and> tab_get (tb_user ?d) u = Some r \<and> may_rename u old new r ?d")
      case False
      have "rename_handle_once x u old new w = (Inr (Some Taken), w)"
        using assms(1) None False tx
        by (auto simp: rename_handle_once_def quiet reserve split: option.splits)
      from once [OF this] False None show ?thesis by (auto simp: rename_spec_def split: option.split)
    next
      case True
      then obtain r where free: "\<not> reserved_for_other ?d ?t u new" and r: "tab_get (tb_user ?d) u = Some r"
        and may: "may_rename u old new r ?d" by blast
      let ?d' = "renamed_db u old new ?t r ?d"
      have tx': "rename_tx u old new ?t ?d = (Inr (), ?d')" using tx r may by simp
      have inv: "roster_inv ?d'" using roster_inv_rename [OF assms(2), of u old new ?t] tx' by simp
      have "find_user (\<lambda>r. ur_usr_id r = Some u) ?d' = Some (renamed_row new ?t r)"
        using may user_type_id [OF assms(2) r]
        by (simp add: find_by_id [OF inv]) (simp add: renamed_db_def renamed_row_def may_rename_def)
      then have "rename_handle_once x u old new w = (Inr (Some (Renamed (user_of x (renamed_row new ?t r)))), w\<lparr>w_db := ?d'\<rparr>)"
        using assms(1) None free tx'
        by (simp add: rename_handle_once_def quiet reserve renamed_row_def)
      from once [OF this] None free r may show ?thesis by (simp add: rename_spec_def)
    qed
  qed
qed

text \<open>
  left alone, a claim does what its specification says, and nothing else in the world
  changes.
\<close>

theorem claim_handle_refines:
  assumes "alone w" and "roster_inv (w_db w)"
  shows "claim_handle x u h w =
    (case claim_spec x u h (w_now w) (w_db w) of (r, d) \<Rightarrow> (Inr r, w\<lparr>w_db := d\<rparr>))"
  by (rule claim_handle_eq [OF assms])

text \<open>
  C21: left alone, a rename does what its specification says, and nothing else in the world
  changes.
\<close>

theorem rename_handle_refines:
  assumes "alone w" and "roster_inv (w_db w)"
  shows "rename_handle x u old new w =
    (case rename_spec x u old new (w_now w) (w_db w) of (r, d) \<Rightarrow> (Inr r, w\<lparr>w_db := d\<rparr>))"
  by (rule rename_handle_eq [OF assms])

section \<open>Under interference and faults\<close>

lemma roster_writes_keep:
  "keeps roster_inv (ensure_user x sub)" "keeps roster_inv (claim_handle x u h)"
  "keeps roster_inv (rename_handle x u old new)" "keeps roster_inv (set_display_name x u name)"
  by (auto intro!: keeps_ensure keeps_claim keeps_rename keeps_display roster_inv_create roster_inv_claim
      roster_inv_rename roster_inv_display)

text \<open>
  the roster's invariant survives everything: first contacts, claims, renames and display
  names in any interleaving with other clients that keep it, with any failing, refused or
  unanswered query, never produce two users with one handle or one subject, or one user with
  two reservations.
\<close>

theorem roster_invariant_kept:
  "keeps roster_inv (ensure_user x sub) \<and> keeps roster_inv (claim_handle x u h) \<and>
   keeps roster_inv (rename_handle x u old new) \<and> keeps roster_inv (set_display_name x u name)"
  by (intro conjI roster_writes_keep)

lemma returns_get_user_by_id:
  "returns I (get_user_by_id x u) (\<lambda>r. case r of None \<Rightarrow> True | Some e \<Rightarrow> ue_usr_id e = u)"
  unfolding get_user_by_id_def
  by (rule returns_select) (auto dest!: find_user_Some split: option.split)

lemma returns_get_user_by_sub:
  "returns I (get_user_by_sub x s) (\<lambda>r. case r of None \<Rightarrow> True | Some e \<Rightarrow> ue_creo_sub e = Some s)"
  unfolding get_user_by_sub_def
  by (rule returns_select) (auto dest!: find_user_Some split: option.split)

text \<open>
  whatever happens around it, a claim only ever answers with the claimer's own row and only
  when that row has the handle that was asked for: it never hands out somebody else's row.
\<close>

theorem claim_answers_with_own_row:
  "returns (\<lambda>_. True) (claim_handle x u h)
     (\<lambda>r. case r of None \<Rightarrow> True | Some e \<Rightarrow> ue_usr_id e = u \<and> ue_handle e = Some h)"
  unfolding claim_handle_def
proof (rule returns_retry)
  show "keeps (\<lambda>_. True) (claim_handle_once x u h)" by (rule keeps_claim_once) simp
  have own: "returns (\<lambda>_. True) (bnd (get_user_by_id x u) (\<lambda>u. ret (opt_filter (\<lambda>u. ue_handle u = Some h) u)))
     (\<lambda>r. case r of None \<Rightarrow> True | Some e \<Rightarrow> ue_usr_id e = u \<and> ue_handle e = Some h)"
    by (rule returns_bnd [OF returns_get_user_by_id roster_reads_keep(3)], rule returns_ret)
      (auto simp: opt_filter_def split: option.splits)
  show "returns (\<lambda>_. True) (claim_handle_once x u h)
     (\<lambda>r. case r of None \<Rightarrow> True | Some e \<Rightarrow> ue_usr_id e = u \<and> ue_handle e = Some h)"
    unfolding claim_handle_once_def
    by (intro returns_bnd [OF returns_True] keeps returns_if returns_sum returns_raise own)
      (simp_all add: returns_ret del: ret_apply)
qed

text \<open>
  First contact answers with a row of the subject that asked, also when it loses a race on the
  unique index: what holds of every such row holds of the answer.
\<close>

lemma ensure_user_returns:
  assumes row: "\<And>d r. I d \<Longrightarrow> find_user (\<lambda>r. ur_creo_sub r = Some s) d = Some r \<Longrightarrow> Q (user_of x r)"
    and create: "\<And>d u. I d \<Longrightarrow> I (snd (create_user u s d))"
  shows "returns I (ensure_user x s) Q"
  unfolding ensure_user_def
proof (rule returns_retry)
  show "keeps I (ensure_user_once x s)" using create by (rule keeps_ensure_once)
  have found: "returns I (get_user_by_sub x s) (\<lambda>r. case r of None \<Rightarrow> True | Some e \<Rightarrow> Q e)"
    unfolding get_user_by_sub_def by (rule returns_select) (auto simp: row split: option.split)
  have reread: "returns I (bnd (get_user_by_sub x s) (\<lambda>u. case u of Some u \<Rightarrow> ret u
       | None \<Rightarrow> raise (anyhow ''user row vanished right after ensure_user''))) Q"
    by (rule returns_bnd [OF found roster_reads_keep(1)])
      (auto split: option.split simp del: ret_apply raise_apply intro: returns_ret returns_raise)
  have created: "keeps I (query (\<lambda>t. create_user u s))" for u by (rule keeps_query) (rule create)
  show "returns I (ensure_user_once x s) Q"
    unfolding ensure_user_once_def Let_def
  proof (rule returns_bnd [OF found roster_reads_keep(1)])
    fix r :: "user_entry option"
    assume r: "case r of None \<Rightarrow> True | Some e \<Rightarrow> Q e"
    show "returns I (case r of Some u \<Rightarrow> ret u | None \<Rightarrow> bnd new_usr_id (\<lambda>usr_id.
        bnd (query (\<lambda>t. create_user usr_id s)) (\<lambda>created. case created of
           Inr _ \<Rightarrow> bnd (get_user_by_sub x s) (\<lambda>u. case u of Some u \<Rightarrow> ret u
             | None \<Rightarrow> raise (anyhow ''user row vanished right after ensure_user''))
         | Inl e \<Rightarrow> if is_unique_violation e then bnd (get_user_by_sub x s) (\<lambda>u. case u of Some u \<Rightarrow> ret u
             | None \<Rightarrow> raise (anyhow ''user row vanished right after ensure_user'')) else raise e))) Q"
      using r by (cases r) (auto simp del: ret_apply simp: returns_ret
          intro!: returns_bnd [OF returns_True] roster_reads_keep(7) created returns_if returns_sum returns_raise reread)
  qed
qed

lemma ensure_user_answers_for_subject: "returns (\<lambda>_. True) (ensure_user x s) (\<lambda>e. ue_creo_sub e = Some s)"
  by (rule ensure_user_returns) (auto dest: find_user_Some)

definition has_handle :: "string \<Rightarrow> string \<Rightarrow> db \<Rightarrow> bool" where
  "has_handle v h d \<longleftrightarrow> (case tab_get (tb_user d) v of None \<Rightarrow> False | Some r \<Rightarrow> ur_handle r = Some h)"

text \<open>
  a handle is only ever changed by a rename of its own owner: claims, first contacts and
  display names of anybody, and renames by anybody else, leave a handle where it is.
\<close>

theorem only_own_rename_changes_handle:
  assumes "u \<noteq> v"
  shows "keeps (has_handle v h) (claim_handle x u' h') \<and> keeps (has_handle v h) (ensure_user x sub) \<and>
     keeps (has_handle v h) (set_display_name x u' name) \<and> keeps (has_handle v h) (rename_handle x u old new)"
  using assms
  by (intro conjI keeps_ensure keeps_claim keeps_rename keeps_display)
    (auto simp: has_handle_def create_user_def claim_update_def rename_tx_def tab.get_put tab_get_update
      split: option.splits)

definition rename_state :: "string \<Rightarrow> string \<Rightarrow> string \<Rightarrow> db \<Rightarrow> bool" where
  "rename_state u old new d \<longleftrightarrow> has_handle u old d \<or>
     has_handle u new d \<and> map_option rr_usr_id (tab_get (tb_reserve d) old) = Some u"

text \<open>
  C22: a rename is never half done: whatever fails and whatever the others do (short of undoing
  it), the row has the old handle, or it has the new one and the old one is reserved for it.
\<close>

theorem rename_never_half_done:
  "keeps (rename_state u old new) (rename_handle x u old new)"
  by (rule keeps_rename)
    (auto simp: rename_state_def has_handle_def rename_tx_def tab.get_put split: option.splits)

section \<open>The reservation of a former handle\<close>

lemma cooldown_until_after:
  assumes "roster_inv d" and "ur_usr_id r = Some u" and "tab_get (tb_user d) u = Some r"
  shows "cooldown_until u t d = (if cooldown_over t r then None else map_option (\<lambda>c. c + days 30) (ur_handle_changed_at r))"
  using assms by (simp add: cooldown_until_def find_by_id_where)

lemma renamed_inversion:
  assumes "alone w" and "roster_inv (w_db w)" and "rename_handle x u old new w = (Inr (Renamed e), w')"
  obtains r where "tab_get (tb_user (w_db w)) u = Some r" "may_rename u old new r (w_db w)"
    "w' = w\<lparr>w_db := renamed_db u old new (w_now w) r (w_db w)\<rparr>"
    "e = user_of x (renamed_row new (w_now w) r)" "roster_inv (w_db w')"
proof -
  have "roster_inv (w_db w')"
    using keepsD [OF roster_writes_keep(3) stable_alone [of w roster_inv, OF assms(1,2)], of x u old new] assms(3)
    by (simp add: stable_def)
  with assms(3) show thesis
    by (auto simp: rename_handle_eq [OF assms(1,2)] rename_spec_def split: option.splits if_splits intro: that)
qed

text \<open>
  A former handle is kept for its owner for 100 days: after a successful rename, and as long
  as nothing else is written, nobody else can claim the old handle, or rename to it, before the
  100 days are over, while a visitor of the old handle is led to the user under the new one; at
  100 days a user without a handle gets it.
\<close>

theorem former_handle_reserved:
  assumes "alone w" and "roster_inv (w_db w)" and "rename_handle x u old new w = (Inr (Renamed e), w')"
    and "alone w2" and "w_db w2 = w_db w'" and "u \<noteq> v" and "old \<noteq> new"
  shows "if w_now w2 < w_now w + days 100
     then claim_handle x v old w2 = (Inr None, w2) \<and>
          rename_handle x v h old w2 \<in> {(Inr Taken, w2)} \<union> range (\<lambda>c. (Inr (Cooldown c), w2)) \<and>
          resolve_moved_handle x old w2 = (Inr (Some e), w2) \<and> ue_handle e = Some new
     else resolve_moved_handle x old w2 = (Inr None, w2) \<and>
          (case tab_get (tb_user (w_db w2)) v of
             Some r \<Rightarrow> ur_handle r = None \<and> ur_account_type r = ''user'' \<longrightarrow>
                fst (claim_handle x v old w2) = Inr (Some (user_of x (r\<lparr>ur_handle := Some old\<rparr>)))
           | None \<Rightarrow> True)"
proof -
  obtain r where r: "tab_get (tb_user (w_db w)) u = Some r" and may: "may_rename u old new r (w_db w)"
    and d: "w_db w2 = renamed_db u old new (w_now w) r (w_db w)"
    and e: "e = user_of x (renamed_row new (w_now w) r)" and inv: "roster_inv (w_db w2)"
    using renamed_inversion [OF assms(1-3)] assms(5) by force
  have id: "ur_usr_id r = Some u"
    using may user_type_id [OF assms(2) r] by (simp add: may_rename_def)
  have reserve: "tab_get (tb_reserve (w_db w2)) old =
      Some \<lparr>rr_handle = old, rr_usr_id = u, rr_new_handle = new, rr_expires_at = w_now w + days 100\<rparr>"
    by (simp add: d renamed_db_def)
  have owner: "tab_get (tb_user (w_db w2)) u = Some (renamed_row new (w_now w) r)"
    by (simp add: d renamed_db_def)
  have live: "live_reserve (\<lambda>r. rr_handle r = old) (w_now w2) (w_db w2) =
      (if w_now w2 < w_now w + days 100 then tab_get (tb_reserve (w_db w2)) old else None)"
    by (simp add: live_reserve_eq [OF inv] reserve)
  have held: "reserved_for_other (w_db w2) (w_now w2) v old \<longleftrightarrow> w_now w2 < w_now w + days 100"
    using assms(6) by (simp add: reserved_for_other_def reserve)
  have gone: "find_user (\<lambda>r. ur_handle r = Some old) (w_db w2) = None"
  proof -
    have "ur_handle r' \<noteq> Some old" if "(k, r') \<in> set (tb_user (w_db w))" "k \<noteq> u" for k r'
      using that assms(2) may tab_get_in [OF r] unfolding roster_inv_def indexed_def may_rename_def by blast
    then show ?thesis
      using assms(2,7)
      by (auto simp: find_by_handle_None d renamed_db_def renamed_row_def set_tab_put roster_inv_def)
  qed
  have moved: "resolve_moved_handle x old w2 = (Inr (if w_now w2 < w_now w + days 100 then Some e else None), w2)"
    using assms(4) may id
    by (simp add: resolve_moved_handle_def quiet live reserve find_by_id [OF inv] owner e renamed_row_def may_rename_def)
  have "ue_handle e = Some new" by (simp add: e renamed_row_def)
  then show ?thesis
    using moved held gone assms(4)
    by (auto simp: claim_handle_eq [OF assms(4) inv] rename_handle_eq [OF assms(4) inv] claim_spec_def
        rename_spec_def handle_available_def split: option.splits)
qed

section \<open>A race that the reservation loses\<close>

definition ann :: user_row where
  "ann = (fresh_user ''usr_a'' ''sub_a'')\<lparr>ur_handle := Some ''ann''\<rparr>"

definition bob :: user_row where
  "bob = (fresh_user ''usr_b'' ''sub_b'')\<lparr>ur_handle := Some ''bob''\<rparr>"

definition cid :: user_row where
  "cid = fresh_user ''usr_c'' ''sub_c''"

definition roster_db :: db where
  "roster_db = empty_db\<lparr>tb_user := [(''usr_a'', ann), (''usr_b'', bob), (''usr_c'', cid)]\<rparr>"

text \<open>Ann renames herself to \<open>eve\<close> just before the transaction of the running request.\<close>

definition ann_renames_meanwhile :: world where
  "ann_renames_meanwhile = world_of roster_db
     [calm, calm, calm\<lparr>es_others := (\<lambda>d. snd (rename_tx ''usr_a'' ''ann'' ''eve'' 0 d))\<rparr>]"

lemmas row_simps = ann_def bob_def cid_def fresh_user_def

text \<open>
  the reservation can be lost to a race: it is looked up before the transaction that
  renames, so when the owner of a handle renames between the two, the other user's transaction
  finds the handle free and takes it, although it is reserved for its former owner from that
  moment on.
\<close>

theorem rename_race_takes_reserved_handle:
  "\<exists>e w'. rename_handle an_ext ''usr_b'' ''bob'' ''ann'' ann_renames_meanwhile = (Inr (Renamed e), w') \<and>
     has_handle ''usr_b'' ''ann'' (w_db w') \<and> reserved_for_other (w_db w') (w_now w') ''usr_b'' ''ann''"
  by (simp add: ann_renames_meanwhile_def rename_handle_def rename_handle_once_def select_def run_def bnd_def
      query_def calm_def world_of_def roster_db_def empty_db_def cooldown_until_def find_user_def tab_where_def
      row_simps cooldown_over_def get_reserve_def live_reserve_def held_by_other_def rename_tx_def tab_get_def
      index_free_def tab_put_def tab_delete_where_def get_user_by_id_def user_of_def has_handle_def
      reserved_for_other_def)

section \<open>Concrete instances\<close>

lemma roster_db_inv: "roster_inv roster_db"
  by (auto simp: roster_inv_def roster_db_def empty_db_def tab_ok_def indexed_def rows_ok_def user_row_ok_def row_simps)

theorem claim_handle_refines_witness:
  "claim_handle an_ext ''usr_c'' ''cid'' (a_world roster_db) =
     (case claim_spec an_ext ''usr_c'' ''cid'' 0 roster_db of (r, d) \<Rightarrow> (Inr r, a_world d)) \<and>
   fst (claim_spec an_ext ''usr_c'' ''cid'' 0 roster_db) = Some (user_of an_ext (cid\<lparr>ur_handle := Some ''cid''\<rparr>))"
  using claim_handle_refines [of "a_world roster_db" an_ext "''usr_c''" "''cid''"]
  by (simp add: roster_db_inv)
    (simp add: claim_spec_def handle_available_def reserved_for_other_def find_user_def tab_where_def roster_db_def
      empty_db_def tab_get_def row_simps)

theorem rename_handle_refines_witness:
  "rename_handle an_ext ''usr_a'' ''ann'' ''eve'' (a_world roster_db) =
     (case rename_spec an_ext ''usr_a'' ''ann'' ''eve'' 0 roster_db of (r, d) \<Rightarrow> (Inr r, a_world d)) \<and>
   fst (rename_spec an_ext ''usr_a'' ''ann'' ''eve'' 0 roster_db) = Renamed (user_of an_ext (renamed_row ''eve'' 0 ann))"
  using rename_handle_refines [of "a_world roster_db" an_ext "''usr_a''" "''ann''" "''eve''"]
  by (simp add: roster_db_inv)
    (simp add: rename_spec_def cooldown_until_def cooldown_over_def reserved_for_other_def find_user_def tab_where_def
      roster_db_def empty_db_def tab_get_def row_simps may_rename_def index_free_def)

theorem only_own_rename_witness:
  "keeps (has_handle ''usr_a'' ''ann'') (rename_handle an_ext ''usr_b'' ''bob'' ''ann'') \<and>
   has_handle ''usr_a'' ''ann'' roster_db"
  using only_own_rename_changes_handle [where u = "''usr_b''" and v = "''usr_a''" and h = "''ann''" and x = an_ext and old = "''bob''" and new = "''ann''"]
  by (simp add: has_handle_def roster_db_def tab_get_def row_simps)

theorem former_handle_reserved_witness:
  "\<exists>w'. fst (claim_handle an_ext ''usr_c'' ''ann'' (w'\<lparr>w_now := days 99\<rparr>)) = Inr None \<and>
     fst (claim_handle an_ext ''usr_c'' ''ann'' (w'\<lparr>w_now := days 100\<rparr>)) =
       Inr (Some (user_of an_ext (cid\<lparr>ur_handle := Some ''ann''\<rparr>)))"
proof -
  let ?w' = "a_world (renamed_db ''usr_a'' ''ann'' ''eve'' 0 ann roster_db)"
  have "rename_spec an_ext ''usr_a'' ''ann'' ''eve'' 0 roster_db =
      (Renamed (user_of an_ext (renamed_row ''eve'' 0 ann)), renamed_db ''usr_a'' ''ann'' ''eve'' 0 ann roster_db)"
    by (simp add: rename_spec_def cooldown_until_def cooldown_over_def reserved_for_other_def find_user_def tab_where_def
      roster_db_def empty_db_def tab_get_def row_simps may_rename_def index_free_def)
  then have r: "rename_handle an_ext ''usr_a'' ''ann'' ''eve'' (a_world roster_db) =
      (Inr (Renamed (user_of an_ext (renamed_row ''eve'' 0 ann))), ?w')"
    by (simp add: rename_handle_eq roster_db_inv)
  have cid: "tab_get (tb_user (renamed_db ''usr_a'' ''ann'' ''eve'' 0 ann roster_db)) ''usr_c'' = Some cid"
    by (simp add: renamed_db_def roster_db_def tab_get_def tab_put_def)
  show ?thesis
    using former_handle_reserved [OF alone_a_world _ r, of "?w'\<lparr>w_now := days 99\<rparr>" "''usr_c''"]
      former_handle_reserved [OF alone_a_world _ r, of "?w'\<lparr>w_now := days 100\<rparr>" "''usr_c''"]
    by (intro exI [of _ ?w']) (simp add: roster_db_inv cid cid_def fresh_user_def)
qed

end
