(* ===== verification/App_Roster.thy ===== *)
theory App_Roster
  imports Hub_World "HOL-Library.Multiset"
begin

text \<open>
  The roster of applications: the table \<open>app\<close> and the operations on it
  (\<open>crates/chronista-hub-server/src/storage.rs\<close>). A registration replaces what the admin API
  manages and keeps the fields that it does not.
\<close>

definition get_app_manifest :: "string \<Rightarrow> app_manifest option hub" where
  "get_app_manifest app_id = select (\<lambda>t d. map_option (\<lambda>r.
     \<lparr>am_app_id = app_id, am_name = ae_name (ar_entry r),
      am_version = (case Option.bind (ar_manifest_version r) as_str of Some v \<Rightarrow> v | None \<Rightarrow> ''0.0.0''),
      am_permissions = map_option strings_of (Option.bind (ar_scopes r) as_array)\<rparr>)
     (tab_get (tb_app d) app_id))"

definition is_active :: "app_row \<Rightarrow> bool" where
  "is_active r \<longleftrightarrow> ae_status (ar_entry r) = Active"

definition list_active_apps :: "app_entry list hub" where
  "list_active_apps = select (\<lambda>t d. sort_key ae_app_id (map ar_entry (tab_where is_active (tb_app d))))"

definition get_active_app :: "string \<Rightarrow> app_entry option hub" where
  "get_active_app app_id = select (\<lambda>t d. map_option ar_entry
     (first_of (tab_where (\<lambda>r. ae_app_id (ar_entry r) = app_id \<and> is_active r) (tb_app d))))"

definition all_app_ids :: "string list hub" where
  "all_app_ids = select (\<lambda>t d. map (\<lambda>r. ae_app_id (ar_entry r)) (tab_rows (tb_app d)))"

text \<open>The content that \<open>put_app\<close> writes: the entry, with the kept fields of the row it has read.\<close>

definition app_content :: "app_row option \<Rightarrow> app_entry \<Rightarrow> app_row" where
  "app_content existing entry =
     (case existing of
        None \<Rightarrow> \<lparr>ar_entry = entry, ar_scopes = None, ar_verified = None, ar_manifest_version = None,
                 ar_public_key_jwks_uri = None\<rparr>
      | Some old \<Rightarrow> \<lparr>ar_entry = entry, ar_scopes = ar_scopes old, ar_verified = ar_verified old,
                 ar_manifest_version = ar_manifest_version old,
                 ar_public_key_jwks_uri = ar_public_key_jwks_uri old\<rparr>)"

definition put_app :: "app_entry \<Rightarrow> unit hub" where
  "put_app entry =
     bnd (select (\<lambda>t d. tab_get (tb_app d) (ae_app_id entry))) (\<lambda>existing.
     run (\<lambda>t d. (Inr (), d\<lparr>tb_app := tab_put (ae_app_id entry) (app_content existing entry) (tb_app d)\<rparr>)))"

section \<open>The invariant\<close>

definition app_inv :: "db \<Rightarrow> bool" where
  "app_inv d \<longleftrightarrow> tab_ok (tb_app d) \<and> rows_ok (\<lambda>k r. ae_app_id (ar_entry r) = k) (tb_app d)"

lemma app_content_entry [simp]: "ar_entry (app_content old e) = e"
  by (simp add: app_content_def split: option.split)

lemma app_reads_keep [keeps]:
  "keeps I (get_app_manifest a)" "keeps I list_active_apps" "keeps I (get_active_app a)" "keeps I all_app_ids"
  unfolding get_app_manifest_def list_active_apps_def get_active_app_def all_app_ids_def by (intro keeps)+

lemma app_reads [reads]:
  "reads (get_app_manifest a)" "reads list_active_apps" "reads (get_active_app a)" "reads all_app_ids"
  unfolding get_app_manifest_def list_active_apps_def get_active_app_def all_app_ids_def by (intro reads)+

lemma keeps_put_app:
  "(\<And>d old. I d \<Longrightarrow> I (d\<lparr>tb_app := tab_put (ae_app_id e) (app_content old e) (tb_app d)\<rparr>)) \<Longrightarrow> keeps I (put_app e)"
  unfolding put_app_def by (intro keeps) simp

lemma app_inv_put: "app_inv d \<Longrightarrow> app_inv (d\<lparr>tb_app := tab_put (ae_app_id e) (app_content old e) (tb_app d)\<rparr>)"
  by (auto simp: app_inv_def tab.ok_put intro!: rows_ok_put)

lemma put_app_keeps_inv: "keeps app_inv (put_app e)"
  by (rule keeps_put_app) (rule app_inv_put)

lemma active_app_eq:
  assumes "app_inv d"
  shows "first_of (tab_where (\<lambda>r. ae_app_id (ar_entry r) = a \<and> is_active r) (tb_app d)) =
    opt_filter is_active (tab_get (tb_app d) a)"
  using assms first_where_key [of "tb_app d" "\<lambda>r. ae_app_id (ar_entry r)" a is_active]
  by (simp add: app_inv_def)

section \<open>Properties\<close>

text \<open>
  left alone, a registration makes the application exactly what was registered and keeps
  what the admin API does not manage: scopes, verification, manifest version and key URI stay,
  and no other application changes.
\<close>

theorem put_app_keeps_foreign_fields:
  assumes "alone w"
  shows "fst (put_app e w) = Inr () \<and>
     tab_get (tb_app (w_db (snd (put_app e w)))) = (tab_get (tb_app (w_db w)))
       (ae_app_id e \<mapsto> app_content (tab_get (tb_app (w_db w)) (ae_app_id e)) e) \<and>
     fst (get_app_manifest (ae_app_id e) (snd (put_app e w))) = Inr (Some
       \<lparr>am_app_id = ae_app_id e, am_name = ae_name e,
        am_version = (case fst (get_app_manifest (ae_app_id e) w) of Inr (Some m) \<Rightarrow> am_version m | _ \<Rightarrow> ''0.0.0''),
        am_permissions = (case fst (get_app_manifest (ae_app_id e) w) of Inr (Some m) \<Rightarrow> am_permissions m | _ \<Rightarrow> None)\<rparr>)"
  using assms
  by (cases "tab_get (tb_app (w_db w)) (ae_app_id e)")
    (simp_all add: put_app_def get_app_manifest_def quiet tab.get_put app_content_def)

text \<open>
  the public list of applications is exactly the active ones, in the order of their ids.
\<close>

theorem list_active_apps_exact:
  assumes "alone w"
  shows "\<exists>apps. list_active_apps w = (Inr apps, w) \<and> sorted (map ae_app_id apps) \<and>
     mset apps = mset (filter (\<lambda>e. ae_status e = Active) (map ar_entry (tab_rows (tb_app (w_db w)))))"
  using assms
  by (simp add: list_active_apps_def quiet tab_where_def tab_rows_def is_active_def [abs_def] filter_map comp_def)

section \<open>Concrete instances\<close>

definition an_app :: app_entry where
  "an_app = \<lparr>ae_app_id = ''gfp'', ae_name = ''GFP'', ae_description = None, ae_icon_url = None, ae_home_url = None,
     ae_login_url = None, ae_manifest_url = None, ae_status = Active\<rparr>"

definition app_db :: db where
  "app_db = empty_db\<lparr>tb_app := [(''gfp'', \<lparr>ar_entry = an_app, ar_scopes = Some (json_strings [''events'']),
     ar_verified = None, ar_manifest_version = Some (JStr ''1.2.0''), ar_public_key_jwks_uri = None\<rparr>)]\<rparr>"

theorem put_app_keeps_foreign_fields_witness:
  "fst (get_app_manifest ''gfp'' (snd (put_app (an_app\<lparr>ae_name := ''Packing''\<rparr>) (a_world app_db)))) =
     Inr (Some \<lparr>am_app_id = ''gfp'', am_name = ''Packing'', am_version = ''1.2.0'', am_permissions = Some [''events'']\<rparr>)"
proof -
  have "fst (get_app_manifest ''gfp'' (a_world app_db)) =
     Inr (Some \<lparr>am_app_id = ''gfp'', am_name = ''GFP'', am_version = ''1.2.0'', am_permissions = Some [''events'']\<rparr>)"
    by (simp add: get_app_manifest_def quiet app_db_def tab_get_def an_app_def json_strings_def strings_of_def
        List.map_filter_simps)
  then show ?thesis
    using put_app_keeps_foreign_fields [of "a_world app_db" "an_app\<lparr>ae_name := ''Packing''\<rparr>"]
    by (simp add: an_app_def)
qed

theorem list_active_apps_witness:
  "list_active_apps (a_world app_db) = (Inr [an_app], a_world app_db)"
  using list_active_apps_exact [of "a_world app_db"]
  by (auto simp: app_db_def tab_rows_def an_app_def)

end
