(* ===== verification/Publication_Store.thy ===== *)
theory Publication_Store
  imports User_Roster
begin

text \<open>
  Organisations, their members and the publications
  (\<open>crates/chronista-hub-server/src/storage.rs\<close>, tables \<open>org_membership\<close> and \<open>publication\<close> of
  \<open>migrations/013\<close>).
\<close>

section \<open>Members\<close>

definition membership_role :: "string \<Rightarrow> string \<Rightarrow> string option hub" where
  "membership_role org member = select (\<lambda>t d. map_option mr_role
     (first_of (filter (\<lambda>r. mr_org_user r = org \<and> mr_member_user r = member) (tb_member d))))"

definition MEMBER_ROLES :: "string list" where
  "MEMBER_ROLES = [''owner'', ''admin'', ''member'', ''guest'']"

text \<open>\<open>CREATE org_membership\<close> under the assertion on \<open>role\<close> and the unique pair.\<close>

definition add_member :: "string \<Rightarrow> string \<Rightarrow> string \<Rightarrow> unit hub" where
  "add_member org member role = run (\<lambda>t d.
     if role \<notin> set MEMBER_ROLES then (Inl field_assert_error, d)
     else if list_ex (\<lambda>r. mr_org_user r = org \<and> mr_member_user r = member) (tb_member d)
     then (Inl (unique_index_error ''org_membership_pair_idx''), d)
     else (Inr (), d\<lparr>tb_member := tb_member d @
       [\<lparr>mr_org_user = org, mr_member_user = member, mr_role = role, mr_joined_at = t\<rparr>]\<rparr>))"

text \<open>The loop of \<open>orgs_of\<close>, with its accumulator \<open>out\<close>.\<close>

fun collect_orgs :: "ext \<Rightarrow> member_row list \<Rightarrow> (user_entry \<times> string) list \<Rightarrow> (user_entry \<times> string) list hub" where
  "collect_orgs x [] out = ret out"
| "collect_orgs x (r # rows) out =
     bnd (get_user_by_id x (mr_org_user r)) (\<lambda>org.
     case org of
       Some org \<Rightarrow>
         (if is_organization org \<and> ue_handle org \<noteq> None then collect_orgs x rows (out @ [(org, mr_role r)])
          else collect_orgs x rows out)
     | None \<Rightarrow> collect_orgs x rows out)"

definition orgs_of :: "ext \<Rightarrow> string \<Rightarrow> (user_entry \<times> string) list hub" where
  "orgs_of x member =
     bnd (select (\<lambda>t d. sort_key mr_joined_at (filter (\<lambda>r. mr_member_user r = member) (tb_member d))))
       (\<lambda>rows. collect_orgs x rows [])"

section \<open>Publications\<close>

definition publication_of :: "ext \<Rightarrow> publication_row \<Rightarrow> publication" where
  "publication_of x r = \<lparr>pb_publisher = pr_publisher r, pb_slug = pr_slug r, pb_url = pr_url r,
     pb_title = pr_title r, pb_app_id = pr_app_id r, pb_updated_at = Some (x_time_str x (pr_updated_at r))\<rparr>"

definition list_publications :: "ext \<Rightarrow> string \<Rightarrow> publication list hub" where
  "list_publications x p = select (\<lambda>t d. map (publication_of x)
     (sort_key pr_slug (tab_where (\<lambda>r. pr_publisher r = p) (tb_publication d))))"

definition get_publication :: "ext \<Rightarrow> string \<Rightarrow> string \<Rightarrow> publication option hub" where
  "get_publication x p s = select (\<lambda>t d. map_option (publication_of x)
     (first_of (tab_where (\<lambda>r. pr_publisher r = p \<and> pr_slug r = s) (tb_publication d))))"

text \<open>The assertions of the table, and the row that \<open>UPSERT .. SET\<close> leaves.\<close>

definition publication_assert :: "publication \<Rightarrow> bool" where
  "publication_assert p \<longleftrightarrow> ident_word (pb_slug p) \<and> length (pb_slug p) \<le> 63 \<and> prefix ''https://'' (pb_url p)"

definition publication_row_of :: "publication \<Rightarrow> string \<Rightarrow> nat \<Rightarrow> publication_row option \<Rightarrow> publication_row" where
  "publication_row_of p actor t old = \<lparr>pr_publisher = pb_publisher p, pr_slug = pb_slug p, pr_url = pb_url p,
     pr_title = pb_title p, pr_app_id = pb_app_id p, pr_updated_by = Some actor,
     pr_created_at = (case old of Some r \<Rightarrow> pr_created_at r | None \<Rightarrow> t), pr_updated_at = t\<rparr>"

definition upsert_publication :: "publication \<Rightarrow> string \<Rightarrow> nat \<Rightarrow> db \<Rightarrow> (error + unit) \<times> db" where
  "upsert_publication p actor t d =
     (let k = (pb_publisher p, pb_slug p)
      in if \<not> publication_assert p then (Inl field_assert_error, d)
         else (Inr (), d\<lparr>tb_publication :=
           tab_put k (publication_row_of p actor t (tab_get (tb_publication d) k)) (tb_publication d)\<rparr>))"

definition put_publication :: "ext \<Rightarrow> publication \<Rightarrow> string \<Rightarrow> bool hub" where
  "put_publication x p actor = retry_on_conflict (
     bnd (get_publication x (pb_publisher p) (pb_slug p)) (\<lambda>existing.
     bnd (run (upsert_publication p actor)) (\<lambda>_. ret (existing = None))))"

definition delete_publication :: "string \<Rightarrow> string \<Rightarrow> bool hub" where
  "delete_publication p s = run (\<lambda>t d.
     (Inr (tab_get (tb_publication d) (p, s) \<noteq> None), d\<lparr>tb_publication := tab_del (p, s) (tb_publication d)\<rparr>))"

section \<open>The invariant\<close>

text \<open>
  A publication is stored under its publisher and slug and satisfies the table's assertions, and
  nobody is twice a member of an organisation.
\<close>

definition publication_row_ok :: "string \<times> string \<Rightarrow> publication_row \<Rightarrow> bool" where
  "publication_row_ok k r \<longleftrightarrow> k = (pr_publisher r, pr_slug r) \<and> ident_word (pr_slug r) \<and>
     length (pr_slug r) \<le> 63 \<and> prefix ''https://'' (pr_url r)"

definition publication_inv :: "db \<Rightarrow> bool" where
  "publication_inv d \<longleftrightarrow> tab_ok (tb_publication d) \<and> rows_ok publication_row_ok (tb_publication d) \<and>
     distinct (map (\<lambda>r. (mr_org_user r, mr_member_user r)) (tb_member d))"

lemma publication_inv_empty: "publication_inv empty_db"
  by (simp add: publication_inv_def empty_db_def)

lemma publication_inv_upsert: "publication_inv d \<Longrightarrow> publication_inv (snd (upsert_publication p a t d))"
  by (auto simp: upsert_publication_def Let_def publication_inv_def publication_assert_def publication_row_ok_def
      publication_row_of_def tab.ok_put intro!: rows_ok_put)

lemma publication_inv_del: "publication_inv d \<Longrightarrow> publication_inv (d\<lparr>tb_publication := tab_del k (tb_publication d)\<rparr>)"
  by (simp add: publication_inv_def tab.ok_del rows_ok_del)

lemma publication_reads_keep [keeps]:
  "keeps I (membership_role o' m)" "keeps I (list_publications x p)" "keeps I (get_publication x p s)"
  unfolding membership_role_def list_publications_def get_publication_def by (intro keeps)+

lemma keeps_collect_orgs: "keeps I (collect_orgs x rows out)"
proof (induction rows arbitrary: out)
  case (Cons r rows)
  then show ?case unfolding collect_orgs.simps by (intro keeps)
qed (simp add: keeps_ret del: ret_apply)

lemma keeps_orgs_of [keeps]: "keeps I (orgs_of x m)"
  unfolding orgs_of_def by (intro keeps keeps_collect_orgs)

lemma publication_reads [reads]:
  "reads (membership_role o' m)" "reads (list_publications x p)" "reads (get_publication x p s)"
  unfolding membership_role_def list_publications_def get_publication_def by (intro reads)+

lemma reads_orgs_of [reads]: "reads (orgs_of x m)"
proof -
  have "reads (collect_orgs x rows out)" for rows out
  proof (induction rows arbitrary: out)
    case (Cons r rows)
    then show ?case unfolding collect_orgs.simps by (intro reads)
  qed (simp add: reads_basic del: ret_apply)
  then show ?thesis unfolding orgs_of_def by (intro reads)
qed

lemma keeps_put_publication:
  "(\<And>d t. I d \<Longrightarrow> I (snd (upsert_publication p a t d))) \<Longrightarrow> keeps I (put_publication x p a)"
  unfolding put_publication_def by (intro keeps)

lemma keeps_delete_publication:
  "(\<And>d. I d \<Longrightarrow> I (d\<lparr>tb_publication := tab_del (p, s) (tb_publication d)\<rparr>)) \<Longrightarrow> keeps I (delete_publication p s)"
  unfolding delete_publication_def by (intro keeps) simp

lemma keeps_add_member:
  assumes "\<And>d t. I d \<Longrightarrow> \<not> list_ex (\<lambda>r. mr_org_user r = o' \<and> mr_member_user r = m) (tb_member d) \<Longrightarrow>
    I (d\<lparr>tb_member := tb_member d @ [\<lparr>mr_org_user = o', mr_member_user = m, mr_role = r, mr_joined_at = t\<rparr>]\<rparr>)"
  shows "keeps I (add_member o' m r)"
  unfolding add_member_def by (intro keeps) (simp add: assms)

lemma publication_writes_keep:
  "keeps publication_inv (put_publication x p a)" "keeps publication_inv (delete_publication u s)"
  "keeps publication_inv (add_member o' m r)"
  by (auto intro!: keeps_put_publication keeps_delete_publication keeps_add_member publication_inv_upsert
      publication_inv_del) (auto simp: publication_inv_def list_ex_iff)

text \<open>Reading by publisher and slug is reading by key.\<close>

lemma publication_by_key:
  assumes "publication_inv d"
  shows "first_of (tab_where (\<lambda>r. pr_publisher r = p \<and> pr_slug r = s) (tb_publication d)) =
    tab_get (tb_publication d) (p, s)"
proof -
  have "rows_ok (\<lambda>k r. (pr_publisher r, pr_slug r) = k) (tb_publication d)"
    using assms by (auto simp: publication_inv_def publication_row_ok_def rows_ok_def)
  from first_where_key_only [OF _ this, of "(p, s)"] show ?thesis
    using assms by (simp add: publication_inv_def)
qed

lemma get_publication_alone [quiet]:
  "alone w \<Longrightarrow> publication_inv (w_db w) \<Longrightarrow>
   get_publication x p s w = (Inr (map_option (publication_of x) (tab_get (tb_publication (w_db w)) (p, s))), w)"
  by (simp add: get_publication_def quiet publication_by_key)

section \<open>Properties\<close>

text \<open>
  under any interference that keeps it and any faults, registering and deleting publications
  and adding members keep the invariant: every publication is stored under its publisher and
  slug, its slug has the shape of a slug, its link is an https link, and nobody is twice a
  member of one organisation.
\<close>

theorem publication_invariant_kept:
  "keeps publication_inv (put_publication x p a) \<and> keeps publication_inv (delete_publication u s) \<and>
   keeps publication_inv (add_member o' m r)"
  by (intro conjI publication_writes_keep)

lemma put_publication_alone:
  assumes "alone w" and "publication_inv (w_db w)" and "publication_assert p"
  shows "put_publication x p a w =
    (Inr (tab_get (tb_publication (w_db w)) (pb_publisher p, pb_slug p) = None),
     w\<lparr>w_db := snd (upsert_publication p a (w_now w) (w_db w))\<rparr>)"
proof -
  have "fst (upsert_publication p a (w_now w) (w_db w)) = Inr ()"
    using assms(3) by (simp add: upsert_publication_def Let_def)
  then obtain d where "upsert_publication p a (w_now w) (w_db w) = (Inr (), d)"
    by (cases "upsert_publication p a (w_now w) (w_db w)") auto
  then show ?thesis
    unfolding put_publication_def
    by (intro retry_once) (use assms in \<open>simp add: quiet\<close>)
qed

text \<open>
  left alone, registering a publication answers whether it is new, and afterwards it reads
  back as it was given with the present time; the time of the first registration stays, and no
  other publication changes.
\<close>

theorem put_publication_reads_back:
  assumes "alone w" and "publication_inv (w_db w)" and "publication_assert p"
  shows "\<exists>w'. put_publication x p a w =
        (Inr (tab_get (tb_publication (w_db w)) (pb_publisher p, pb_slug p) = None), w') \<and>
     get_publication x (pb_publisher p) (pb_slug p) w' =
        (Inr (Some (p\<lparr>pb_updated_at := Some (x_time_str x (w_now w))\<rparr>)), w') \<and>
     map_option pr_created_at (tab_get (tb_publication (w_db w')) (pb_publisher p, pb_slug p)) =
        (case tab_get (tb_publication (w_db w)) (pb_publisher p, pb_slug p) of
           Some r \<Rightarrow> Some (pr_created_at r) | None \<Rightarrow> Some (w_now w)) \<and>
     (tab_get (tb_publication (w_db w')))((pb_publisher p, pb_slug p) := None) =
        (tab_get (tb_publication (w_db w)))((pb_publisher p, pb_slug p) := None)"
proof -
  let ?d = "snd (upsert_publication p a (w_now w) (w_db w))"
  have inv: "publication_inv ?d" by (rule publication_inv_upsert [OF assms(2)])
  have tab: "tb_publication ?d = tab_put (pb_publisher p, pb_slug p) (publication_row_of p a (w_now w)
      (tab_get (tb_publication (w_db w)) (pb_publisher p, pb_slug p))) (tb_publication (w_db w))"
    using assms(3) by (simp add: upsert_publication_def Let_def)
  show ?thesis
    using assms inv
    by (intro exI [of _ "w\<lparr>w_db := ?d\<rparr>"])
      (simp add: put_publication_alone quiet tab tab.get_put publication_row_of_def publication_of_def
        split: option.split)
qed

lemma collect_orgs_alone:
  assumes "alone w"
  shows "collect_orgs x rows out w = (Inr (out @ List.map_filter (\<lambda>r.
     map_option (\<lambda>u. (user_of x u, mr_role r)) (opt_filter (\<lambda>u. ur_account_type u = ''organization'' \<and> ur_handle u \<noteq> None)
       (find_user (\<lambda>u. ur_usr_id u = Some (mr_org_user r)) (w_db w)))) rows), w)"
proof (induction rows arbitrary: out)
  case (Cons r rows)
  then show ?case
    using assms
    by (auto simp: get_user_by_id_def quiet is_organization_def user_of_def List.map_filter_simps
        opt_filter_def split: option.split)
qed (simp add: List.map_filter_simps)

text \<open>
  left alone, the organisations of a member are exactly those of its memberships that are
  organisations with a handle, each with the member's role, in the order of joining.
\<close>

theorem orgs_of_exact:
  assumes "alone w"
  shows "orgs_of x m w = (Inr (List.map_filter (\<lambda>r.
     map_option (\<lambda>u. (user_of x u, mr_role r)) (opt_filter (\<lambda>u. ur_account_type u = ''organization'' \<and> ur_handle u \<noteq> None)
       (find_user (\<lambda>u. ur_usr_id u = Some (mr_org_user r)) (w_db w))))
     (sort_key mr_joined_at (filter (\<lambda>r. mr_member_user r = m) (tb_member (w_db w))))), w)"
  using assms by (simp add: orgs_of_def quiet collect_orgs_alone)

section \<open>Concrete instances\<close>

definition a_publication :: publication where
  "a_publication = \<lparr>pb_publisher = ''usr_o'', pb_slug = ''log'', pb_url = ''https://a.example/log'',
     pb_title = None, pb_app_id = ''app'', pb_updated_at = None\<rparr>"

definition org_db :: db where
  "org_db = empty_db\<lparr>
     tb_user := [(''usr_o'', \<lparr>ur_usr_id = Some ''usr_o'', ur_handle = Some ''acme'', ur_display_name = None,
       ur_creo_sub = None, ur_handle_changed_at = None, ur_account_type = ''organization''\<rparr>)],
     tb_member := [\<lparr>mr_org_user = ''usr_o'', mr_member_user = ''usr_a'', mr_role = ''owner'', mr_joined_at = 0\<rparr>]\<rparr>"

lemma org_db_inv: "publication_inv org_db"
  by (simp add: publication_inv_def org_db_def empty_db_def)

lemma a_publication_assert: "publication_assert a_publication"
  by (simp add: publication_assert_def a_publication_def ident_word_def ident_start_def ident_char_def text_defs)

theorem put_publication_reads_back_witness:
  "\<exists>w'. put_publication an_ext a_publication ''usr_a'' (a_world org_db) = (Inr True, w') \<and>
     get_publication an_ext ''usr_o'' ''log'' w' = (Inr (Some (a_publication\<lparr>pb_updated_at := Some (show_nat 0)\<rparr>)), w')"
proof -
  have "pb_publisher a_publication = ''usr_o''" "pb_slug a_publication = ''log''" "tb_publication org_db = []"
    "x_time_str an_ext = show_nat"
    by (simp_all add: a_publication_def org_db_def empty_db_def an_ext_def)
  then show ?thesis
    using put_publication_reads_back [OF alone_a_world _ a_publication_assert, of org_db an_ext "''usr_a''"]
    by (auto simp: org_db_inv)
qed

theorem orgs_of_witness:
  "\<exists>org. orgs_of an_ext ''usr_a'' (a_world org_db) = (Inr [(org, ''owner'')], a_world org_db) \<and>
     ue_handle org = Some ''acme''"
  using orgs_of_exact [of "a_world org_db" an_ext "''usr_a''"]
  by (simp add: org_db_def empty_db_def find_user_def tab_where_def List.map_filter_simps user_of_def)

end
