(* ===== verification/Product_Token.thy ===== *)
theory Product_Token
  imports Hub_World
begin

text \<open>
  Product tokens (\<open>crates/chronista-hub-server/src/product_token.rs\<close>): opaque tokens that the hub
  issues to applications and of which the database keeps only the hash. The interface
  \<open>credential_store\<close> says what the authentication relies on; it is interpreted on the statements
  of the store.
\<close>

section \<open>Principals\<close>

text \<open>Who a request comes from (\<open>auth.rs\<close>).\<close>

datatype principal =
    User (principal_user_id: string) (principal_handle: "string option") (principal_scopes: "string list")
  | App (principal_app_id: string) (principal_scopes: "string list")

section \<open>Operations\<close>

definition TOKEN_PREFIX :: string where
  "TOKEN_PREFIX = ''cht_''"

definition DEFAULT_TTL_DAYS :: nat where
  "DEFAULT_TTL_DAYS = 365"

definition ROTATE_OVERLAP_DAYS :: nat where
  "ROTATE_OVERLAP_DAYS = 30"

definition hex_digit :: "nat \<Rightarrow> char" where
  "hex_digit n = (if n < 10 then char_of (48 + n) else char_of (87 + n))"

definition hex_encode :: "string \<Rightarrow> string" where
  "hex_encode bytes = concat (map (\<lambda>b. [hex_digit (code_of b div 16), hex_digit (code_of b mod 16)]) bytes)"

definition hash_token :: "ext \<Rightarrow> string \<Rightarrow> string" where
  "hash_token x plaintext = hex_encode (x_sha256 x plaintext)"

definition generate_token :: "ext \<Rightarrow> (string \<times> string) hub" where
  "generate_token x = bnd (draw 32) (\<lambda>bytes.
     let plaintext = TOKEN_PREFIX @ hex_encode bytes in ret (plaintext, hash_token x plaintext))"

record issued_token =
  it_token :: string
  it_token_id :: string
  it_app_id :: string
  it_scopes :: "string list"
  it_expires_at :: string

record token_meta =
  tm_token_id :: string
  tm_app_id :: string
  tm_scopes :: "string list"
  tm_note :: "string option"
  tm_created_at :: string
  tm_expires_at :: string
  tm_revoked_at :: "string option"

definition new_token_row :: "string \<Rightarrow> string \<Rightarrow> string list \<Rightarrow> string option \<Rightarrow> nat \<Rightarrow> nat \<Rightarrow> token_row" where
  "new_token_row hash app scopes note t ttl = \<lparr>tr_token_hash = hash, tr_app_id = app, tr_scopes = scopes,
     tr_note = note, tr_created_at = t, tr_expires_at = t + days ttl, tr_revoked_at = None\<rparr>"

definition create_token :: "token_row \<Rightarrow> (string, token_row) table \<Rightarrow> (error + token_row) \<times> (string, token_row) table" where
  "create_token row tab =
     (if tab_get tab (tr_token_hash row) \<noteq> None then (Inl record_exists_error, tab)
      else (Inr row, tab_put (tr_token_hash row) row tab))"

definition issue_token :: "ext \<Rightarrow> string \<Rightarrow> string list \<Rightarrow> nat option \<Rightarrow> string option \<Rightarrow> issued_token hub" where
  "issue_token x app_id scopes ttl_days note =
     bnd (generate_token x) (\<lambda>(plaintext, hash).
     let ttl = (case ttl_days of Some d \<Rightarrow> d | None \<Rightarrow> DEFAULT_TTL_DAYS)
     in bnd (run (\<lambda>t d. case create_token (new_token_row hash app_id scopes note t ttl) (tb_token d) of
           (r, tab) \<Rightarrow> (r, d\<lparr>tb_token := tab\<rparr>))) (\<lambda>row.
        ret \<lparr>it_token = plaintext, it_token_id = hash, it_app_id = app_id, it_scopes = scopes,
             it_expires_at = x_time_str x (tr_expires_at row)\<rparr>))"

definition token_active :: "nat \<Rightarrow> token_row \<Rightarrow> bool" where
  "token_active t r \<longleftrightarrow> tr_revoked_at r = None \<and> t < tr_expires_at r"

definition token_grant :: "string \<Rightarrow> nat \<Rightarrow> (string, token_row) table \<Rightarrow> (string \<times> string list) option" where
  "token_grant hash t tab = map_option (\<lambda>r. (tr_app_id r, tr_scopes r))
     (first_of (tab_where (\<lambda>r. tr_token_hash r = hash \<and> token_active t r) tab))"

definition verify_token :: "ext \<Rightarrow> string \<Rightarrow> principal option hub" where
  "verify_token x plaintext =
     (if \<not> prefix TOKEN_PREFIX plaintext then ret None
      else let hash = hash_token x plaintext in select (\<lambda>t d. map_option (\<lambda>(app, scopes). App app scopes) (token_grant hash t (tb_token d))))"

text \<open>The transaction of a rotation: inherit, shorten, create.\<close>

definition inherited_scopes :: "string \<Rightarrow> nat \<Rightarrow> (string, token_row) table \<Rightarrow> string list" where
  "inherited_scopes app t tab =
     (case first_of (sort_key (\<lambda>r. - int (tr_created_at r)) (tab_where (\<lambda>r. tr_app_id r = app \<and> token_active t r) tab)) of
        Some r \<Rightarrow> tr_scopes r | None \<Rightarrow> [])"

definition shorten_tokens :: "string \<Rightarrow> nat \<Rightarrow> (string, token_row) table \<Rightarrow> (string, token_row) table" where
  "shorten_tokens app t tab = tab_update_where
     (\<lambda>r. tr_app_id r = app \<and> tr_revoked_at r = None \<and> t + days ROTATE_OVERLAP_DAYS < tr_expires_at r)
     (\<lambda>r. r\<lparr>tr_expires_at := t + days ROTATE_OVERLAP_DAYS\<rparr>) tab"

definition rotate_tx ::
  "string \<Rightarrow> string \<Rightarrow> string list \<Rightarrow> string option \<Rightarrow> nat \<Rightarrow> db \<Rightarrow> (error + token_row) \<times> db" where
  "rotate_tx hash app scopes note t d =
     (let inherited = inherited_scopes app t (tb_token d);
          scopes' = (if scopes = [] then inherited else scopes)
      in case create_token (new_token_row hash app scopes' note t DEFAULT_TTL_DAYS) (shorten_tokens app t (tb_token d)) of
           (Inr row, tab) \<Rightarrow> (Inr row, d\<lparr>tb_token := tab\<rparr>)
         | (Inl e, tab) \<Rightarrow> (Inl e, d))"

definition rotate_token :: "ext \<Rightarrow> string \<Rightarrow> string list \<Rightarrow> string option \<Rightarrow> issued_token hub" where
  "rotate_token x app_id scopes note =
     bnd (generate_token x) (\<lambda>(plaintext, hash).
     bnd (run (rotate_tx hash app_id scopes note)) (\<lambda>row.
     ret \<lparr>it_token = plaintext, it_token_id = hash, it_app_id = app_id, it_scopes = tr_scopes row,
          it_expires_at = x_time_str x (tr_expires_at row)\<rparr>))"

definition revocable :: "string \<Rightarrow> string \<Rightarrow> token_row \<Rightarrow> bool" where
  "revocable app token_id r \<longleftrightarrow> tr_token_hash r = token_id \<and> tr_app_id r = app \<and> tr_revoked_at r = None"

definition revoke_tokens :: "string \<Rightarrow> string \<Rightarrow> nat \<Rightarrow> (string, token_row) table \<Rightarrow> (string, token_row) table" where
  "revoke_tokens app token_id t tab =
     tab_update_where (revocable app token_id) (\<lambda>r. r\<lparr>tr_revoked_at := Some t\<rparr>) tab"

definition revoke_token :: "string \<Rightarrow> string \<Rightarrow> bool hub" where
  "revoke_token app_id token_id = run (\<lambda>t d.
     (Inr (tab_where (revocable app_id token_id) (tb_token d) \<noteq> []),
      d\<lparr>tb_token := revoke_tokens app_id token_id t (tb_token d)\<rparr>))"

definition token_meta_of :: "ext \<Rightarrow> token_row \<Rightarrow> token_meta" where
  "token_meta_of x r = \<lparr>tm_token_id = tr_token_hash r, tm_app_id = tr_app_id r, tm_scopes = tr_scopes r,
     tm_note = tr_note r, tm_created_at = x_time_str x (tr_created_at r),
     tm_expires_at = x_time_str x (tr_expires_at r), tm_revoked_at = map_option (x_time_str x) (tr_revoked_at r)\<rparr>"

definition list_tokens :: "ext \<Rightarrow> string \<Rightarrow> token_meta list hub" where
  "list_tokens x app_id = select (\<lambda>t d. sort_key tm_created_at
     (map (token_meta_of x) (tab_where (\<lambda>r. tr_app_id r = app_id) (tb_token d))))"

section \<open>The interface\<close>

text \<open>
  A store of credentials over time: \<open>find\<close> gives what a credential is good for at a moment.
  Issuing makes a new credential good for its lifetime, revoking ends it, a restriction (the
  shortening of a rotation) never makes a credential good that was not, and none touches the
  others.
\<close>

datatype ('c, 'p, 'r) credential_op = Issue 'c 'p nat nat | Revoke 'c nat | Restrict 'r

locale credential_store =
  fixes find :: "'c \<Rightarrow> nat \<Rightarrow> 's \<Rightarrow> 'p option"
    and issue :: "'c \<Rightarrow> 'p \<Rightarrow> nat \<Rightarrow> nat \<Rightarrow> 's \<Rightarrow> 's"
    and revoke :: "'c \<Rightarrow> nat \<Rightarrow> 's \<Rightarrow> 's"
    and restrict :: "'r \<Rightarrow> 's \<Rightarrow> 's"
    and known :: "'c \<Rightarrow> 's \<Rightarrow> bool"
    and ok :: "'s \<Rightarrow> bool"
  assumes find_issue: "ok s \<Longrightarrow> \<not> known c s \<Longrightarrow>
      find c' t (issue c p since until s) = (if c' = c then (if t < until then Some p else None) else find c' t s)"
    and find_revoke: "ok s \<Longrightarrow> find c' t (revoke c at s) = (if c' = c then None else find c' t s)"
    and find_restrict: "ok s \<Longrightarrow> find c t (restrict r s) \<in> {None, find c t s}"
    and ok_issue: "ok s \<Longrightarrow> ok (issue c p since until s)"
    and ok_revoke: "ok s \<Longrightarrow> ok (revoke c at s)"
    and ok_restrict: "ok s \<Longrightarrow> ok (restrict r s)"
    and known_issue: "known c (issue c' p since until s) \<longleftrightarrow> c = c' \<or> known c s"
    and known_revoke: "known c (revoke c' at s) \<longleftrightarrow> known c s"
    and known_restrict: "known c (restrict r s) \<longleftrightarrow> known c s"
begin

definition apply_op :: "('c, 'p, 'r) credential_op \<Rightarrow> 's \<Rightarrow> 's" where
  "apply_op c s =
     (case c of
        Issue c p since until \<Rightarrow> (if known c s then s else issue c p since until s)
      | Revoke c at \<Rightarrow> revoke c at s
      | Restrict r \<Rightarrow> restrict r s)"

lemma ok_apply: "ok s \<Longrightarrow> ok (apply_op c s)"
  by (simp add: apply_op_def ok_issue ok_revoke ok_restrict split: credential_op.split)

lemma known_apply: "known c s \<Longrightarrow> known c (apply_op op s)"
  by (simp add: apply_op_def known_issue known_revoke known_restrict split: credential_op.split)

text \<open>Once it is good for nothing, a credential stays dead: no operation revives it.\<close>

lemma dead_apply:
  assumes "ok s" and "known c s" and "find c t s = None"
  shows "find c t (apply_op op s) = None"
proof (cases op)
  case (Issue c' p since until)
  then show ?thesis using assms by (auto simp: apply_op_def find_issue)
next
  case (Revoke c' at)
  then show ?thesis using assms by (simp add: apply_op_def find_revoke)
next
  case (Restrict r)
  then show ?thesis using assms find_restrict [OF assms(1), of c t r] by (auto simp: apply_op_def)
qed

lemma dead_stays_dead:
  assumes "ok s" and "known c s" and "find c t s = None"
  shows "find c t (fold apply_op ops s) = None"
  using assms by (induction ops arbitrary: s) (auto simp: ok_apply known_apply dead_apply)

lemma revoked_stays_revoked:
  assumes "ok s" and "known c s"
  shows "find c t (fold apply_op ops (revoke c at s)) = None"
  using assms by (intro dead_stays_dead) (simp_all add: ok_revoke known_revoke find_revoke)

end

section \<open>The store of the hub\<close>

definition token_table_ok :: "(string, token_row) table \<Rightarrow> bool" where
  "token_table_ok tab \<longleftrightarrow> tab_ok tab \<and> rows_ok (\<lambda>k r. tr_token_hash r = k) tab"

definition token_known :: "string \<Rightarrow> (string, token_row) table \<Rightarrow> bool" where
  "token_known hash tab \<longleftrightarrow> tab_get tab hash \<noteq> None"

definition put_token :: "string \<Rightarrow> string \<times> string list \<Rightarrow> nat \<Rightarrow> nat \<Rightarrow> (string, token_row) table \<Rightarrow> (string, token_row) table" where
  "put_token hash p since until tab = tab_put hash \<lparr>tr_token_hash = hash, tr_app_id = fst p, tr_scopes = snd p,
     tr_note = None, tr_created_at = since, tr_expires_at = until, tr_revoked_at = None\<rparr> tab"

definition kill_token :: "string \<Rightarrow> nat \<Rightarrow> (string, token_row) table \<Rightarrow> (string, token_row) table" where
  "kill_token hash t tab =
     (case tab_get tab hash of Some r \<Rightarrow> revoke_tokens (tr_app_id r) hash t tab | None \<Rightarrow> tab)"

lemma token_grant_eq:
  assumes "token_table_ok tab"
  shows "token_grant hash t tab =
    map_option (\<lambda>r. (tr_app_id r, tr_scopes r)) (opt_filter (token_active t) (tab_get tab hash))"
  using assms first_where_key [of tab tr_token_hash hash "token_active t"]
  by (simp add: token_grant_def token_table_ok_def)

lemma token_table_ok_put: "token_table_ok tab \<Longrightarrow> tr_token_hash r = k \<Longrightarrow> token_table_ok (tab_put k r tab)"
  by (simp add: token_table_ok_def tab.ok_put rows_ok_put)

lemma token_table_ok_shorten: "token_table_ok tab \<Longrightarrow> token_table_ok (shorten_tokens app t tab)"
  by (auto simp: token_table_ok_def shorten_tokens_def tab_ok_update_where intro!: rows_ok_update_where)

lemma token_table_ok_revoke: "token_table_ok tab \<Longrightarrow> token_table_ok (revoke_tokens app i t tab)"
  by (auto simp: token_table_ok_def revoke_tokens_def tab_ok_update_where intro!: rows_ok_update_where)

lemma get_revoke_tokens:
  "tab_get (revoke_tokens app i t tab) k =
     map_option (\<lambda>r. if revocable app i r then r\<lparr>tr_revoked_at := Some t\<rparr> else r) (tab_get tab k)"
  by (simp add: revoke_tokens_def tab_get_update_where)

lemma token_hash_key: "token_table_ok tab \<Longrightarrow> tab_get tab k = Some r \<Longrightarrow> tr_token_hash r = k"
  by (auto simp: token_table_ok_def dest: rows_ok_get)

interpretation token_store: credential_store token_grant put_token kill_token
  "\<lambda>(app, t). shorten_tokens app t" token_known token_table_ok
proof unfold_locales
  fix tab :: "(string, token_row) table" and c c' p since until t at r
  assume ok: "token_table_ok tab"
  have ok': "token_table_ok (put_token c p since until tab)" "token_table_ok (kill_token c at tab)"
    "token_table_ok ((\<lambda>(app, t). shorten_tokens app t) r tab)"
    using ok by (auto simp: put_token_def kill_token_def token_table_ok_put token_table_ok_revoke
        token_table_ok_shorten split: option.split prod.split)
  show "token_grant c' t (put_token c p since until tab) =
      (if c' = c then (if t < until then Some p else None) else token_grant c' t tab)"
    by (simp add: token_grant_eq [OF ok] token_grant_eq [OF ok'(1)])
      (simp add: tab.get_put put_token_def token_active_def)
  show "token_grant c' t (kill_token c at tab) = (if c' = c then None else token_grant c' t tab)"
    using token_hash_key [OF ok]
    unfolding token_grant_eq [OF ok] token_grant_eq [OF ok'(2)]
    by (auto simp: kill_token_def get_revoke_tokens revocable_def token_active_def opt_filter_def
        split: option.splits)
  show "token_grant c' t ((\<lambda>(app, t). shorten_tokens app t) r tab) \<in> {None, token_grant c' t tab}"
    unfolding token_grant_eq [OF ok] token_grant_eq [OF ok'(3)]
    by (cases r; cases "tab_get tab c'")
      (auto simp: shorten_tokens_def tab_get_update_where token_active_def opt_filter_def)
  show "token_table_ok (put_token c p since until tab)" "token_table_ok (kill_token c at tab)"
    "token_table_ok ((\<lambda>(app, t). shorten_tokens app t) r tab)"
    by (rule ok')+
next
  fix tab :: "(string, token_row) table" and c c' p since until at r
  show "token_known c (put_token c' p since until tab) \<longleftrightarrow> c = c' \<or> token_known c tab"
    by (auto simp: token_known_def put_token_def tab.get_put)
  show "token_known c (kill_token c' at tab) \<longleftrightarrow> token_known c tab"
    by (auto simp: token_known_def kill_token_def get_revoke_tokens split: option.split)
  show "token_known c ((\<lambda>(app, t). shorten_tokens app t) r tab) \<longleftrightarrow> token_known c tab"
    by (cases r) (auto simp: token_known_def shorten_tokens_def tab_get_update_where)
qed

section \<open>The operations, alone and under interference\<close>

definition token_inv :: "db \<Rightarrow> bool" where
  "token_inv d \<longleftrightarrow> token_table_ok (tb_token d)"

lemma token_inv_empty: "token_inv empty_db"
  by (simp add: token_inv_def token_table_ok_def empty_db_def)

lemma create_token_ok: "token_table_ok tab \<Longrightarrow> token_table_ok (snd (create_token row tab))"
  by (simp add: create_token_def token_table_ok_put)

lemma rotate_tx_inv: "token_inv d \<Longrightarrow> token_inv (snd (rotate_tx h app scopes note t d))"
  using create_token_ok [OF token_table_ok_shorten, of "tb_token d"]
  by (auto simp: rotate_tx_def Let_def token_inv_def split: prod.splits sum.splits) (metis snd_conv)+

lemma keeps_generate [keeps]: "keeps I (generate_token x)"
  unfolding generate_token_def Let_def by (intro keeps)

lemma keeps_issue:
  assumes "\<And>d row. I d \<Longrightarrow> I (d\<lparr>tb_token := snd (create_token row (tb_token d))\<rparr>)"
  shows "keeps I (issue_token x app scopes ttl note)"
  unfolding issue_token_def Let_def by (intro keeps) (simp add: case_prod_unfold assms)

lemma keeps_rotate:
  "(\<And>d h t. I d \<Longrightarrow> I (snd (rotate_tx h app scopes note t d))) \<Longrightarrow> keeps I (rotate_token x app scopes note)"
  unfolding rotate_token_def by (intro keeps)

lemma keeps_revoke:
  "(\<And>d t. I d \<Longrightarrow> I (d\<lparr>tb_token := revoke_tokens app i t (tb_token d)\<rparr>)) \<Longrightarrow> keeps I (revoke_token app i)"
  unfolding revoke_token_def by (intro keeps) simp

lemma token_reads_keep [keeps]: "keeps I (verify_token x tok)" "keeps I (list_tokens x app)"
  unfolding verify_token_def list_tokens_def Let_def by (intro keeps)+

lemma token_writes_keep:
  "keeps token_inv (issue_token x app scopes ttl note)" "keeps token_inv (rotate_token x app scopes note)"
  "keeps token_inv (revoke_token app i)"
  by (auto intro!: keeps_issue keeps_rotate keeps_revoke rotate_tx_inv)
    (simp_all add: token_inv_def create_token_ok token_table_ok_revoke)

lemma reads_verify [reads]: "reads (verify_token x tok)" "reads (list_tokens x app)"
  unfolding verify_token_def list_tokens_def Let_def by (intro reads)+

lemma verify_token_alone [quiet]:
  "alone w \<Longrightarrow> prefix TOKEN_PREFIX tok \<Longrightarrow> verify_token x tok w =
     (Inr (map_option (\<lambda>(a, s). App a s) (token_grant (hash_token x tok) (w_now w) (tb_token (w_db w)))), w)"
  by (simp add: verify_token_def Let_def quiet)

text \<open>What the drawn bytes make of a token.\<close>

definition drawn_token :: "world \<Rightarrow> string" where
  "drawn_token w = TOKEN_PREFIX @ hex_encode (map (\<lambda>i. w_rand w (w_drawn w + i)) [0..<32])"

lemma drawn_token_prefix [simp]: "prefix TOKEN_PREFIX (drawn_token w)"
  by (simp add: drawn_token_def)

lemma generate_token_eq [quiet]:
  "bnd (generate_token x) f w = f (drawn_token w, hash_token x (drawn_token w)) (w\<lparr>w_drawn := w_drawn w + 32\<rparr>)"
  by (simp add: generate_token_def bnd_assoc quiet drawn_token_def Let_def)

lemma issue_token_alone:
  assumes "alone w" and "issue_token x app scopes ttl note w = (Inr it, w')"
  shows "it_token it = drawn_token w \<and> it_token_id it = hash_token x (drawn_token w) \<and>
    \<not> token_known (hash_token x (drawn_token w)) (tb_token (w_db w)) \<and>
    tb_token (w_db w') = tab_put (hash_token x (drawn_token w))
      (new_token_row (hash_token x (drawn_token w)) app scopes note (w_now w)
        (case ttl of Some d \<Rightarrow> d | None \<Rightarrow> DEFAULT_TTL_DAYS)) (tb_token (w_db w))"
  using assms
  by (auto simp: issue_token_def quiet Let_def create_token_def token_known_def new_token_row_def split: if_splits)

text \<open>
  C23: an issued token verifies as the application and the scopes it was issued for from the
  moment of issue until its lifetime is over, and no longer; a token issued without a lifetime
  lives for 365 days.
\<close>

theorem issued_token_verifies_until_expiry:
  assumes "alone w" and "token_inv (w_db w)" and "issue_token x app scopes ttl note w = (Inr it, w')"
    and "alone w2" and "w_db w2 = w_db w'"
  shows "verify_token x (it_token it) w2 =
    (Inr (if w_now w2 < w_now w + days (case ttl of Some d \<Rightarrow> d | None \<Rightarrow> 365) then Some (App app scopes) else None), w2)"
proof -
  note it = issue_token_alone [OF assms(1,3)]
  have ok: "token_table_ok (tb_token (w_db w'))"
    using it assms(2) by (simp add: token_inv_def token_table_ok_put new_token_row_def)
  have "token_grant (it_token_id it) t (tb_token (w_db w')) =
      (if t < w_now w + days (case ttl of Some d \<Rightarrow> d | None \<Rightarrow> 365) then Some (app, scopes) else None)" for t
    unfolding token_grant_eq [OF ok]
    using it by (simp add: token_active_def new_token_row_def DEFAULT_TTL_DAYS_def split: option.split)
  then show ?thesis
    using it assms(4,5) by (simp add: quiet)
qed

text \<open>
  a revocation reports success exactly when the token exists, belongs to the application
  and was not revoked yet; after a success the token never verifies again, at any time and
  after any sequence of issues, revocations and rotations; after a refusal nothing has changed.
\<close>

theorem revoked_token_is_dead:
  assumes "alone w" and "token_inv (w_db w)" and "alone w2"
    and "prefix TOKEN_PREFIX tok" and "tb_token (w_db w2) = fold token_store.apply_op ops (tb_token (w_db (snd (revoke_token app (hash_token x tok) w))))"
  shows "case tab_get (tb_token (w_db w)) (hash_token x tok) of
      Some r \<Rightarrow> (if tr_app_id r = app \<and> tr_revoked_at r = None
        then fst (revoke_token app (hash_token x tok) w) = Inr True \<and> verify_token x tok w2 = (Inr None, w2)
        else revoke_token app (hash_token x tok) w = (Inr False, w))
    | None \<Rightarrow> revoke_token app (hash_token x tok) w = (Inr False, w)"
proof -
  let ?h = "hash_token x tok" and ?tab = "tb_token (w_db w)"
  have ok: "token_table_ok ?tab" using assms(2) by (simp add: token_inv_def)
  have rev: "revoke_token app ?h w = (Inr (tab_where (revocable app ?h) ?tab \<noteq> []),
      w\<lparr>w_db := (w_db w)\<lparr>tb_token := revoke_tokens app ?h (w_now w) ?tab\<rparr>\<rparr>)"
    using assms(1) by (simp add: revoke_token_def quiet)
  have key: "revocable app ?h r \<Longrightarrow> (k, r) \<in> set ?tab \<Longrightarrow> tab_get ?tab ?h = Some r" for k r
    using ok token_hash_key [OF ok] tab_get_set [of ?tab k r] by (auto simp: revocable_def token_table_ok_def)
  show ?thesis
  proof (cases "\<exists>r. tab_get ?tab ?h = Some r \<and> tr_app_id r = app \<and> tr_revoked_at r = None")
    case True
    then obtain r where r: "tab_get ?tab ?h = Some r" "tr_app_id r = app" "tr_revoked_at r = None" by blast
    have "r \<in> set (tab_where (revocable app ?h) ?tab)"
      using r token_hash_key [OF ok r(1)] tab_get_in [OF r(1)] by (auto simp: set_tab_where revocable_def)
    then have found: "tab_where (revocable app ?h) ?tab \<noteq> []" by auto
    have "tb_token (w_db w2) = fold token_store.apply_op ops (kill_token ?h (w_now w) ?tab)"
      using assms(5) r by (simp add: rev kill_token_def)
    then have "token_grant ?h (w_now w2) (tb_token (w_db w2)) = None"
      using token_store.revoked_stays_revoked [OF ok] r(1) by (simp add: token_known_def)
    then show ?thesis using r found assms(3,4) by (simp add: rev quiet)
  next
    case False
    then have none: "tab_where (revocable app ?h) ?tab = []"
      using key by (fastforce simp: tab_where_def filter_empty_conv revocable_def)
    then have "revoke_token app ?h w = (Inr False, w)"
      by (simp add: rev revoke_tokens_def tab_update_where_none)
    with False show ?thesis by (auto split: option.split)
  qed
qed

text \<open>
  C24: a rotation makes a new token that lives for 365 days and has the scopes that were asked
  for or, when none were, those of the application's newest active token; every other token of
  the application that is not revoked expires after 30 days or when it would have anyway,
  whichever is earlier, and the tokens of other applications stay as they are.
\<close>

theorem rotate_token_shortens_and_inherits:
  assumes "alone w" and "token_inv (w_db w)" and "rotate_token x app scopes note w = (Inr it, w')"
  shows "it_scopes it = (if scopes = [] then inherited_scopes app (w_now w) (tb_token (w_db w)) else scopes) \<and>
    tab_get (tb_token (w_db w')) (it_token_id it) =
      Some (new_token_row (it_token_id it) app (it_scopes it) note (w_now w) 365) \<and>
    (\<forall>h. h \<noteq> it_token_id it \<longrightarrow> tab_get (tb_token (w_db w')) h = map_option
      (\<lambda>r. if tr_app_id r = app \<and> tr_revoked_at r = None
           then r\<lparr>tr_expires_at := min (tr_expires_at r) (w_now w + days 30)\<rparr> else r)
      (tab_get (tb_token (w_db w)) h))"
proof -
  let ?h = "hash_token x (drawn_token w)" and ?tab = "tb_token (w_db w)"
  let ?scopes = "if scopes = [] then inherited_scopes app (w_now w) ?tab else scopes"
  have it: "it_token_id it = ?h" "it_scopes it = ?scopes"
    "tb_token (w_db w') = tab_put ?h (new_token_row ?h app ?scopes note (w_now w) 365) (shorten_tokens app (w_now w) ?tab)"
    using assms(1,3)
    by (auto simp: rotate_token_def quiet rotate_tx_def Let_def create_token_def new_token_row_def DEFAULT_TTL_DAYS_def
        split: if_splits)
  have shorten: "tab_get (shorten_tokens app t tab) h = map_option
      (\<lambda>r. if tr_app_id r = app \<and> tr_revoked_at r = None
           then r\<lparr>tr_expires_at := min (tr_expires_at r) (t + days 30)\<rparr> else r) (tab_get tab h)" for t tab h
    by (cases "tab_get tab h") (auto simp: shorten_tokens_def tab_get_update_where ROTATE_OVERLAP_DAYS_def min_def)
  show ?thesis by (simp add: it tab.get_put shorten)
qed

text \<open>
  the scopes a rotation inherits are those of an active token of the application that no
  active token of the application is newer than; without an active token there are none.
\<close>

theorem inherited_scopes_of_newest:
  "case filter (\<lambda>r. tr_app_id r = app \<and> token_active t r) (tab_rows tab) of
     [] \<Rightarrow> inherited_scopes app t tab = []
   | active \<Rightarrow> list_ex (\<lambda>r. inherited_scopes app t tab = tr_scopes r \<and>
       list_all (\<lambda>r'. tr_created_at r' \<le> tr_created_at r) active) active"
proof (cases "sort_key (\<lambda>r. - int (tr_created_at r)) (filter (\<lambda>r. tr_app_id r = app \<and> token_active t r) (tab_rows tab))")
  case Nil
  then have "filter (\<lambda>r. tr_app_id r = app \<and> token_active t r) (tab_rows tab) = []"
    by (metis length_0_conv length_sort)
  then show ?thesis by (simp add: inherited_scopes_def tab_where_def tab_rows_def)
next
  case (Cons r rs)
  let ?active = "filter (\<lambda>r. tr_app_id r = app \<and> token_active t r) (tab_rows tab)"
  have set: "set (r # rs) = set ?active"
    using arg_cong [OF Cons, of set] by simp
  have "sorted (map (\<lambda>r. - int (tr_created_at r)) (r # rs))"
    using sorted_sort_key [of "\<lambda>r. - int (tr_created_at r)" ?active] by (simp only: Cons)
  then have "list_all (\<lambda>r'. tr_created_at r' \<le> tr_created_at r) (r # rs)"
    by (auto simp: list_all_iff)
  then have "list_ex (\<lambda>r. inherited_scopes app t tab = tr_scopes r \<and>
       list_all (\<lambda>r'. tr_created_at r' \<le> tr_created_at r) ?active) ?active"
    unfolding list_ex_iff list_all_iff set [symmetric]
    using Cons by (intro bexI [of _ r]) (simp_all add: inherited_scopes_def tab_where_def tab_rows_def)
  then show ?thesis by (cases ?active) simp_all
qed

section \<open>Concrete instances\<close>

definition token_world :: world where
  "token_world = snd (issue_token an_ext ''app'' [''events''] None None (a_world empty_db))"

lemma token_world_eq:
  "issue_token an_ext ''app'' [''events''] None None (a_world empty_db) =
     (Inr \<lparr>it_token = drawn_token (a_world empty_db), it_token_id = hash_token an_ext (drawn_token (a_world empty_db)),
        it_app_id = ''app'', it_scopes = [''events''], it_expires_at = show_nat (days 365)\<rparr>, token_world)"
  unfolding token_world_def
  by (simp add: issue_token_def quiet Let_def create_token_def empty_db_def new_token_row_def DEFAULT_TTL_DAYS_def)
    (simp add: an_ext_def)

lemma token_world_alone: "alone token_world" "token_inv (w_db token_world)" "w_now token_world = 0"
  using token_writes_keep(1) [of an_ext "''app''" "[''events'']" None None] stable_a_world [of token_inv empty_db]
  by (auto simp: token_world_def issue_token_def quiet Let_def create_token_def empty_db_def token_inv_empty
      new_token_row_def token_inv_def intro!: token_table_ok_put) (simp add: token_table_ok_def)

theorem issued_token_witness:
  "verify_token an_ext (drawn_token (a_world empty_db)) token_world = (Inr (Some (App ''app'' [''events''])), token_world)"
  using issued_token_verifies_until_expiry [OF alone_a_world _ token_world_eq token_world_alone(1)]
  by (simp add: token_world_alone token_inv_empty)

lemma token_world_row:
  "tab_get (tb_token (w_db token_world)) (hash_token an_ext (drawn_token (a_world empty_db))) =
     Some (new_token_row (hash_token an_ext (drawn_token (a_world empty_db))) ''app'' [''events''] None 0 365)"
  using issue_token_alone [OF alone_a_world token_world_eq] by (simp add: DEFAULT_TTL_DAYS_def)

theorem revoked_token_witness:
  "\<exists>w2. verify_token an_ext (drawn_token (a_world empty_db)) w2 = (Inr None, w2)"
proof -
  let ?tok = "drawn_token (a_world empty_db)"
  let ?w2 = "snd (revoke_token ''app'' (hash_token an_ext ?tok) token_world)"
  have "alone ?w2" by (simp add: revoke_token_def quiet token_world_alone)
  from revoked_token_is_dead [OF token_world_alone(1,2) this, of ?tok "[]" "''app''" an_ext]
  have "verify_token an_ext ?tok ?w2 = (Inr None, ?w2)"
    by (simp add: token_world_row new_token_row_def)
  then show ?thesis ..
qed

lemma length_hex_encode [simp]: "length (hex_encode bs) = 2 * length bs"
  by (induction bs) (simp_all add: hex_encode_def)

definition old_token_db :: db where
  "old_token_db = empty_db\<lparr>tb_token := [(''old'', new_token_row ''old'' ''app'' [''events''] None 0 365)]\<rparr>"

lemma old_token_db_inv: "token_inv old_token_db"
  by (simp add: token_inv_def token_table_ok_def old_token_db_def tab_ok_def rows_ok_def new_token_row_def)

lemma old_token_row:
  "tb_token old_token_db = [(''old'', new_token_row ''old'' ''app'' [''events''] None 0 365)]"
  by (simp add: old_token_db_def)

lemma new_token_row_simps:
  "tr_token_hash (new_token_row h a s n t ttl) = h" "tr_app_id (new_token_row h a s n t ttl) = a"
  "tr_scopes (new_token_row h a s n t ttl) = s" "tr_created_at (new_token_row h a s n t ttl) = t"
  "tr_expires_at (new_token_row h a s n t ttl) = t + days ttl" "tr_revoked_at (new_token_row h a s n t ttl) = None"
  by (simp_all add: new_token_row_def)

lemma rotate_old_token:
  "\<exists>it w'. rotate_token an_ext ''app'' [] None (a_world old_token_db) = (Inr it, w') \<and> it_token_id it \<noteq> ''old''"
proof -
  have "length (hash_token an_ext (drawn_token (a_world old_token_db))) = 136"
    by (simp add: hash_token_def an_ext_def drawn_token_def TOKEN_PREFIX_def)
  then have "hash_token an_ext (drawn_token (a_world old_token_db)) \<noteq> ''old''" by auto
  then show ?thesis
    by (simp add: rotate_token_def quiet rotate_tx_def Let_def create_token_def old_token_row new_token_row_simps
        shorten_tokens_def tab_update_where_def tab_get_def)
qed

theorem rotate_token_witness:
  "\<exists>it w'. rotate_token an_ext ''app'' [] None (a_world old_token_db) = (Inr it, w') \<and>
     it_scopes it = [''events''] \<and>
     map_option tr_expires_at (tab_get (tb_token (w_db w')) ''old'') = Some (days 30)"
proof -
  obtain it w' where r: "rotate_token an_ext ''app'' [] None (a_world old_token_db) = (Inr it, w')" "it_token_id it \<noteq> ''old''"
    using rotate_old_token by blast
  have "inherited_scopes ''app'' 0 (tb_token old_token_db) = [''events'']"
    by (simp add: inherited_scopes_def old_token_row tab_where_def token_active_def new_token_row_simps)
  moreover have "tab_get (tb_token old_token_db) ''old'' = Some (new_token_row ''old'' ''app'' [''events''] None 0 365)"
    by (simp add: old_token_row tab_get_def)
  ultimately show ?thesis
    using rotate_token_shortens_and_inherits [OF alone_a_world _ r(1)] r
    by (auto simp: old_token_db_inv new_token_row_simps min_def)
qed

end
