(* ===== verification/Auth.thy ===== *)
theory Auth
  imports Product_Token
begin

text \<open>
  Who a request comes from (\<open>crates/chronista-hub-server/src/auth.rs\<close>): the two verifiers of user
  and application tokens and \<open>authenticate\<close>. The JWT library is a parameter: what its functions
  answer, and as a named hypothesis its documented contract, that a decoded token satisfies the
  validation that it was given.
\<close>

section \<open>Types\<close>

datatype principal_kind = UserKind | AppKind

datatype auth_error = Unauthorized | InsufficientScope "string list" | AuthUnavailable

record verifier =
  verify_user_token :: "string \<Rightarrow> principal option"
  verify_app_token :: "string \<Rightarrow> principal option"

section \<open>The stub verifier\<close>

text \<open>\<open>app:<appId>:<scope1>,<scope2>\<close>.\<close>

definition parse_stub_app_token :: "string \<Rightarrow> principal option" where
  "parse_stub_app_token token =
     (case split_on (CHR '':'') token of
        [kind, app_id, scopes] \<Rightarrow>
          (if kind \<noteq> ''app'' then None
           else if app_id = [] then None
           else Some (App app_id (filter (\<lambda>s. s \<noteq> []) (split_on (CHR '','') scopes))))
      | _ \<Rightarrow> None)"

definition decode_jwt_payload :: "ext \<Rightarrow> string \<Rightarrow> json option" where
  "decode_jwt_payload x token =
     (case split_on (CHR ''.'') token of
        [_, payload, _] \<Rightarrow> Option.bind (x_base64url_decode x payload) (x_parse_json x)
      | _ \<Rightarrow> None)"

definition stub_user_token :: "ext \<Rightarrow> string \<Rightarrow> principal option" where
  "stub_user_token x token =
     Option.bind (decode_jwt_payload x token) (\<lambda>payload.
     Option.bind (get_str payload ''sub'') (\<lambda>user_id.
     Some (User user_id (get_str payload ''handle'')
       (case Option.bind (get payload ''scopes'') as_array of Some arr \<Rightarrow> strings_of arr | None \<Rightarrow> []))))"

definition stub_verifier :: "ext \<Rightarrow> verifier" where
  "stub_verifier x = \<lparr>verify_user_token = stub_user_token x, verify_app_token = parse_stub_app_token\<rparr>"

section \<open>The JWKS verifier\<close>

text \<open>\<open>s.split_whitespace()\<close>; the first argument is the word being read, reversed.\<close>

definition word_of_acc :: "string \<Rightarrow> string list" where
  "word_of_acc acc = (if acc = [] then [] else [rev acc])"

function split_words :: "string \<Rightarrow> string \<Rightarrow> string list" where
  "split_words acc [] = word_of_acc acc"
| "split_words acc (c # cs) =
     (if starts_ws (c # cs) = 0 then split_words (c # acc) cs
      else word_of_acc acc @ split_words [] (drop (starts_ws (c # cs)) (c # cs)))"
  by pat_completeness auto
termination
  by (relation "measure (\<lambda>(acc, s). length s)") auto

definition split_whitespace :: "string \<Rightarrow> string list" where
  "split_whitespace s = split_words [] s"

record claims =
  cl_sub :: string
  cl_handle :: "string option"
  cl_scope :: string

record validation =
  va_algorithm :: string
  va_required :: "string list"
  va_audience :: "string list"
  va_issuer :: "string list"

text \<open>
  The JWT library: the key id of a token's header, a key set parsed from JSON (key ids and
  keys), the decoding key of a key, and decoding under a validation.
\<close>

record jwt_lib =
  j_header_kid :: "string \<Rightarrow> string option option"
  j_parse_jwks :: "string \<Rightarrow> (string option \<times> string) list option"
  j_decoding_key :: "string \<Rightarrow> string option"
  j_decode :: "validation \<Rightarrow> string \<Rightarrow> string \<Rightarrow> claims option"

record jwks_verifier =
  jv_jwks :: "(string option \<times> string) list"
  jv_issuer :: string
  jv_audiences :: "string list"
  jv_allow_stub_app_token :: bool

definition from_jwks_json :: "jwt_lib \<Rightarrow> string \<Rightarrow> string \<Rightarrow> string list \<Rightarrow> bool \<Rightarrow> jwks_verifier option" where
  "from_jwks_json L text issuer audiences allow = map_option (\<lambda>keys.
     \<lparr>jv_jwks = keys, jv_issuer = issuer, jv_audiences = audiences, jv_allow_stub_app_token = allow\<rparr>)
     (j_parse_jwks L text)"

text \<open>The verifier after a refresh, and whether the refresh worked.\<close>

definition refresh_from_json :: "jwt_lib \<Rightarrow> string \<Rightarrow> jwks_verifier \<Rightarrow> bool \<times> jwks_verifier" where
  "refresh_from_json L text v =
     (case j_parse_jwks L text of None \<Rightarrow> (False, v) | Some keys \<Rightarrow> (True, v\<lparr>jv_jwks := keys\<rparr>))"

definition jwks_validation :: "jwks_verifier \<Rightarrow> validation" where
  "jwks_validation v = \<lparr>va_algorithm = ''RS256'', va_required = [''exp'', ''iss'', ''aud''],
     va_audience = jv_audiences v, va_issuer = [jv_issuer v]\<rparr>"

definition jwks_verify :: "jwt_lib \<Rightarrow> jwks_verifier \<Rightarrow> string \<Rightarrow> claims option" where
  "jwks_verify L v token =
     (case j_header_kid L token of
        None \<Rightarrow> None
      | Some None \<Rightarrow> None
      | Some (Some kid) \<Rightarrow>
          Option.bind (find (\<lambda>(k, _). k = Some kid) (jv_jwks v)) (\<lambda>(_, jwk).
          Option.bind (j_decoding_key L jwk) (\<lambda>key.
          j_decode L (jwks_validation v) key token)))"

definition jwks_user_token :: "jwt_lib \<Rightarrow> jwks_verifier \<Rightarrow> string \<Rightarrow> principal option" where
  "jwks_user_token L v token = map_option
     (\<lambda>c. User (cl_sub c) (cl_handle c) (split_whitespace (cl_scope c))) (jwks_verify L v token)"

definition jwks_app_token :: "jwks_verifier \<Rightarrow> string \<Rightarrow> principal option" where
  "jwks_app_token v token = (if jv_allow_stub_app_token v then parse_stub_app_token token else None)"

definition verifier_of_jwks :: "jwt_lib \<Rightarrow> jwks_verifier \<Rightarrow> verifier" where
  "verifier_of_jwks L v = \<lparr>verify_user_token = jwks_user_token L v, verify_app_token = jwks_app_token v\<rparr>"

section \<open>Authentication\<close>

text \<open>The part of \<open>authenticate\<close> that looks at the application token.\<close>

definition check_app_token ::
  "ext \<Rightarrow> verifier \<Rightarrow> bool \<Rightarrow> string \<Rightarrow> string list \<Rightarrow> (auth_error + principal option) hub" where
  "check_app_token x ver with_store tok required_scopes =
     bnd (if with_store
          then bnd (attempt (verify_token x tok)) (\<lambda>r.
            case r of
              Inr p \<Rightarrow> ret (Inr p)
            | Inl err \<Rightarrow> ret (if is_unavailable err then Inl AuthUnavailable else Inr None))
          else ret (Inr None)) (\<lambda>stored.
     case stored of
       Inl e \<Rightarrow> ret (Inl e)
     | Inr p \<Rightarrow>
         (case (if p = None then verify_app_token ver tok else p) of
            None \<Rightarrow> ret (Inr None)
          | Some p \<Rightarrow>
              (let missing = filter (\<lambda>s. s \<notin> set (principal_scopes p)) required_scopes
               in if missing \<noteq> [] then ret (Inl (InsufficientScope missing)) else ret (Inr (Some p)))))"

definition user_principal :: "verifier \<Rightarrow> string option \<Rightarrow> principal_kind list \<Rightarrow> principal option" where
  "user_principal ver bearer accept =
     (if UserKind \<in> set accept
      then Option.bind (Option.bind bearer (strip_prefix ''Bearer '')) (verify_user_token ver) else None)"

definition authenticate ::
  "ext \<Rightarrow> verifier \<Rightarrow> bool \<Rightarrow> string option \<Rightarrow> string option \<Rightarrow> principal_kind list \<Rightarrow> string list \<Rightarrow>
   (auth_error + principal) hub" where
  "authenticate x ver with_store bearer app_token accept required_scopes =
     bnd (case app_token of
            Some tok \<Rightarrow> (if AppKind \<in> set accept then check_app_token x ver with_store tok required_scopes
                        else ret (Inr None))
          | None \<Rightarrow> ret (Inr None)) (\<lambda>r.
     case r of
       Inl e \<Rightarrow> ret (Inl e)
     | Inr (Some p) \<Rightarrow> ret (Inr p)
     | Inr None \<Rightarrow>
         (case user_principal ver bearer accept of
            Some p \<Rightarrow> ret (Inr p)
          | None \<Rightarrow> ret (Inl Unauthorized)))"

lemma keeps_principal [keeps]:
  "(\<And>u h s. keeps I (f u h s)) \<Longrightarrow> (\<And>a s. keeps I (g a s)) \<Longrightarrow>
   keeps I (case p of User u h s \<Rightarrow> f u h s | App a s \<Rightarrow> g a s)"
  by (cases p) simp_all

lemma keeps_check_app [keeps]: "keeps I (check_app_token x ver s tok req)"
  unfolding check_app_token_def Let_def by (intro keeps)

lemma keeps_authenticate [keeps]: "keeps I (authenticate x ver s bearer app_token accept req)"
  unfolding authenticate_def by (intro keeps)

lemma reads_authenticate [reads]: "reads (authenticate x ver s bearer app_token accept req)"
  unfolding authenticate_def check_app_token_def by (intro reads reads_verify)

section \<open>What the server needs of a verifier\<close>

fun is_user :: "principal \<Rightarrow> bool" where
  "is_user (User _ _ _) = True"
| "is_user (App _ _) = False"

text \<open>The entitlement of an authenticated principal.\<close>

definition entitled :: "principal_kind list \<Rightarrow> string list \<Rightarrow> principal \<Rightarrow> bool" where
  "entitled accept required p \<longleftrightarrow>
     (if is_user p then UserKind \<in> set accept else AppKind \<in> set accept \<and> set required \<subseteq> set (principal_scopes p))"

locale token_verifier =
  fixes ver :: verifier
  assumes user_is_user: "verify_user_token ver tok = Some p \<Longrightarrow> is_user p"
    and app_is_app: "verify_app_token ver tok = Some p \<Longrightarrow> \<not> is_user p"
    and hub_token_rejected: "prefix TOKEN_PREFIX tok \<Longrightarrow> verify_app_token ver tok = None"
begin

lemma user_principal_entitled:
  "user_principal ver bearer accept = Some p \<Longrightarrow> entitled accept required p"
  by (auto simp: user_principal_def entitled_def bind_eq_Some_conv dest: user_is_user split: if_splits)

lemma check_app_entitled:
  assumes "AppKind \<in> set accept"
  shows "returns (\<lambda>_. True) (check_app_token x ver with_store tok required)
    (\<lambda>r. case r of Inr (Some p) \<Rightarrow> entitled accept required p | _ \<Rightarrow> True)"
proof -
  have stored: "returns (\<lambda>_. True) (verify_token x tok) (\<lambda>r. case r of Some p \<Rightarrow> \<not> is_user p | None \<Rightarrow> True)"
    unfolding verify_token_def Let_def
    by (intro returns_if returns_ret returns_select) (auto split: option.split)
  have found: "returns (\<lambda>_. True) (if with_store
          then bnd (attempt (verify_token x tok)) (\<lambda>r. case r of Inr p \<Rightarrow> ret (Inr p)
            | Inl err \<Rightarrow> ret (if is_unavailable err then Inl AuthUnavailable else Inr None))
          else ret (Inr None)) (\<lambda>r. case r of Inr (Some p) \<Rightarrow> \<not> is_user p | _ \<Rightarrow> True)"
    by (intro returns_if returns_bnd [OF returns_attempt [OF stored] keeps_attempt] token_reads_keep)
      (auto simp del: ret_apply intro!: returns_ret split: sum.split option.splits)
  show ?thesis
    unfolding check_app_token_def
  proof (rule returns_bnd [OF found])
    fix r :: "auth_error + principal option"
    assume "case r of Inr (Some p) \<Rightarrow> \<not> is_user p | _ \<Rightarrow> True"
    then show "returns (\<lambda>_. True) (case r of Inl e \<Rightarrow> ret (Inl e)
      | Inr p \<Rightarrow> (case (if p = None then verify_app_token ver tok else p) of None \<Rightarrow> ret (Inr None)
          | Some p \<Rightarrow> (let missing = filter (\<lambda>s. s \<notin> set (principal_scopes p)) required
               in if missing \<noteq> [] then ret (Inl (InsufficientScope missing)) else ret (Inr (Some p)))))
      (\<lambda>r. case r of Inr (Some p) \<Rightarrow> entitled accept required p | _ \<Rightarrow> True)"
      using assms
      by (auto simp: Let_def entitled_def filter_empty_conv simp del: ret_apply intro!: returns_ret
          dest: app_is_app split: sum.split option.split)
  qed (intro keeps keeps_if keeps_bnd token_reads_keep)
qed

lemma authenticate_entitled:
  "returns (\<lambda>_. True) (authenticate x ver with_store bearer app_token accept required)
    (\<lambda>r. case r of Inr p \<Rightarrow> entitled accept required p | Inl _ \<Rightarrow> True)"
proof -
  let ?Q = "\<lambda>r. case r of Inr (Some p) \<Rightarrow> entitled accept required p | _ \<Rightarrow> True"
  have app: "returns (\<lambda>_. True) (case app_token of
            Some tok \<Rightarrow> (if AppKind \<in> set accept then check_app_token x ver with_store tok required
                        else ret (Inr None))
          | None \<Rightarrow> ret (Inr None)) ?Q"
    by (cases app_token) (auto simp del: ret_apply intro: returns_ret check_app_entitled)
  show ?thesis
    unfolding authenticate_def
    by (rule returns_bnd [OF app])
      (auto simp del: ret_apply intro!: returns_ret keeps keeps_check_app dest: user_principal_entitled split: sum.split option.split)
qed

lemma dead_token_unauthorized:
  assumes "alone w" and "prefix TOKEN_PREFIX tok"
    and "token_grant (hash_token x tok) (w_now w) (tb_token (w_db w)) = None"
  shows "authenticate x ver True None (Some tok) accept required w = (Inr (Inl Unauthorized), w)"
  using assms hub_token_rejected
  by (simp add: authenticate_def check_app_token_def quiet user_principal_def)

end

lemma hub_token_not_stub:
  assumes "prefix TOKEN_PREFIX tok"
  shows "parse_stub_app_token tok = None"
proof -
  obtain rest where tok: "tok = ''cht_'' @ rest"
    using assms by (auto simp: TOKEN_PREFIX_def prefix_def)
  obtain p ps where "split_on (CHR '':'') rest = p # ps" by (cases "split_on (CHR '':'') rest") auto
  then show ?thesis by (auto simp: parse_stub_app_token_def tok split: list.splits)
qed

lemma stub_app_is_app: "parse_stub_app_token tok = Some p \<Longrightarrow> \<not> is_user p"
  by (auto simp: parse_stub_app_token_def split: list.splits if_splits)

interpretation stub: token_verifier "stub_verifier x" for x
  by unfold_locales
    (auto simp: stub_verifier_def stub_user_token_def bind_eq_Some_conv hub_token_not_stub dest: stub_app_is_app)

interpretation jwks: token_verifier "verifier_of_jwks L v" for L v
  by unfold_locales
    (auto simp: verifier_of_jwks_def jwks_user_token_def jwks_app_token_def hub_token_not_stub
      dest: stub_app_is_app split: if_splits)

section \<open>Properties\<close>

text \<open>
  C25: with either verifier, under any interference and any faults, an authenticated application
  was accepted as one and has every required scope, and an authenticated user was accepted as
  one: what comes in as an application token never counts as a user and the other way round.
\<close>

theorem authenticated_is_entitled:
  "returns (\<lambda>_. True) (authenticate x (stub_verifier x) s bearer app_token accept required)
     (\<lambda>r. case r of Inr p \<Rightarrow> entitled accept required p | Inl _ \<Rightarrow> True) \<and>
   returns (\<lambda>_. True) (authenticate x (verifier_of_jwks L v) s bearer app_token accept required)
     (\<lambda>r. case r of Inr p \<Rightarrow> entitled accept required p | Inl _ \<Rightarrow> True)"
  by (intro conjI stub.authenticate_entitled jwks.authenticate_entitled)

text \<open>
  a revoked product token opens nothing: after its revocation, and after any further issues,
  revocations and rotations, a request with that token alone is unauthorized, also where
  unsigned stub tokens are allowed.
\<close>

theorem revoked_token_unauthorized:
  assumes "alone w" and "prefix TOKEN_PREFIX tok" and "token_table_ok tab"
    and "token_known (hash_token x tok) tab"
    and "tb_token (w_db w) = fold token_store.apply_op ops (kill_token (hash_token x tok) at tab)"
  shows "authenticate x (stub_verifier x) True None (Some tok) accept required w = (Inr (Inl Unauthorized), w) \<and>
     authenticate x (verifier_of_jwks L v) True None (Some tok) accept required w = (Inr (Inl Unauthorized), w)"
proof -
  have "token_grant (hash_token x tok) (w_now w) (tb_token (w_db w)) = None"
    unfolding assms(5) by (rule token_store.revoked_stays_revoked [OF assms(3,4)])
  then show ?thesis
    using assms(1,2) by (simp add: stub.dead_token_unauthorized jwks.dead_token_unauthorized)
qed

text \<open>
  When the database cannot be reached, an application token is neither accepted nor called
  invalid: the answer is that the service is unavailable, whatever else the request carries.
\<close>

theorem unreachable_store_is_unavailable:
  assumes "w_script w = e # es" and "es_fault e = Refused err \<or> es_fault e = Failed err"
    and "is_unavailable err" and "prefix TOKEN_PREFIX tok" and "AppKind \<in> set accept"
  shows "fst (authenticate x ver True bearer (Some tok) accept required w) = Inr (Inl AuthUnavailable)"
  using assms
  by (auto simp: authenticate_def check_app_token_def verify_token_def select_def run_def query_def bnd_def
      attempt_def Let_def)

definition stub_app_token :: "string \<Rightarrow> string list \<Rightarrow> string" where
  "stub_app_token app scopes = ''app:'' @ app @ CHR '':'' # join_with (CHR '','') scopes"

lemma set_join_with: "set (join_with c ps) \<subseteq> insert c (\<Union>p\<in>set ps. set p)"
  by (induction c ps rule: join_with.induct) auto

text \<open>
  the stub application token reads back as it was written: an application id without a
  colon and non-empty scopes without colons and commas survive, in their order.
\<close>

theorem stub_app_token_roundtrip:
  assumes "app \<noteq> []" and "CHR '':'' \<notin> set app"
    and "list_all (\<lambda>s. s \<noteq> [] \<and> CHR '':'' \<notin> set s \<and> CHR '','' \<notin> set s) scopes"
  shows "parse_stub_app_token (stub_app_token app scopes) = Some (App app scopes)"
proof -
  have "CHR '':'' \<notin> set (join_with (CHR '','') scopes)"
    using assms(3) set_join_with [of "CHR '',''" scopes] by (auto simp: list_all_iff)
  then have parts: "split_on (CHR '':'') (stub_app_token app scopes) = [''app'', app, join_with (CHR '','') scopes]"
    using split_on_append [of "CHR '':''" "''app''" "app @ CHR '':'' # join_with (CHR '','') scopes"] assms(2)
    by (simp add: stub_app_token_def split_on_append split_on_no_sep)
  have "filter (\<lambda>s. s \<noteq> []) (split_on (CHR '','') (join_with (CHR '','') scopes)) = scopes"
  proof (cases "scopes = []")
    case False
    then have "split_on (CHR '','') (join_with (CHR '','') scopes) = scopes"
      using assms(3) by (intro split_join) (auto simp: list_all_iff)
    then show ?thesis using assms(3) by (simp add: filter_id_conv list_all_iff)
  qed simp
  then show ?thesis using assms(1) by (simp add: parse_stub_app_token_def parts)
qed

text \<open>
  The contract of the JWT library: a decoded token is one that is signed with the key under the
  given algorithm, has the required claims, and whose issuer and audience, where it has them,
  are among the accepted ones. What a token is made of is given by \<open>T\<close>.
\<close>

record jwt =
  jt_alg :: string
  jt_iss :: "string option"
  jt_aud :: "string list option"
  jt_exp :: "nat option"
  jt_keys :: "string list"

definition jwt_has :: "jwt \<Rightarrow> string \<Rightarrow> bool" where
  "jwt_has j claim \<longleftrightarrow>
     (if claim = ''iss'' then jt_iss j \<noteq> None else if claim = ''aud'' then jt_aud j \<noteq> None
      else if claim = ''exp'' then jt_exp j \<noteq> None else True)"

definition jwt_satisfies :: "validation \<Rightarrow> string \<Rightarrow> jwt \<Rightarrow> bool" where
  "jwt_satisfies v key j \<longleftrightarrow> jt_alg j = va_algorithm v \<and> key \<in> set (jt_keys j) \<and>
     list_all (jwt_has j) (va_required v) \<and>
     (case jt_iss j of None \<Rightarrow> True | Some i \<Rightarrow> i \<in> set (va_issuer v)) \<and>
     (case jt_aud j of None \<Rightarrow> True | Some as \<Rightarrow> list_ex (\<lambda>a. a \<in> set (va_audience v)) as)"

definition jwt_lib_ok :: "jwt_lib \<Rightarrow> (string \<Rightarrow> jwt option) \<Rightarrow> bool" where
  "jwt_lib_ok L T \<longleftrightarrow>
     (\<forall>v key tok c. j_decode L v key tok = Some c \<longrightarrow> (\<exists>j. T tok = Some j \<and> jwt_satisfies v key j))"

lemma jwks_token_checked:
  assumes "jwt_lib_ok L T" and "verify_user_token (verifier_of_jwks L v) tok = Some p"
  shows "\<exists>j kid jwk key. T tok = Some j \<and> j_header_kid L tok = Some (Some kid) \<and>
     (Some kid, jwk) \<in> set (jv_jwks v) \<and> j_decoding_key L jwk = Some key \<and> key \<in> set (jt_keys j) \<and>
     jt_alg j = ''RS256'' \<and> jt_iss j = Some (jv_issuer v) \<and> jt_exp j \<noteq> None \<and>
     (\<exists>as. jt_aud j = Some as \<and> list_ex (\<lambda>a. a \<in> set (jv_audiences v)) as)"
proof -
  obtain c where "jwks_verify L v tok = Some c"
    using assms(2) by (auto simp: verifier_of_jwks_def jwks_user_token_def)
  then obtain kid jwk key where k: "j_header_kid L tok = Some (Some kid)" "(Some kid, jwk) \<in> set (jv_jwks v)"
    "j_decoding_key L jwk = Some key" and d: "j_decode L (jwks_validation v) key tok = Some c"
    by (auto simp: jwks_verify_def bind_eq_Some_conv find_Some_iff in_set_conv_nth split: option.splits) (metis nth_mem)
  from d assms(1) obtain j where "T tok = Some j" "jwt_satisfies (jwks_validation v) key j"
    unfolding jwt_lib_ok_def by blast
  with k show ?thesis
    by (fastforce simp: jwt_satisfies_def jwks_validation_def jwt_has_def split: option.splits)
qed

text \<open>
  the JWKS verifier fails closed: a user token is only accepted when it names the configured
  issuer, names at least one of the configured audiences, has an expiry, and is signed under
  RS256 with the key of the set that its header names; leaving a claim out does not get past it.
\<close>

theorem jwks_accepts_only_own_tokens:
  assumes "jwt_lib_ok L T" and "verify_user_token (verifier_of_jwks L v) tok = Some p"
  shows "\<exists>j kid jwk key. T tok = Some j \<and> j_header_kid L tok = Some (Some kid) \<and>
     (Some kid, jwk) \<in> set (jv_jwks v) \<and> j_decoding_key L jwk = Some key \<and> key \<in> set (jt_keys j) \<and>
     jt_alg j = ''RS256'' \<and> jt_iss j = Some (jv_issuer v) \<and> jt_exp j \<noteq> None \<and>
     (\<exists>as. jt_aud j = Some as \<and> list_ex (\<lambda>a. a \<in> set (jv_audiences v)) as)"
  by (rule jwks_token_checked [OF assms])

section \<open>Concrete instances\<close>

definition a_lib :: jwt_lib where
  "a_lib = \<lparr>j_header_kid = (\<lambda>tok. Some (Some ''k1'')), j_parse_jwks = (\<lambda>text. None), j_decoding_key = Some,
     j_decode = (\<lambda>v key tok. if tok = ''good'' \<and> key = ''jwk1'' \<and> va_algorithm v = ''RS256'' \<and>
        ''creo'' \<in> set (va_issuer v) \<and> ''hub'' \<in> set (va_audience v)
        then Some \<lparr>cl_sub = ''ann'', cl_handle = None, cl_scope = ''read''\<rparr> else None)\<rparr>"

definition a_jwks :: jwks_verifier where
  "a_jwks = \<lparr>jv_jwks = [(Some ''k1'', ''jwk1'')], jv_issuer = ''creo'', jv_audiences = [''hub''],
     jv_allow_stub_app_token = False\<rparr>"

definition a_token_text :: "string \<Rightarrow> jwt option" where
  "a_token_text tok = Some \<lparr>jt_alg = ''RS256'', jt_iss = Some ''creo'', jt_aud = Some [''hub''], jt_exp = Some 9,
     jt_keys = [''jwk1'']\<rparr>"

lemma a_lib_ok: "jwt_lib_ok a_lib a_token_text"
  by (auto simp: jwt_lib_ok_def a_lib_def a_token_text_def jwt_satisfies_def jwt_has_def list_all_iff split: if_splits)

theorem jwks_accepts_witness:
  "\<exists>p j. verify_user_token (verifier_of_jwks a_lib a_jwks) ''good'' = Some p \<and> a_token_text ''good'' = Some j \<and>
     jt_iss j = Some ''creo''"
proof -
  obtain p where p: "verify_user_token (verifier_of_jwks a_lib a_jwks) ''good'' = Some p"
    by (simp add: verifier_of_jwks_def jwks_user_token_def jwks_verify_def a_lib_def a_jwks_def jwks_validation_def)
  then show ?thesis
    using jwks_accepts_only_own_tokens [OF a_lib_ok p] by (auto simp: a_jwks_def)
qed

theorem stub_roundtrip_witness:
  "parse_stub_app_token ''app:gfp:read,write'' = Some (App ''gfp'' [''read'', ''write''])"
  using stub_app_token_roundtrip [of "''gfp''" "[''read'', ''write'']"] by (simp add: stub_app_token_def)

theorem revoked_token_unauthorized_witness:
  "\<exists>w. authenticate an_ext (stub_verifier an_ext) True None (Some ''cht_1'') [AppKind, UserKind] [] w =
     (Inr (Inl Unauthorized), w)"
proof -
  let ?h = "hash_token an_ext ''cht_1''"
  let ?tab = "[(?h, new_token_row ?h ''app'' [] None 0 365)]"
  let ?w = "a_world (empty_db\<lparr>tb_token := kill_token ?h 0 ?tab\<rparr>)"
  have "token_table_ok ?tab" "token_known ?h ?tab"
    by (simp_all add: token_table_ok_def tab_ok_def rows_ok_def new_token_row_simps token_known_def tab_get_def)
  then show ?thesis
    by (intro exI [of _ ?w] revoked_token_unauthorized [where tab = ?tab and ops = "[]" and at = 0, THEN conjunct1])
      (simp_all add: TOKEN_PREFIX_def)
qed

theorem unreachable_store_witness:
  "fst (authenticate an_ext (stub_verifier an_ext) True None (Some ''cht_1'') [AppKind] []
     (world_of empty_db [calm\<lparr>es_fault := Refused [Sdk \<lparr>sdk_is_connection = True, sdk_session_not_found = False,
        sdk_auth_expired = False, sdk_message = []\<rparr>]\<rparr>])) = Inr (Inl AuthUnavailable)"
  by (rule unreachable_store_is_unavailable [OF world_of_simps(3)])
    (auto simp: is_unavailable_def kind_of_def typed_kind_def TOKEN_PREFIX_def)

end
