(* ===== verification/Http_Base.thy ===== *)
theory Http_Base
  imports Consumer Handle_Rules App_Roster Publication_Store Auth
begin

text \<open>
  The frame of the HTTP surface (\<open>crates/chronista-hub-server/src/app.rs\<close>): requests, responses,
  the answers to errors, the middleware that guards against an unreachable database, and the
  routes. A handler is a step that gives a response or an error; \<open>respond\<close> turns the error into
  the answer that \<open>AppError\<close> gives it.
\<close>

section \<open>Requests and responses\<close>

datatype payload = JsonBody json | HtmlBody string | TextBody string | NoBody

record response =
  rs_status :: nat
  rs_headers :: "(string \<times> string) list"
  rs_body :: payload
  rs_db_unavailable :: bool

datatype meth = GET | HEAD | POST | PUT | PATCH | DELETE

text \<open>
  The parts of a request that the handlers look at; a header is there when it is a valid string,
  and the query is given by its decoded pairs.
\<close>

record request =
  rq_authorization :: "string option"
  rq_app_token :: "string option"
  rq_admin_key :: "string option"
  rq_query :: "(string \<times> string) list"
  rq_body :: string

record settings_config =
  se_client_id :: string
  se_public_url :: string
  se_audience :: string

record app_state =
  st_ext :: ext
  st_verifier :: verifier
  st_admin_key :: "string option"
  st_issuer :: string
  st_settings :: "settings_config option"
  st_service :: string
  st_version :: string

definition json_response :: "nat \<Rightarrow> (string \<times> json) list \<Rightarrow> response" where
  "json_response status members = \<lparr>rs_status = status, rs_headers = [], rs_body = JsonBody (JObj members),
     rs_db_unavailable = False\<rparr>"

definition error_response :: "nat \<Rightarrow> string \<Rightarrow> response" where
  "error_response status msg = json_response status [(''error'', JStr msg)]"

lemma response_simps [simp]:
  "rs_status (json_response s ms) = s" "rs_body (json_response s ms) = JsonBody (JObj ms)"
  "rs_headers (json_response s ms) = []" "\<not> rs_db_unavailable (json_response s ms)"
  "rs_status (error_response s m) = s" "\<not> rs_db_unavailable (error_response s m)"
  "rs_headers (error_response s m) = []" "rs_body (error_response s m) = JsonBody (JObj [(''error'', JStr m)])"
  by (simp_all add: json_response_def error_response_def)

definition not_found :: response where
  "not_found = error_response 404 ''not found''"

definition unauthorized :: response where
  "unauthorized = error_response 401 ''unauthorized''"

definition ok_json :: "nat \<Rightarrow> json \<Rightarrow> response" where
  "ok_json status v = \<lparr>rs_status = status, rs_headers = [], rs_body = JsonBody v, rs_db_unavailable = False\<rparr>"

definition moved_permanently :: "string \<Rightarrow> payload \<Rightarrow> response" where
  "moved_permanently location body = \<lparr>rs_status = 301,
     rs_headers = [(''location'', location), (''cache-control'', ''no-store'')], rs_body = body,
     rs_db_unavailable = False\<rparr>"

lemma common_status [simp]:
  "rs_status not_found = 404" "rs_status unauthorized = 401" "rs_status (ok_json s v) = s"
  "rs_status (moved_permanently l b) = 301"
  by (simp_all add: not_found_def unauthorized_def ok_json_def moved_permanently_def)

text \<open>\<open>let x = match f(..) { Ok(x) => x, Err(resp) => return Ok(*resp) }\<close>.\<close>

definition or_return :: "(response + 'a) hub \<Rightarrow> ('a \<Rightarrow> response hub) \<Rightarrow> response hub" where
  "or_return m f = bnd m (\<lambda>r. case r of Inl resp \<Rightarrow> ret resp | Inr a \<Rightarrow> f a)"

lemma keeps_or_return [keeps]: "keeps I m \<Longrightarrow> (\<And>a. keeps I (f a)) \<Longrightarrow> keeps I (or_return m f)"
  unfolding or_return_def by (intro keeps)

lemma reads_or_return [reads]: "reads m \<Longrightarrow> (\<And>a. reads (f a)) \<Longrightarrow> reads (or_return m f)"
  unfolding or_return_def by (intro reads)

lemma or_return_writesE:
  assumes "or_return m f w = (Inr resp, w')" and "w' \<noteq> w" and "reads m" and "alone w"
  obtains a where "m w = (Inr (Inr a), w)" "f a w = (Inr resp, w')"
proof -
  obtain r where "m w = (Inr r, w)" and f: "(case r of Inl resp \<Rightarrow> ret resp | Inr a \<Rightarrow> f a) w = (Inr resp, w')"
    using assms(1) unfolding or_return_def by (rule bnd_readsE [OF _ assms(3,4)])
  then show thesis using assms(2) by (cases r) (auto intro: that)
qed

lemma or_return_cases:
  assumes "or_return m f w = (Inr resp, w')" and "reads m" and "alone w"
  obtains "m w = (Inr (Inl resp), w)" "w' = w" | a where "m w = (Inr (Inr a), w)" "f a w = (Inr resp, w')"
proof -
  obtain r where "m w = (Inr r, w)" and f: "(case r of Inl resp \<Rightarrow> ret resp | Inr a \<Rightarrow> f a) w = (Inr resp, w')"
    using assms(1) unfolding or_return_def by (rule bnd_readsE [OF _ assms(2,3)])
  then show thesis by (cases r) (auto intro: that)
qed

definition db_unavailable :: response where
  "db_unavailable = \<lparr>rs_status = 503, rs_headers = [(''retry-after'', ''5'')],
     rs_body = JsonBody (JObj [(''error'', JStr ''database unavailable'')]), rs_db_unavailable = True\<rparr>"

lemma db_unavailable_status [simp]: "rs_status db_unavailable = 503"
  by (simp add: db_unavailable_def)

text \<open>
  The \<open>Query\<close> extractor: a field is the value of its only pair; a field that is there twice is
  an error. Such a rejection is a 400 whose text is not modelled.
\<close>

definition query_field :: "request \<Rightarrow> string \<Rightarrow> string option option" where
  "query_field rq k =
     (case filter (\<lambda>(n, _). n = k) (rq_query rq) of
        [] \<Rightarrow> Some None | [(_, v)] \<Rightarrow> Some (Some v) | _ \<Rightarrow> None)"

definition query_rejection :: response where
  "query_rejection = \<lparr>rs_status = 400, rs_headers = [], rs_body = NoBody, rs_db_unavailable = False\<rparr>"

text \<open>\<open>AppError::into_response\<close>: the details of an error stay in the log.\<close>

definition app_error_response :: "error \<Rightarrow> response" where
  "app_error_response e =
     (if is_unavailable e then db_unavailable else error_response 500 ''internal server error'')"

definition respond :: "response hub \<Rightarrow> response hub" where
  "respond m = bnd (attempt m) (\<lambda>r. case r of Inr resp \<Rightarrow> ret resp | Inl e \<Rightarrow> ret (app_error_response e))"

section \<open>The guard\<close>

definition REQUEST_TIMEOUT_S :: nat where
  "REQUEST_TIMEOUT_S = 15"

definition read_only :: "meth \<Rightarrow> bool" where
  "read_only m \<longleftrightarrow> m = GET \<or> m = HEAD"

text \<open>
  \<open>timeout\<close> stands for \<open>tokio::time::timeout\<close>: it runs a step for at most so many seconds and
  gives its result, or nothing when the time is over.
\<close>

definition guard_db ::
  "(nat \<Rightarrow> response hub \<Rightarrow> response option hub) \<Rightarrow> meth \<Rightarrow> response hub \<Rightarrow> response hub" where
  "guard_db timeout m next =
     bnd (timeout REQUEST_TIMEOUT_S next) (\<lambda>r.
     case r of
       Some resp \<Rightarrow> (if rs_db_unavailable resp then bnd kick (\<lambda>_. ret resp) else ret resp)
     | None \<Rightarrow> bnd kick (\<lambda>_.
         if read_only m
         then ret (db_unavailable\<lparr>rs_body := TextBody ''{\"error\":\"timed out\"}''\<rparr>)
         else ret (error_response 504 ''timed out; the result is unknown'')))"

section \<open>Routes\<close>

datatype endpoint =
    Root | Health | HealthDeep | Start | Settings
  | TreeByHandle string | TreeByPath string string | ResourceById string
  | ListApps | Me | PatchMe | ClaimHandle | UserByHandle string | MyPublishers | PublicationsOf string
  | PutPublication string string | DeletePublication string string | AppManifest string | PostEvents
  | PutApp string | ListTokens string | IssueToken string | RotateToken string | RevokeToken string string
  | Profile string | ProfileSlash string | Publication string string | PublicationSlash string string
  | MethodNotAllowed | NotFound

definition on :: "meth \<Rightarrow> (meth \<times> endpoint) list \<Rightarrow> endpoint" where
  "on m table =
     (case map_of table (if m = HEAD then GET else m) of Some e \<Rightarrow> e | None \<Rightarrow> MethodNotAllowed)"

text \<open>
  The router: the path is given by its segments, a trailing slash as an empty last one; a static
  segment goes before a parameter, and a parameter is never empty. A route knows the methods it
  is registered for.
\<close>

fun join_path :: "string list \<Rightarrow> string" where
  "join_path ps = join_with (CHR ''/'') ps"

definition route :: "meth \<Rightarrow> string list \<Rightarrow> endpoint" where
  "route m path =
     (case path of
        [a] \<Rightarrow>
          if a = [] then on m [(GET, Root)]
          else if a = ''health'' then on m [(GET, Health)]
          else if a = ''start'' then on m [(GET, Start)]
          else if a = ''settings'' then on m [(GET, Settings)]
          else on m [(GET, Profile a)]
      | [a, b] \<Rightarrow>
          if a = ''health'' \<and> b = ''deep'' then on m [(GET, HealthDeep)]
          else if a = ''v1'' \<and> b = ''apps'' then on m [(GET, ListApps)]
          else if a = ''v1'' \<and> b = ''me'' then on m [(GET, Me), (PATCH, PatchMe)]
          else if a = ''v1'' \<and> b = ''events'' then on m [(POST, PostEvents)]
          else if a = [] then NotFound
          else if b = [] then on m [(GET, ProfileSlash a)]
          else on m [(GET, Publication a b)]
      | [a, b, c] \<Rightarrow>
          if a = ''v1'' \<and> b = ''me'' \<and> c = ''handle'' then on m [(PUT, ClaimHandle)]
          else if a = ''v1'' \<and> b = ''me'' \<and> c = ''publishers'' then on m [(GET, MyPublishers)]
          else if a = ''v1'' \<and> b = ''tree'' \<and> c \<noteq> [] then on m [(GET, TreeByHandle c)]
          else if a = ''v1'' \<and> b = ''resources'' \<and> c \<noteq> [] then on m [(GET, ResourceById c)]
          else if a = ''v1'' \<and> b = ''users'' \<and> c \<noteq> [] then on m [(GET, UserByHandle c)]
          else if a = ''v1'' \<and> b = ''apps'' \<and> c \<noteq> [] then on m [(PUT, PutApp c)]
          else if c = [] \<and> a \<noteq> [] \<and> b \<noteq> [] then on m [(GET, PublicationSlash a b)]
          else NotFound
      | a # b # c # d # rest \<Rightarrow>
          if a \<noteq> ''v1'' \<or> c = [] then NotFound
          else if b = ''tree'' then (if d = [] \<and> rest = [] then NotFound
                                     else on m [(GET, TreeByPath c (join_path (d # rest)))])
          else if b = ''users'' \<and> d = ''publications'' \<and> rest = [] then on m [(GET, PublicationsOf c)]
          else if b = ''publications'' \<and> d \<noteq> [] \<and> rest = []
               then on m [(PUT, PutPublication c d), (DELETE, DeletePublication c d)]
          else if b = ''apps'' \<and> d = ''manifest'' \<and> rest = [] then on m [(GET, AppManifest c)]
          else if b = ''apps'' \<and> d = ''tokens'' then
            (case rest of
               [] \<Rightarrow> on m [(GET, ListTokens c), (POST, IssueToken c)]
             | [e] \<Rightarrow> if e = ''rotate'' then on m [(POST, RotateToken c)]
                      else if e \<noteq> [] then on m [(DELETE, RevokeToken c e)] else NotFound
             | _ \<Rightarrow> NotFound)
          else NotFound
      | [] \<Rightarrow> NotFound)"

lemma keeps_respond [keeps]: "keeps I m \<Longrightarrow> keeps I (respond m)"
  unfolding respond_def by (intro keeps)

lemma respond_total: "\<exists>resp w'. respond m w = (Inr resp, w')"
  by (cases "m w"; cases "fst (m w)") (auto simp: respond_def bnd_steps)

end
