(* ===== verification/Http_Api.thy ===== *)
theory Http_Api
  imports Http_Base
begin

text \<open>
  The reads of the resource tree, the ingestion of events and the administration endpoints
  (\<open>crates/chronista-hub-server/src/app.rs\<close>).
\<close>

section \<open>Tree and roster reads\<close>

record tree_query =
  tq_visibility :: "string option"
  tq_type :: "string option"
  tq_limit :: "nat option"

definition decode_tree_query :: "request \<Rightarrow> tree_query option" where
  "decode_tree_query rq =
     Option.bind (query_field rq ''visibility'') (\<lambda>visibility.
     Option.bind (query_field rq ''type'') (\<lambda>type.
     Option.bind (query_field rq ''limit'') (\<lambda>limit.
     Option.bind (case limit of None \<Rightarrow> Some None | Some l \<Rightarrow> map_option Some (parse_uint 64 l)) (\<lambda>limit.
     Some \<lparr>tq_visibility = visibility, tq_type = type, tq_limit = limit\<rparr>))))"

definition into_options :: "tree_query \<Rightarrow> tree_read_options" where
  "into_options q = \<lparr>tro_visibility = visibility_of (tq_visibility q), tro_type = tq_type q,
     tro_limit = tq_limit q\<rparr>"

definition strip_handle :: "string \<Rightarrow> string" where
  "strip_handle h = (case strip_prefix ''@'' h of Some r \<Rightarrow> r | None \<Rightarrow> h)"

definition tree_json :: "string \<Rightarrow> string \<Rightarrow> resource list \<Rightarrow> response" where
  "tree_json h path rs = json_response 200 [(''handle'', JStr h), (''path'', JStr path),
     (''resources'', JArr (map resource_json rs))]"

definition tree_by_handle :: "string \<Rightarrow> tree_query \<Rightarrow> response hub" where
  "tree_by_handle handle q =
     (let h = strip_handle handle
      in bnd (get_resources_by_handle h (into_options q)) (\<lambda>rs. ret (tree_json h ''/'' rs)))"

definition tree_by_path :: "string \<Rightarrow> string \<Rightarrow> tree_query \<Rightarrow> response hub" where
  "tree_by_path handle path q =
     (let h = strip_handle handle; normalized = ''/'' @ path
      in bnd (get_resources_by_path h normalized (into_options q)) (\<lambda>rs. ret (tree_json h normalized rs)))"

definition resource_by_id :: "string \<Rightarrow> response hub" where
  "resource_by_id i = bnd (get_resource_by_id i) (\<lambda>r.
     case r of
       Some r \<Rightarrow> ret (ok_json 200 (resource_json r))
     | None \<Rightarrow> ret not_found)"

definition app_manifest_endpoint :: "string \<Rightarrow> response hub" where
  "app_manifest_endpoint app_id = bnd (get_app_manifest app_id) (\<lambda>m.
     case m of
       Some m \<Rightarrow> ret (ok_json 200 (app_manifest_json m))
     | None \<Rightarrow> ret not_found)"

definition list_apps :: "response hub" where
  "list_apps = bnd list_active_apps (\<lambda>apps. ret (json_response 200 [(''apps'', JArr (map app_entry_json apps))]))"

section \<open>Ingestion\<close>

definition auth_error_response :: "auth_error \<Rightarrow> response" where
  "auth_error_response e =
     (case e of
        Unauthorized \<Rightarrow> unauthorized
      | AuthUnavailable \<Rightarrow> db_unavailable
      | InsufficientScope missing \<Rightarrow> json_response 403
          [(''error'', JStr ''insufficient scope''), (''missing_scopes'', json_strings missing)])"

text \<open>The part behind the authentication: parse, validate, append.\<close>

definition ingest :: "app_state \<Rightarrow> string \<Rightarrow> response hub" where
  "ingest st body =
     (case x_parse_json (st_ext st) body of
        None \<Rightarrow> ret (error_response 400 ''invalid JSON'')
      | Some v \<Rightarrow>
          (case validate_envelope v of
             Inl errors \<Rightarrow> ret (json_response 400
               [(''error'', JStr ''validation failed''), (''details'', JArr (map validation_error_json errors))])
           | Inr envelope \<Rightarrow>
               bnd (append_event envelope) (\<lambda>result.
               if \<not> ap_accepted result
               then ret (json_response 409 [(''error'', JStr ''conflict''),
                 (''reason'', JStr (case ap_reason result of Some r \<Rightarrow> r | None \<Rightarrow> ''duplicate''))])
               else ret (json_response 202
                 [(''accepted'', JBool True), (''event_id'', JStr (ev_event_id envelope))]))))"

definition post_events :: "app_state \<Rightarrow> request \<Rightarrow> response hub" where
  "post_events st rq =
     bnd (authenticate (st_ext st) (st_verifier st) True (rq_authorization rq) (rq_app_token rq)
            [UserKind, AppKind] [''register_resource'']) (\<lambda>auth.
     case auth of
       Inl e \<Rightarrow> ret (auth_error_response e)
     | Inr _ \<Rightarrow> ingest st (rq_body rq))"

section \<open>Administration\<close>

text \<open>The key is compared by its SHA-256; the result is the answer that ends the request, if any.\<close>

definition check_admin :: "app_state \<Rightarrow> request \<Rightarrow> response option" where
  "check_admin st rq =
     (case st_admin_key st of
        None \<Rightarrow> Some not_found
      | Some expected \<Rightarrow>
          (let provided = (case rq_admin_key rq of Some k \<Rightarrow> k | None \<Rightarrow> [])
           in if x_sha256 (st_ext st) provided = x_sha256 (st_ext st) expected then None
              else Some (error_response 403 ''invalid admin key'')))"

record token_request =
  tk_scopes :: "string list"
  tk_note :: "string option"
  tk_ttl_days :: "nat option"

definition default_token_request :: token_request where
  "default_token_request = \<lparr>tk_scopes = [], tk_note = None, tk_ttl_days = None\<rparr>"

definition decode_token_request :: "json \<Rightarrow> token_request option" where
  "decode_token_request v =
     Option.bind (decode_struct False [(''scopes'', True), (''note'', True), (''ttl_days'', True)] v) (\<lambda>f.
     Option.bind (dec_strings (f ''scopes'')) (\<lambda>scopes.
     Option.bind (dec_opt_string (f ''note'')) (\<lambda>note.
     Option.bind (dec_opt_u32 (f ''ttl_days'')) (\<lambda>ttl.
     Some \<lparr>tk_scopes = scopes, tk_note = note, tk_ttl_days = ttl\<rparr>))))"

definition parse_token_request :: "app_state \<Rightarrow> request \<Rightarrow> token_request option" where
  "parse_token_request st rq =
     (if rq_body rq = [] then Some default_token_request
      else Option.bind (x_parse_json (st_ext st) (rq_body rq)) decode_token_request)"

definition issued_token_response :: "issued_token \<Rightarrow> response" where
  "issued_token_response it = json_response 201
     [(''token'', JStr (it_token it)), (''token_id'', JStr (it_token_id it)), (''app_id'', JStr (it_app_id it)),
      (''scopes'', json_strings (it_scopes it)), (''expires_at'', JStr (it_expires_at it))]"

definition issue_token_endpoint :: "app_state \<Rightarrow> string \<Rightarrow> request \<Rightarrow> response hub" where
  "issue_token_endpoint st app_id rq =
     (case check_admin st rq of
        Some resp \<Rightarrow> ret resp
      | None \<Rightarrow>
          (case parse_token_request st rq of
             None \<Rightarrow> ret (error_response 400 ''invalid JSON'')
           | Some req \<Rightarrow>
               bnd (issue_token (st_ext st) app_id (tk_scopes req) (tk_ttl_days req) (tk_note req)) (\<lambda>it.
               ret (issued_token_response it))))"

text \<open>A body that is not JSON counts as an empty one here (\<open>unwrap_or_default\<close>).\<close>

definition rotate_token_endpoint :: "app_state \<Rightarrow> string \<Rightarrow> request \<Rightarrow> response hub" where
  "rotate_token_endpoint st app_id rq =
     (case check_admin st rq of
        Some resp \<Rightarrow> ret resp
      | None \<Rightarrow>
          (let req = (case parse_token_request st rq of Some r \<Rightarrow> r | None \<Rightarrow> default_token_request)
           in bnd (rotate_token (st_ext st) app_id (tk_scopes req) (tk_note req)) (\<lambda>it.
              ret (issued_token_response it))))"

definition revoke_token_endpoint :: "app_state \<Rightarrow> string \<Rightarrow> string \<Rightarrow> request \<Rightarrow> response hub" where
  "revoke_token_endpoint st app_id token_id rq =
     (case check_admin st rq of
        Some resp \<Rightarrow> ret resp
      | None \<Rightarrow> bnd (revoke_token app_id token_id) (\<lambda>revoked.
          if revoked then ret (json_response 200 [(''revoked'', JBool True)])
          else ret not_found))"

definition token_meta_json :: "token_meta \<Rightarrow> json" where
  "token_meta_json m = JObj ([(''token_id'', JStr (tm_token_id m)), (''app_id'', JStr (tm_app_id m)),
     (''scopes'', json_strings (tm_scopes m))] @ opt_member ''note'' (tm_note m) @
     [(''created_at'', JStr (tm_created_at m)), (''expires_at'', JStr (tm_expires_at m))] @
     opt_member ''revoked_at'' (tm_revoked_at m))"

definition list_tokens_endpoint :: "app_state \<Rightarrow> string \<Rightarrow> request \<Rightarrow> response hub" where
  "list_tokens_endpoint st app_id rq =
     (case check_admin st rq of
        Some resp \<Rightarrow> ret resp
      | None \<Rightarrow> bnd (list_tokens (st_ext st) app_id) (\<lambda>ms.
          ret (json_response 200 [(''tokens'', JArr (map token_meta_json ms))])))"

text \<open>\<open>PUT /v1/apps/{app_id}\<close>.\<close>

record put_app_request =
  pa_name :: "string option"
  pa_description :: "string option"
  pa_icon_url :: "string option"
  pa_home_url :: "string option"
  pa_login_url :: "string option"
  pa_manifest_url :: "string option"
  pa_status :: "app_status option"

definition dec_opt_status :: "json option \<Rightarrow> app_status option option" where
  "dec_opt_status v =
     (case v of None \<Rightarrow> Some None | Some JNull \<Rightarrow> Some None
      | Some (JStr s) \<Rightarrow> map_option Some (app_status_of s) | _ \<Rightarrow> None)"

definition decode_put_app :: "json \<Rightarrow> put_app_request option" where
  "decode_put_app v =
     Option.bind (decode_struct True [(''name'', False), (''description'', False), (''icon_url'', False),
       (''home_url'', False), (''login_url'', False), (''manifest_url'', False), (''status'', False)] v) (\<lambda>f.
     Option.bind (dec_opt_string (f ''name'')) (\<lambda>name.
     Option.bind (dec_opt_string (f ''description'')) (\<lambda>description.
     Option.bind (dec_opt_string (f ''icon_url'')) (\<lambda>icon.
     Option.bind (dec_opt_string (f ''home_url'')) (\<lambda>home.
     Option.bind (dec_opt_string (f ''login_url'')) (\<lambda>login.
     Option.bind (dec_opt_string (f ''manifest_url'')) (\<lambda>manifest.
     Option.bind (dec_opt_status (f ''status'')) (\<lambda>status.
     Some \<lparr>pa_name = name, pa_description = description, pa_icon_url = icon, pa_home_url = home,
           pa_login_url = login, pa_manifest_url = manifest, pa_status = status\<rparr>))))))))"

definition is_app_id :: "string \<Rightarrow> bool" where
  "is_app_id s \<longleftrightarrow> 2 \<le> length s \<and> length s \<le> 40 \<and>
     list_all (\<lambda>b. is_ascii_lowercase b \<or> is_ascii_digit b \<or> b = CHR ''-'') s \<and> \<not> prefix ''-'' s"

text \<open>The part before the first \<open>/\<close>, \<open>?\<close> or \<open>#\<close>.\<close>

definition url_host_part :: "string \<Rightarrow> string" where
  "url_host_part s = takeWhile (\<lambda>c. c \<noteq> CHR ''/'' \<and> c \<noteq> CHR ''?'' \<and> c \<noteq> CHR ''#'') s"

definition is_https_url :: "string \<Rightarrow> bool" where
  "is_https_url s \<longleftrightarrow>
     (case strip_prefix ''https://'' s of
        None \<Rightarrow> False
      | Some rest \<Rightarrow> url_host_part rest \<noteq> [] \<and> \<not> has_ws_or_control s)"

text \<open>The entry that a request asks for, or the answer that refuses it.\<close>

definition app_entry_of_request :: "string \<Rightarrow> put_app_request \<Rightarrow> response + app_entry" where
  "app_entry_of_request app_id req =
     (let name = (case pa_name req of Some n \<Rightarrow> trim n | None \<Rightarrow> []);
          bad_url = find (\<lambda>(_, u). case u of Some u \<Rightarrow> \<not> is_https_url u | None \<Rightarrow> False)
            [(''icon_url'', pa_icon_url req), (''home_url'', pa_home_url req),
             (''login_url'', pa_login_url req), (''manifest_url'', pa_manifest_url req)]
      in if \<not> is_app_id app_id
         then Inl (error_response 400 ''app_id must be 2-40 chars of a-z, 0-9 and '-', starting with a letter or digit'')
         else if name = [] \<or> 80 < chars_count name then Inl (error_response 400 ''name is required (1-80 chars)'')
         else case bad_url of
           Some (field, _) \<Rightarrow> Inl (error_response 400 (field @ '' must be an https:// URL''))
         | None \<Rightarrow> Inr
            \<lparr>ae_app_id = app_id, ae_name = name, ae_description = opt_filter (\<lambda>d. trim d \<noteq> []) (pa_description req),
             ae_icon_url = pa_icon_url req, ae_home_url = pa_home_url req, ae_login_url = pa_login_url req,
             ae_manifest_url = pa_manifest_url req,
             ae_status = (case pa_status req of Some s \<Rightarrow> s | None \<Rightarrow> Active)\<rparr>)"

definition put_app_endpoint :: "app_state \<Rightarrow> string \<Rightarrow> request \<Rightarrow> response hub" where
  "put_app_endpoint st app_id rq =
     (case check_admin st rq of
        Some resp \<Rightarrow> ret resp
      | None \<Rightarrow>
          (case Option.bind (x_parse_json (st_ext st) (rq_body rq)) decode_put_app of
             None \<Rightarrow> ret (error_response 400
               ''invalid JSON (status must be pending / active / deregistering / deregistered)'')
           | Some req \<Rightarrow>
               (case app_entry_of_request app_id req of
                  Inl resp \<Rightarrow> ret resp
                | Inr entry \<Rightarrow> bnd (put_app entry) (\<lambda>_. ret (ok_json 200 (app_entry_json entry))))))"

section \<open>What the endpoints keep\<close>

lemma keeps_api_reads [keeps]:
  "keeps I (tree_by_handle h q)" "keeps I (tree_by_path h p q)" "keeps I (resource_by_id i)"
  "keeps I (app_manifest_endpoint a)" "keeps I list_apps" "keeps I (list_tokens_endpoint st a rq)"
  unfolding tree_by_handle_def tree_by_path_def resource_by_id_def app_manifest_endpoint_def list_apps_def
    list_tokens_endpoint_def
  by (intro keeps)+

lemma api_reads [reads]:
  "reads (tree_by_handle h q)" "reads (tree_by_path h p q)" "reads (resource_by_id i)"
  "reads (app_manifest_endpoint a)" "reads list_apps" "reads (list_tokens_endpoint st a rq)"
  unfolding tree_by_handle_def tree_by_path_def resource_by_id_def app_manifest_endpoint_def list_apps_def
    list_tokens_endpoint_def
  by (intro reads)+

lemma keeps_post_events:
  "(\<And>v ev. validate_envelope v = Inr ev \<Longrightarrow> keeps I (append_event ev)) \<Longrightarrow> keeps I (post_events st rq)"
  unfolding post_events_def ingest_def by (intro keeps) simp_all

lemma keeps_issue_endpoint:
  "(\<And>s t n. keeps I (issue_token (st_ext st) a s t n)) \<Longrightarrow> keeps I (issue_token_endpoint st a rq)"
  unfolding issue_token_endpoint_def by (intro keeps)

lemma keeps_rotate_endpoint:
  "(\<And>s n. keeps I (rotate_token (st_ext st) a s n)) \<Longrightarrow> keeps I (rotate_token_endpoint st a rq)"
  unfolding rotate_token_endpoint_def by (intro keeps)

lemma keeps_revoke_endpoint: "keeps I (revoke_token a i) \<Longrightarrow> keeps I (revoke_token_endpoint st a i rq)"
  unfolding revoke_token_endpoint_def by (intro keeps)

text \<open>
  What the checks of a registration establish: an id of the allowed form, a name of 1 to 80
  characters, and links that are https links without white space.
\<close>

definition app_links :: "app_entry \<Rightarrow> string option list" where
  "app_links e = [ae_icon_url e, ae_home_url e, ae_login_url e, ae_manifest_url e]"

definition app_entry_ok :: "app_entry \<Rightarrow> bool" where
  "app_entry_ok e \<longleftrightarrow> is_app_id (ae_app_id e) \<and> ae_name e \<noteq> [] \<and> chars_count (ae_name e) \<le> 80 \<and>
     list_all (\<lambda>u. case u of Some u \<Rightarrow> is_https_url u | None \<Rightarrow> True) (app_links e)"

lemma app_entry_of_request_Inr:
  "app_entry_of_request app_id req = Inr e \<longleftrightarrow>
     (let name = (case pa_name req of Some n \<Rightarrow> trim n | None \<Rightarrow> [])
      in is_app_id app_id \<and> name \<noteq> [] \<and> chars_count name \<le> 80 \<and>
         list_all (\<lambda>u. case u of Some u \<Rightarrow> is_https_url u | None \<Rightarrow> True)
           [pa_icon_url req, pa_home_url req, pa_login_url req, pa_manifest_url req] \<and>
         e = \<lparr>ae_app_id = app_id, ae_name = name, ae_description = opt_filter (\<lambda>d. trim d \<noteq> []) (pa_description req),
             ae_icon_url = pa_icon_url req, ae_home_url = pa_home_url req, ae_login_url = pa_login_url req,
             ae_manifest_url = pa_manifest_url req,
             ae_status = (case pa_status req of Some s \<Rightarrow> s | None \<Rightarrow> Active)\<rparr>)"
proof -
  let ?bad = "\<lambda>(_, u). case u of Some u \<Rightarrow> \<not> is_https_url u | None \<Rightarrow> False"
  let ?fields = "[(''icon_url'', pa_icon_url req), (''home_url'', pa_home_url req),
    (''login_url'', pa_login_url req), (''manifest_url'', pa_manifest_url req)]"
  have "find ?bad ?fields = None \<longleftrightarrow> list_all (\<lambda>u. case u of Some u \<Rightarrow> is_https_url u | None \<Rightarrow> True)
     [pa_icon_url req, pa_home_url req, pa_login_url req, pa_manifest_url req]"
    by (auto simp: find_None_iff split: option.split)
  then show ?thesis
    unfolding app_entry_of_request_def Let_def
    by (cases "find ?bad ?fields") (auto simp: not_less)
qed

lemma app_entry_of_request_ok: "app_entry_of_request app_id req = Inr e \<Longrightarrow> app_entry_ok e \<and> ae_app_id e = app_id"
  by (auto simp: app_entry_of_request_Inr Let_def app_entry_ok_def app_links_def)

lemma keeps_put_app_endpoint:
  "(\<And>e. app_entry_ok e \<Longrightarrow> keeps I (put_app e)) \<Longrightarrow> keeps I (put_app_endpoint st a rq)"
  unfolding put_app_endpoint_def by (intro keeps) (auto dest: app_entry_of_request_ok)

definition app_roster_ok :: "db \<Rightarrow> bool" where
  "app_roster_ok d \<longleftrightarrow> app_inv d \<and> rows_ok (\<lambda>_ r. app_entry_ok (ar_entry r)) (tb_app d)"

lemma app_roster_ok_put:
  "app_entry_ok e \<Longrightarrow> app_roster_ok d \<Longrightarrow>
   app_roster_ok (d\<lparr>tb_app := tab_put (ae_app_id e) (app_content old e) (tb_app d)\<rparr>)"
  using app_inv_put [of d e old] by (auto simp: app_roster_ok_def app_inv_def intro!: rows_ok_put)

end
