(* ===== verification/Http_Users.thy ===== *)
theory Http_Users
  imports Http_Api
begin

text \<open>
  The endpoints of the user roster (\<open>crates/chronista-hub-server/src/app.rs\<close>): the own row, the
  display name, claiming and renaming a handle, the public row with its redirect from a former
  handle.
\<close>

section \<open>The own row\<close>

definition require_user :: "app_state \<Rightarrow> request \<Rightarrow> (response + string) hub" where
  "require_user st rq =
     bnd (authenticate (st_ext st) (st_verifier st) False (rq_authorization rq) None [UserKind] []) (\<lambda>auth.
     case auth of
       Inr (User user_id _ _) \<Rightarrow> ret (Inr user_id)
     | _ \<Rightarrow> ret (Inl unauthorized))"

definition me_json :: "app_state \<Rightarrow> user_entry \<Rightarrow> json hub" where
  "me_json st u =
     bnd (get_reserve_of (st_ext st) (ue_usr_id u)) (\<lambda>reserve.
     ret (JObj [(''usrId'', JStr (ue_usr_id u)), (''handle'', json_opt (ue_handle u)),
       (''displayName'', json_opt (ue_display_name u)), (''canonicalPath'', json_opt (canonical_path u)),
       (''creoSub'', json_opt (ue_creo_sub u)), (''handleChangedAt'', json_opt (ue_handle_changed_at u)),
       (''reservedHandle'', case reserve of None \<Rightarrow> JNull
          | Some r \<Rightarrow> JObj [(''handle'', JStr (hr_handle r)), (''expiresAt'', JStr (hr_expires_at r))])]))"

definition me_response :: "app_state \<Rightarrow> nat \<Rightarrow> user_entry \<Rightarrow> response hub" where
  "me_response st status u = bnd (me_json st u) (\<lambda>v. ret (ok_json status v))"

definition with_user :: "app_state \<Rightarrow> request \<Rightarrow> (string \<Rightarrow> response hub) \<Rightarrow> response hub" where
  "with_user st rq f = or_return (require_user st rq) f"

definition me :: "app_state \<Rightarrow> request \<Rightarrow> response hub" where
  "me st rq = with_user st rq (\<lambda>sub.
     bnd (ensure_user (st_ext st) sub) (\<lambda>u. me_response st 200 u))"

definition decode_patch_me :: "json \<Rightarrow> string option option option" where
  "decode_patch_me v =
     Option.bind (decode_struct True [(''displayName'', True)] v) (\<lambda>f. dec_double_option (f ''displayName''))"

text \<open>\<open>display_name.as_deref().map(str::trim).filter(|d| !d.is_empty())\<close>.\<close>

definition trimmed_name :: "string option \<Rightarrow> string option" where
  "trimmed_name n = opt_filter (\<lambda>d. d \<noteq> []) (map_option trim n)"

definition patch_me :: "app_state \<Rightarrow> request \<Rightarrow> response hub" where
  "patch_me st rq = with_user st rq (\<lambda>sub.
     case Option.bind (x_parse_json (st_ext st) (rq_body rq)) decode_patch_me of
       None \<Rightarrow> ret (error_response 400 ''invalid JSON (only displayName is accepted)'')
     | Some req \<Rightarrow>
         bnd (ensure_user (st_ext st) sub) (\<lambda>u.
         case req of
           None \<Rightarrow> me_response st 200 u
         | Some name \<Rightarrow>
             (let display_name = trimmed_name name
              in if (case display_name of Some d \<Rightarrow> 80 < chars_count d | None \<Rightarrow> False)
                 then ret (error_response 400 ''displayName must be 80 characters or fewer'')
                 else bnd (set_display_name (st_ext st) (ue_usr_id u) display_name) (\<lambda>u'.
                   case u' of
                     Some u' \<Rightarrow> me_response st 200 u'
                   | None \<Rightarrow> raise (anyhow ''user row vanished during patch_me'')))))"

section \<open>Claiming and renaming\<close>

definition decode_claim :: "json \<Rightarrow> string option option" where
  "decode_claim v =
     Option.bind (decode_struct True [(''handle'', False)] v) (\<lambda>f. dec_opt_string (f ''handle''))"

definition conflict :: "string \<Rightarrow> response" where
  "conflict msg = error_response 409 msg"

definition rename_response :: "app_state \<Rightarrow> rename_outcome \<Rightarrow> response hub" where
  "rename_response st outcome =
     (case outcome of
        Renamed u \<Rightarrow> me_response st 200 u
      | Taken \<Rightarrow> ret (conflict ''handle is taken or reserved'')
      | Cooldown until \<Rightarrow> ret (json_response 409
          [(''error'', JStr ''handle was changed less than 30 days ago''), (''reason'', JStr ''cooldown''),
           (''until'', JStr until)]))"

definition claim_handle_endpoint :: "app_state \<Rightarrow> request \<Rightarrow> response hub" where
  "claim_handle_endpoint st rq = with_user st rq (\<lambda>sub.
     case Option.bind (x_parse_json (st_ext st) (rq_body rq)) decode_claim of
       None \<Rightarrow> ret (error_response 400 ''invalid JSON'')
     | Some req \<Rightarrow>
         (case Option.bind req canonical_handle of
            None \<Rightarrow> ret (error_response 400 ''handle must match ^[a-z0-9][a-z0-9-]{0,30}$'')
          | Some handle \<Rightarrow>
              bnd (ensure_user (st_ext st) sub) (\<lambda>mine.
              case ue_handle mine of
                Some current \<Rightarrow>
                  (if current = handle then me_response st 200 mine
                   else bnd (rename_handle (st_ext st) (ue_usr_id mine) current handle) (rename_response st))
              | None \<Rightarrow>
                  bnd (claim_handle (st_ext st) (ue_usr_id mine) handle) (\<lambda>u.
                  case u of
                    Some u \<Rightarrow> me_response st 201 u
                  | None \<Rightarrow> ret (conflict ''handle is taken or reserved'')))))"

section \<open>The public row\<close>

definition moved_user_response :: "string \<Rightarrow> public_user \<Rightarrow> response" where
  "moved_user_response h p = moved_permanently (''/v1/users/@'' @ pu_handle p)
     (JsonBody (JObj (public_user_members p @ [(''movedFrom'', JStr h)])))"

definition user_by_handle :: "app_state \<Rightarrow> string \<Rightarrow> response hub" where
  "user_by_handle st handle =
     (case canonical_handle (strip_handle handle) of
        None \<Rightarrow> ret not_found
      | Some h \<Rightarrow>
          bnd (get_user_by_handle (st_ext st) h) (\<lambda>u.
          case u of
            Some u \<Rightarrow> (case public_of u of
                Some p \<Rightarrow> ret (ok_json 200 (JObj (public_user_members p)))
              | None \<Rightarrow> ret not_found)
          | None \<Rightarrow>
              bnd (resolve_moved_handle (st_ext st) h) (\<lambda>moved.
              case Option.bind moved public_of of
                Some p \<Rightarrow> ret (moved_user_response h p)
              | None \<Rightarrow> ret not_found)))"

section \<open>What the endpoints keep\<close>

lemma keeps_require_user [keeps]: "keeps I (require_user st rq)"
  unfolding require_user_def by (intro keeps)

lemma keeps_with_user [keeps]: "(\<And>sub. keeps I (f sub)) \<Longrightarrow> keeps I (with_user st rq f)"
  unfolding with_user_def by (intro keeps)

lemma keeps_me_response [keeps]: "keeps I (me_response st s u)"
  unfolding me_response_def me_json_def by (intro keeps)

lemma keeps_rename_response [keeps]: "keeps I (rename_response st r)"
  unfolding rename_response_def by (cases r) (auto intro!: keeps simp del: ret_apply)

lemma keeps_user_by_handle [keeps]: "keeps I (user_by_handle st h)"
  unfolding user_by_handle_def by (intro keeps)

lemma user_endpoints_keep:
  assumes "\<And>s. keeps I (ensure_user (st_ext st) s)"
    "\<And>u h. canonical_handle h = Some h \<Longrightarrow> keeps I (claim_handle (st_ext st) u h)"
    "\<And>u old new. canonical_handle new = Some new \<Longrightarrow> keeps I (rename_handle (st_ext st) u old new)"
    "\<And>u n. keeps I (set_display_name (st_ext st) u n)"
  shows "keeps I (me st rq)" "keeps I (patch_me st rq)" "keeps I (claim_handle_endpoint st rq)"
  unfolding me_def patch_me_def claim_handle_endpoint_def Let_def
  by (intro keeps assms; auto simp: bind_eq_Some_conv canonical_handle_fixed dest: canonical_handle_ident)+

section \<open>Resolving a handle\<close>

text \<open>
  What the pages of a handle rely on: a handle belongs to at most the user that is found under
  it, and a moved handle leads to a user that is found under its present handle. From that, a
  redirect takes one hop.
\<close>

datatype 'u resolution = Here 'u | Moved_to 'u | Gone

locale handle_directory =
  fixes lookup :: "'d \<Rightarrow> string \<Rightarrow> 'u option"
    and moved :: "nat \<Rightarrow> 'd \<Rightarrow> string \<Rightarrow> 'u option"
    and handle_of :: "'u \<Rightarrow> string option"
    and ok :: "'d \<Rightarrow> bool"
  assumes lookup_handle: "ok d \<Longrightarrow> lookup d h = Some u \<Longrightarrow> handle_of u = Some h"
    and moved_found: "ok d \<Longrightarrow> moved t d h = Some u \<Longrightarrow> \<exists>h'. handle_of u = Some h' \<and> lookup d h' = Some u"
begin

definition resolve :: "nat \<Rightarrow> 'd \<Rightarrow> string \<Rightarrow> 'u resolution" where
  "resolve t d h =
     (case lookup d h of
        Some u \<Rightarrow> Here u
      | None \<Rightarrow> (case moved t d h of Some u \<Rightarrow> Moved_to u | None \<Rightarrow> Gone))"

lemma here_iff: "resolve t d h = Here u \<longleftrightarrow> lookup d h = Some u"
  by (auto simp: resolve_def split: option.splits)

lemma one_hop:
  assumes "ok d" and "resolve t d h = Moved_to u"
  obtains h' where "handle_of u = Some h'" "h' \<noteq> h" "resolve t' d h' = Here u"
proof -
  have none: "lookup d h = None" and m: "moved t d h = Some u"
    using assms(2) by (auto simp: resolve_def split: option.splits)
  from moved_found [OF assms(1) m] obtain h' where "handle_of u = Some h'" "lookup d h' = Some u" by blast
  with none show thesis by (intro that [of h']) (auto simp: here_iff)
qed

end

definition directory_lookup :: "ext \<Rightarrow> db \<Rightarrow> string \<Rightarrow> user_entry option" where
  "directory_lookup x d h = map_option (user_of x) (find_user (\<lambda>r. ur_handle r = Some h) d)"

definition directory_moved :: "ext \<Rightarrow> nat \<Rightarrow> db \<Rightarrow> string \<Rightarrow> user_entry option" where
  "directory_moved x t d h =
     (case live_reserve (\<lambda>r. rr_handle r = h) t d of
        None \<Rightarrow> None
      | Some r \<Rightarrow> opt_filter (\<lambda>u. ue_handle u \<noteq> None \<and> ue_account_type u = ''user'')
          (map_option (user_of x) (find_user (\<lambda>u. ur_usr_id u = Some (rr_usr_id r)) d)))"

lemma directory_moved_row:
  assumes "directory_moved x t d h = Some u"
  shows "\<exists>k r h'. u = user_of x r \<and> (k, r) \<in> set (tb_user d) \<and> ur_handle r = Some h' \<and> ur_account_type r = ''user''"
  using assms
  by (auto simp: directory_moved_def opt_filter_eq_Some split: option.splits dest!: find_user_Some) blast

interpretation directory: handle_directory "directory_lookup x" "directory_moved x" ue_handle roster_inv for x
proof unfold_locales
  fix d h u
  assume "directory_lookup x d h = Some u"
  then show "ue_handle u = Some h" by (auto simp: directory_lookup_def dest: find_user_Some)
next
  fix d t h u
  assume inv: "roster_inv d" and m: "directory_moved x t d h = Some u"
  obtain k r h' where r: "u = user_of x r" "(k, r) \<in> set (tb_user d)" "ur_handle r = Some h'"
    using directory_moved_row [OF m] by blast
  have "find_user (\<lambda>r. ur_handle r = Some h') d = Some r" by (rule find_by_handle [OF inv r(2,3)])
  then show "\<exists>h'. ue_handle u = Some h' \<and> directory_lookup x d h' = Some u"
    using r by (auto simp: directory_lookup_def)
qed

lemma resolve_alone [quiet]:
  assumes "alone w"
  shows "bnd (get_user_by_handle x h) f w = f (directory_lookup x (w_db w) h) w"
    "bnd (resolve_moved_handle x h) g w = g (directory_moved x (w_now w) (w_db w) h) w"
  using assms
  by (simp_all add: get_user_by_handle_def resolve_moved_handle_def quiet directory_lookup_def directory_moved_def
      bnd_assoc split: option.split)

section \<open>Handles stay canonical\<close>

definition canonical_rows :: "string \<Rightarrow> user_row \<Rightarrow> bool" where
  "canonical_rows k r \<longleftrightarrow> (case ur_handle r of None \<Rightarrow> True | Some h \<Rightarrow> canonical_handle h = Some h)"

definition roster_canonical :: "db \<Rightarrow> bool" where
  "roster_canonical d \<longleftrightarrow> roster_inv d \<and> rows_ok canonical_rows (tb_user d)"

lemma canonical_rows_put:
  assumes "tab_ok t" and "tab_get t k = Some r" and "rows_ok canonical_rows t" and "canonical_handle h = Some h"
  shows "rows_ok canonical_rows (tab_put k (r\<lparr>ur_handle := Some h\<rparr>) t)"
    and "rows_ok canonical_rows (tab_put k (r\<lparr>ur_handle := Some h, ur_handle_changed_at := c\<rparr>) t)"
  using assms by (auto simp: canonical_rows_def intro!: rows_ok_put)

lemma roster_tab_ok: "roster_inv d \<Longrightarrow> tab_ok (tb_user d)"
  by (simp add: roster_inv_def)

lemma roster_canonical_writes:
  "roster_canonical d \<Longrightarrow> roster_canonical (snd (create_user u s d))"
  "canonical_handle h = Some h \<Longrightarrow> roster_canonical d \<Longrightarrow> roster_canonical (snd (claim_update u h d))"
  "canonical_handle h = Some h \<Longrightarrow> roster_canonical d \<Longrightarrow> roster_canonical (snd (rename_tx u old h t d))"
  using roster_inv_create [of d u s] roster_inv_claim [of d u h] roster_inv_rename [of d u old h t]
  by (auto simp: roster_canonical_def create_user_def claim_update_def rename_tx_def fresh_user_def canonical_rows_def
      intro!: rows_ok_put canonical_rows_put intro: roster_tab_ok split: option.splits)

lemma roster_canonical_display:
  assumes "roster_canonical d"
  shows "roster_canonical (d\<lparr>tb_user := tab_update u
    (\<lambda>r. if ur_account_type r = ''user'' then r\<lparr>ur_display_name := n\<rparr> else r) (tb_user d)\<rparr>)"
  using assms roster_inv_display [of d u n]
  by (auto simp: roster_canonical_def canonical_rows_def intro!: rows_ok_update)

lemma user_endpoints_canonical:
  "keeps roster_canonical (me st rq)" "keeps roster_canonical (patch_me st rq)"
  "keeps roster_canonical (claim_handle_endpoint st rq)"
  by (auto intro!: user_endpoints_keep keeps_ensure keeps_claim keeps_rename keeps_display
      roster_canonical_writes roster_canonical_display)

section \<open>Properties\<close>

text \<open>
  A read of a public row, alone, as the answer to what the handle resolves to.
\<close>

lemma user_by_handle_alone:
  assumes "alone w" and "canonical_handle (strip_handle handle) = Some h"
  shows "user_by_handle st handle w =
    (Inr (case directory.resolve (st_ext st) (w_now w) (w_db w) h of
       Here u \<Rightarrow> (case public_of u of Some p \<Rightarrow> ok_json 200 (JObj (public_user_members p)) | None \<Rightarrow> not_found)
     | Moved_to u \<Rightarrow> (case public_of u of Some p \<Rightarrow> moved_user_response h p | None \<Rightarrow> not_found)
     | Gone \<Rightarrow> not_found), w)"
  using assms(2)
  by (simp add: user_by_handle_def resolve_alone [OF assms(1)] directory.resolve_def split: option.split)

lemma moved_public:
  assumes "directory_moved x t d h = Some u"
  shows "\<exists>p. public_of u = Some p"
  using directory_moved_row [OF assms] by (auto simp: public_of_def is_publisher_kind_def)

text \<open>
  A redirect from a former handle takes exactly one hop: when the public row of a handle
  answers with a redirect, its location is the path of the user's present handle, which is
  another one, and there the answer is the row itself, not to be redirected again.
\<close>

theorem user_redirect_takes_one_hop:
  assumes "alone w" and "roster_canonical (w_db w)"
    and "user_by_handle st handle w = (Inr resp, w')" and "rs_status resp = 301"
  shows "\<exists>new p. map_of (rs_headers resp) ''location'' = Some (''/v1/users/@'' @ new) \<and>
     canonical_handle (strip_handle handle) \<noteq> Some new \<and>
     user_by_handle st (''@'' @ new) w = (Inr (ok_json 200 (JObj (public_user_members p))), w)"
proof -
  obtain h where h: "canonical_handle (strip_handle handle) = Some h"
    using assms(3,4) by (cases "canonical_handle (strip_handle handle)") (auto simp: user_by_handle_def not_found_def)
  have inv: "roster_inv (w_db w)" using assms(2) by (simp add: roster_canonical_def)
  note resp = user_by_handle_alone [OF assms(1) h, of st]
  obtain u where u: "directory.resolve (st_ext st) (w_now w) (w_db w) h = Moved_to u"
    using assms(3,4) by (cases "directory.resolve (st_ext st) (w_now w) (w_db w) h")
      (auto simp: resp ok_json_def not_found_def split: option.splits)
  then have m: "directory_moved (st_ext st) (w_now w) (w_db w) h = Some u"
    by (auto simp: directory.resolve_def split: option.splits)
  obtain p where p: "public_of u = Some p" using moved_public [OF m] by blast
  obtain new where new: "ue_handle u = Some new" "new \<noteq> h"
    "directory.resolve (st_ext st) (w_now w) (w_db w) new = Here u"
    using directory.one_hop [OF inv u, of "w_now w"] by metis
  have "pu_handle p = new" using p new(1) by (simp add: public_of_eq_Some)
  moreover have "canonical_handle new = Some new"
  proof -
    obtain k r where "u = user_of (st_ext st) r" "(k, r) \<in> set (tb_user (w_db w))"
      using directory_moved_row [OF m] by blast
    then show ?thesis
      using assms(2) new(1) by (auto simp: roster_canonical_def canonical_rows_def dest!: rows_okD)
  qed
  moreover have "resp = moved_user_response h p" using assms(3) resp u p by simp
  ultimately show ?thesis
    using user_by_handle_alone [OF assms(1), of "''@'' @ new" new st] new p h
    by (intro exI [of _ new] exI [of _ p]) (simp add: moved_user_response_def moved_permanently_def strip_handle_def strip_prefix_def)
qed

section \<open>What a claim answers\<close>

lemma require_user_pure [quiet]:
  "require_user st rq w = (Inr (case user_principal (st_verifier st) (rq_authorization rq) [UserKind] of
     Some (User u _ _) \<Rightarrow> Inr u | _ \<Rightarrow> Inl unauthorized), w)"
  by (simp add: require_user_def authenticate_def split: option.split principal.split)

definition signed_in :: "app_state \<Rightarrow> request \<Rightarrow> string option" where
  "signed_in st rq =
     (case user_principal (st_verifier st) (rq_authorization rq) [UserKind] of Some (User u _ _) \<Rightarrow> Some u | _ \<Rightarrow> None)"

lemma with_user_eq:
  "with_user st rq f w = (case signed_in st rq of Some sub \<Rightarrow> f sub w | None \<Rightarrow> (Inr unauthorized, w))"
  by (simp add: with_user_def or_return_def bnd_def require_user_pure signed_in_def split: option.split principal.split)

lemma me_response_alone:
  assumes "alone w"
  shows "\<exists>resp. me_response st s u w = (Inr resp, w) \<and> rs_status resp = s"
  using assms by (simp add: me_response_def me_json_def get_reserve_of_def bnd_assoc quiet ok_json_def)

lemma ensure_user_alone [quiet]:
  assumes "alone w" and "find_user (\<lambda>r. ur_creo_sub r = Some sub) (w_db w) = Some r"
  shows "ensure_user x sub w = (Inr (user_of x r), w)"
  unfolding ensure_user_def
  by (rule retry_once) (use assms in \<open>simp add: ensure_user_once_def get_user_by_sub_def quiet\<close>)

text \<open>
  What \<open>PUT /v1/me/handle\<close> answers to a user and does to the database, from the specifications
  of claiming and renaming.
\<close>

definition claim_outcome :: "ext \<Rightarrow> string \<Rightarrow> user_row \<Rightarrow> string \<Rightarrow> nat \<Rightarrow> db \<Rightarrow> nat \<times> db" where
  "claim_outcome x u r h t d =
     (case ur_handle r of
        Some current \<Rightarrow>
          (if current = h then (200, d)
           else (case rename_spec x u current h t d of (Renamed _, d') \<Rightarrow> (200, d') | (_, d') \<Rightarrow> (409, d')))
      | None \<Rightarrow> (case claim_spec x u h t d of (Some _, d') \<Rightarrow> (201, d') | (None, d') \<Rightarrow> (409, d')))"

lemma rename_response_alone:
  assumes "alone w"
  shows "\<exists>resp. rename_response st r w = (Inr resp, w) \<and>
    rs_status resp = (case r of Renamed _ \<Rightarrow> 200 | _ \<Rightarrow> 409)"
  using me_response_alone [OF assms, of st 200]
  by (cases r) (auto simp: rename_response_def conflict_def)

lemma claim_endpoint_alone:
  assumes "alone w" and "roster_inv (w_db w)" and "signed_in st rq = Some sub"
    and "Option.bind (x_parse_json (st_ext st) (rq_body rq)) decode_claim = Some (Some text)"
    and "canonical_handle text = Some h"
    and "find_user (\<lambda>r. ur_creo_sub r = Some sub) (w_db w) = Some r" and "ur_usr_id r = Some u"
  shows "\<exists>resp. claim_handle_endpoint st rq w =
      (Inr resp, w\<lparr>w_db := snd (claim_outcome (st_ext st) u r h (w_now w) (w_db w))\<rparr>) \<and>
    rs_status resp = fst (claim_outcome (st_ext st) u r h (w_now w) (w_db w))"
proof -
  let ?x = "st_ext st"
  have mine: "bnd (ensure_user ?x sub) f w = f (user_of ?x r) w" for f :: "user_entry \<Rightarrow> response hub"
    using ensure_user_alone [OF assms(1,6)] by simp
  have id: "ue_usr_id (user_of ?x r) = u" using assms(7) by (simp add: user_of_def)
  note start = claim_handle_endpoint_def with_user_eq assms(3,4,5) mine id
  show ?thesis
  proof (cases "ur_handle r")
    case None
    obtain c d where c: "claim_spec ?x u h (w_now w) (w_db w) = (c, d)" by fastforce
    then have "bnd (claim_handle ?x u h) f w = f c (w\<lparr>w_db := d\<rparr>)" for f :: "user_entry option \<Rightarrow> response hub"
      using claim_handle_eq [OF assms(1,2), of ?x u h] by simp
    then show ?thesis
      using None c me_response_alone [of "w\<lparr>w_db := d\<rparr>" st 201] assms(1)
      by (auto simp: start claim_outcome_def conflict_def split: option.split)
  next
    case (Some current)
    obtain c d where c: "rename_spec ?x u current h (w_now w) (w_db w) = (c, d)" by fastforce
    then have "bnd (rename_handle ?x u current h) f w = f c (w\<lparr>w_db := d\<rparr>)" for f :: "rename_outcome \<Rightarrow> response hub"
      using rename_handle_eq [OF assms(1,2), of ?x u current h] by simp
    then show ?thesis
      using Some c me_response_alone [OF assms(1), of st 200] rename_response_alone [of "w\<lparr>w_db := d\<rparr>" st c] assms(1)
      by (auto simp: start claim_outcome_def split: rename_outcome.split)
  qed
qed

text \<open>
  C26: a signed-in user's request for a handle, alone, ends with 201 for a first claim, 200 for the
  present handle and for a rename, 409 for every refusal, and the database is afterwards what
  the specification of the claim or of the rename says; in particular a refusal changes nothing.
\<close>

theorem claim_endpoint_outcome:
  assumes "alone w" and "roster_inv (w_db w)" and "signed_in st rq = Some sub"
    and "Option.bind (x_parse_json (st_ext st) (rq_body rq)) decode_claim = Some (Some text)"
    and "canonical_handle text = Some h"
    and "find_user (\<lambda>r. ur_creo_sub r = Some sub) (w_db w) = Some r" and "ur_usr_id r = Some u"
  shows "\<exists>resp. claim_handle_endpoint st rq w =
      (Inr resp, w\<lparr>w_db := snd (claim_outcome (st_ext st) u r h (w_now w) (w_db w))\<rparr>) \<and>
    rs_status resp = fst (claim_outcome (st_ext st) u r h (w_now w) (w_db w))"
  using assms by (rule claim_endpoint_alone)

section \<open>Concrete instances\<close>

definition a_state :: app_state where
  "a_state = \<lparr>st_ext = an_ext\<lparr>x_parse_json := (\<lambda>s. Some (JObj [(''handle'', JStr s)]))\<rparr>,
     st_verifier = \<lparr>verify_user_token = (\<lambda>t. Some (User t None [])), verify_app_token = (\<lambda>_. None)\<rparr>,
     st_admin_key = Some ''key'', st_issuer = ''https://id'', st_settings = None,
     st_service = ''hub'', st_version = ''1''\<rparr>"

definition a_request :: "string \<Rightarrow> string \<Rightarrow> request" where
  "a_request sub body = \<lparr>rq_authorization = Some (''Bearer '' @ sub), rq_app_token = None, rq_admin_key = None,
     rq_query = [], rq_body = body\<rparr>"

lemma canonical_examples:
  "canonical_handle ''ann'' = Some ''ann''" "canonical_handle ''bob'' = Some ''bob''"
  "canonical_handle ''dan'' = Some ''dan''" "canonical_handle ''eve'' = Some ''eve''"
  by code_simp+

lemma roster_db_canonical: "roster_canonical roster_db"
  by (simp add: roster_canonical_def roster_db_inv)
    (simp add: rows_ok_def roster_db_def canonical_rows_def row_simps canonical_examples)

theorem claim_endpoint_witness:
  "\<exists>resp. claim_handle_endpoint a_state (a_request ''sub_c'' ''dan'') (a_world roster_db) =
     (Inr resp, a_world (roster_db\<lparr>tb_user := tab_put ''usr_c'' (cid\<lparr>ur_handle := Some ''dan''\<rparr>) (tb_user roster_db)\<rparr>)) \<and>
     rs_status resp = 201"
proof -
  have "claim_outcome (st_ext a_state) ''usr_c'' cid ''dan'' 0 roster_db =
    (201, roster_db\<lparr>tb_user := tab_put ''usr_c'' (cid\<lparr>ur_handle := Some ''dan''\<rparr>) (tb_user roster_db)\<rparr>)"
    by (simp add: claim_outcome_def claim_spec_def handle_available_def reserved_for_other_def find_user_def
        tab_where_def roster_db_def empty_db_def tab_get_def row_simps)
  moreover have "find_user (\<lambda>r. ur_creo_sub r = Some ''sub_c'') roster_db = Some cid"
    by (simp add: find_user_def tab_where_def roster_db_def row_simps)
  moreover have "signed_in a_state (a_request ''sub_c'' ''dan'') = Some ''sub_c''"
    by (simp add: signed_in_def a_state_def a_request_def user_principal_def strip_prefix_def)
  moreover have "Option.bind (x_parse_json (st_ext a_state) (rq_body (a_request ''sub_c'' ''dan''))) decode_claim = Some (Some ''dan'')"
    by (simp add: a_state_def a_request_def decode_claim_def decode_struct_def dec_opt_string_def)
  ultimately show ?thesis
    using claim_endpoint_outcome [of "a_world roster_db" a_state "a_request ''sub_c'' ''dan''" "''sub_c''" "''dan''" "''dan''" cid "''usr_c''"]
    by (simp add: roster_db_inv canonical_examples) (simp add: cid_def fresh_user_def)
qed

text \<open>Ann has become \<open>eve\<close>: a reader of the former path is led there.\<close>

definition moved_db :: db where
  "moved_db = renamed_db ''usr_a'' ''ann'' ''eve'' 0 ann roster_db"

lemma moved_db_canonical: "roster_canonical moved_db"
proof -
  have "snd (rename_tx ''usr_a'' ''ann'' ''eve'' 0 roster_db) = moved_db"
    by (simp add: rename_tx_def moved_db_def renamed_db_def renamed_row_def roster_db_def tab_get_def row_simps
        cooldown_over_def index_free_def)
  then show ?thesis
    using roster_canonical_writes(3) [OF canonical_examples(4) roster_db_canonical, of "''usr_a''" "''ann''" 0] by simp
qed

theorem user_redirect_witness:
  "\<exists>resp p. user_by_handle a_state ''@ann'' (a_world moved_db) = (Inr resp, a_world moved_db) \<and>
     map_of (rs_headers resp) ''location'' = Some ''/v1/users/@eve'' \<and>
     user_by_handle a_state ''@eve'' (a_world moved_db) = (Inr (ok_json 200 (JObj (public_user_members p))), a_world moved_db)"
proof -
  have h: "canonical_handle (strip_handle ''@ann'') = Some ''ann''"
    by (simp add: strip_handle_def strip_prefix_def canonical_examples)
  have "directory.resolve (st_ext a_state) 0 moved_db ''ann'' = Moved_to (user_of (st_ext a_state) (renamed_row ''eve'' 0 ann))"
    by (simp add: directory.resolve_def directory_lookup_def directory_moved_def find_user_def live_reserve_def moved_db_def
        renamed_db_def renamed_row_def roster_db_def empty_db_def tab_where_def tab_put_def tab_delete_where_def row_simps opt_filter_def user_of_def)
  then obtain p where r: "user_by_handle a_state ''@ann'' (a_world moved_db) = (Inr (moved_user_response ''ann'' p), a_world moved_db)"
      "pu_handle p = ''eve''"
    using user_by_handle_alone [OF alone_a_world h, of a_state moved_db]
    by (simp add: public_of_def user_of_def renamed_row_def row_simps is_publisher_kind_def)
  then show ?thesis
    using user_redirect_takes_one_hop [OF alone_a_world _ r(1)]
    by (auto simp: moved_db_canonical moved_user_response_def moved_permanently_def)
qed

end
