(* ===== verification/Http_Publications.thy ===== *)
theory Http_Publications
  imports Http_Users
begin

text \<open>
  The endpoints of the publications (\<open>crates/chronista-hub-server/src/app.rs\<close>): the names a user
  may publish under, the list of a name's publications, and their registration and removal by
  an application on behalf of a person.
\<close>

section \<open>Reading\<close>

definition publisher_json :: "public_user \<Rightarrow> json \<Rightarrow> json" where
  "publisher_json p role = JObj [(''usrId'', JStr (pu_usr_id p)), (''handle'', JStr (pu_handle p)),
     (''displayName'', json_opt (pu_display_name p)), (''accountType'', JStr (pu_account_type p)),
     (''canonicalPath'', JStr (pu_canonical_path p)), (''role'', role)]"

fun org_publishers :: "(user_entry \<times> string) list \<Rightarrow> json list" where
  "org_publishers [] = []"
| "org_publishers ((org, role) # orgs) =
     (if \<not> role_can_publish role then org_publishers orgs
      else case public_of org of
        Some p \<Rightarrow> publisher_json p (JStr role) # org_publishers orgs
      | None \<Rightarrow> org_publishers orgs)"

definition my_publishers :: "app_state \<Rightarrow> request \<Rightarrow> response hub" where
  "my_publishers st rq = with_user st rq (\<lambda>sub.
     bnd (ensure_user (st_ext st) sub) (\<lambda>mine.
     bnd (orgs_of (st_ext st) (ue_usr_id mine)) (\<lambda>orgs.
     ret (json_response 200 [(''publishers'', JArr
       ((case public_of mine of Some p \<Rightarrow> [publisher_json p JNull] | None \<Rightarrow> []) @ org_publishers orgs))]))))"

definition publication_view :: "string \<Rightarrow> publication \<Rightarrow> json" where
  "publication_view handle p = JObj [(''slug'', JStr (pb_slug p)), (''title'', json_opt (pb_title p)),
     (''url'', JStr (pb_url p)), (''appId'', JStr (pb_app_id p)),
     (''canonicalPath'', JStr (''/@'' @ handle @ ''/'' @ pb_slug p)), (''updatedAt'', json_opt (pb_updated_at p))]"

definition publications_of :: "app_state \<Rightarrow> string \<Rightarrow> response hub" where
  "publications_of st handle =
     (case canonical_handle (strip_handle handle) of
        None \<Rightarrow> ret not_found
      | Some h \<Rightarrow>
          bnd (get_user_by_handle (st_ext st) h) (\<lambda>u.
          case u of
            None \<Rightarrow>
              bnd (resolve_moved_handle (st_ext st) h) (\<lambda>moved.
              case Option.bind moved ue_handle of
                Some new \<Rightarrow> ret (moved_permanently (''/v1/users/@'' @ new @ ''/publications'') NoBody)
              | None \<Rightarrow> ret not_found)
          | Some u \<Rightarrow>
              if public_of u = None then ret not_found
              else bnd (list_publications (st_ext st) (ue_usr_id u)) (\<lambda>ps.
                ret (json_response 200 [(''handle'', JStr h), (''publications'', JArr (map (publication_view h) ps))]))))"

section \<open>Who may write\<close>

definition PUBLICATION_SCOPE :: string where
  "PUBLICATION_SCOPE = ''register_publication''"

definition require_app :: "app_state \<Rightarrow> request \<Rightarrow> string \<Rightarrow> (response + string) hub" where
  "require_app st rq scope =
     bnd (authenticate (st_ext st) (st_verifier st) True (rq_authorization rq) (rq_app_token rq) [AppKind] [scope])
       (\<lambda>auth.
     ret (case auth of
            Inr (App app_id _) \<Rightarrow> Inr app_id
          | Inl (InsufficientScope missing) \<Rightarrow> Inl (json_response 403
              [(''error'', JStr ''insufficient scope''), (''missing_scopes'', json_strings missing)])
          | Inl AuthUnavailable \<Rightarrow> Inl db_unavailable
          | _ \<Rightarrow> Inl unauthorized))"

definition publisher_error :: "nat \<Rightarrow> string \<Rightarrow> string \<Rightarrow> response" where
  "publisher_error status msg reason = json_response status [(''error'', JStr msg), (''reason'', JStr reason)]"

definition no_publisher :: response where
  "no_publisher = publisher_error 404 ''publisher not found'' ''no_publisher''"

definition no_actor :: response where
  "no_actor = publisher_error 400 ''actorSub is required'' ''no_actor''"

definition not_member :: response where
  "not_member = publisher_error 403 ''the actor cannot publish under this handle'' ''not_member''"

lemma publisher_error_status [simp]:
  "rs_status no_publisher = 404" "rs_status no_actor = 400" "rs_status not_member = 403"
  by (simp_all add: no_publisher_def no_actor_def not_member_def publisher_error_def)

definition check_publisher :: "ext \<Rightarrow> string \<Rightarrow> string \<Rightarrow> (response + user_entry \<times> string) hub" where
  "check_publisher x handle actor_sub =
     (case canonical_handle (strip_handle handle) of
        None \<Rightarrow> ret (Inl no_publisher)
      | Some h \<Rightarrow>
          bnd (get_user_by_handle x h) (\<lambda>found.
          bnd (case found of Some u \<Rightarrow> ret (Some u) | None \<Rightarrow> resolve_moved_handle x h) (\<lambda>publisher.
          case opt_filter (\<lambda>u. public_of u \<noteq> None) publisher of
            None \<Rightarrow> ret (Inl no_publisher)
          | Some publisher \<Rightarrow>
              if actor_sub = [] then ret (Inl no_actor)
              else bnd (get_user_by_sub x actor_sub) (\<lambda>actor.
              case actor of
                None \<Rightarrow> ret (Inl not_member)
              | Some actor \<Rightarrow>
                  bnd (if is_organization publisher
                       then bnd (membership_role (ue_usr_id publisher) (ue_usr_id actor)) (\<lambda>r.
                         ret (case r of Some r \<Rightarrow> role_can_publish r | None \<Rightarrow> False))
                       else ret (ue_usr_id publisher = ue_usr_id actor)) (\<lambda>allowed.
                  if \<not> allowed then ret (Inl not_member)
                  else ret (Inr (publisher, ue_usr_id actor)))))))"

section \<open>Where a link may lead\<close>

text \<open>\<open>h.split_once('.')\<close>.\<close>

definition split_once :: "char \<Rightarrow> string \<Rightarrow> (string \<times> string) option" where
  "split_once c s =
     (case dropWhile (\<lambda>b. b \<noteq> c) s of [] \<Rightarrow> None | _ # rest \<Rightarrow> Some (takeWhile (\<lambda>b. b \<noteq> c) s, rest))"

definition url_host_lower :: "url \<Rightarrow> string option" where
  "url_host_lower u = map_option to_ascii_lowercase (url_host u)"

text \<open>The hosts of a registered address: the domain above it, when that has a dot, and its own.\<close>

definition base_hosts :: "ext \<Rightarrow> string option \<Rightarrow> string list" where
  "base_hosts x base =
     (case Option.bind (Option.bind base (x_parse_url x)) url_host_lower of
        None \<Rightarrow> []
      | Some h \<Rightarrow>
          (case split_once (CHR ''.'') h of
             Some (_, parent) \<Rightarrow> if CHR ''.'' \<in> set parent then [parent] else []
           | None \<Rightarrow> []) @ [h])"

definition allowed_hosts :: "ext \<Rightarrow> app_entry \<Rightarrow> string list" where
  "allowed_hosts x app = base_hosts x (ae_home_url app) @ base_hosts x (ae_login_url app)"

definition app_url :: "ext \<Rightarrow> string \<Rightarrow> app_entry \<Rightarrow> string option" where
  "app_url x url app =
     Option.bind (x_parse_url x url) (\<lambda>u.
     if url_scheme u \<noteq> ''https'' \<or> url_username u \<noteq> [] \<or> url_has_password u \<or> url_has_port u then None
     else Option.bind (url_host_lower u) (\<lambda>host.
       if host \<in> set (allowed_hosts x app) \<and> length (url_text u) \<le> 2048 then Some (url_text u) else None))"

section \<open>Registering and removing\<close>

record put_publication_request =
  pq_actor_sub :: string
  pq_url :: string
  pq_title :: "string option"

definition decode_put_publication :: "json \<Rightarrow> put_publication_request option" where
  "decode_put_publication v =
     Option.bind (decode_struct True [(''actorSub'', False), (''url'', False), (''title'', True)] v) (\<lambda>f.
     Option.bind (dec_string (f ''actorSub'')) (\<lambda>sub.
     Option.bind (dec_string (f ''url'')) (\<lambda>url.
     Option.bind (dec_opt_string (f ''title'')) (\<lambda>title.
     Some \<lparr>pq_actor_sub = sub, pq_url = url, pq_title = title\<rparr>))))"

definition bad_request :: "string \<Rightarrow> response" where
  "bad_request msg = error_response 400 msg"

definition foreign_slug :: response where
  "foreign_slug = conflict ''the slug belongs to another app''"

text \<open>The part of the handler behind the checks of the application and the publisher.\<close>

definition write_publication ::
  "app_state \<Rightarrow> string \<Rightarrow> string \<Rightarrow> put_publication_request \<Rightarrow> user_entry \<times> string \<Rightarrow> response hub" where
  "write_publication st app_id slug req = (\<lambda>(publisher, actor).
     case canonical_slug slug of
       None \<Rightarrow> ret (bad_request ''slug must match ^[a-z0-9][a-z0-9-]{0,62}$ and not be reserved'')
     | Some slug \<Rightarrow>
         bnd all_app_ids (\<lambda>ids.
         if slug \<in> set ids then ret (bad_request ''slug is an app id (reserved for the app tree)'')
         else bnd (get_active_app app_id) (\<lambda>app.
         case app of
           None \<Rightarrow> ret (error_response 403 ''the app is not active in the roster'')
         | Some app \<Rightarrow>
             (case app_url (st_ext st) (pq_url req) app of
                None \<Rightarrow> ret (bad_request ''url must be https on the app's own host'')
              | Some url \<Rightarrow>
                  (let title = trimmed_name (pq_title req);
                       p = \<lparr>pb_publisher = ue_usr_id publisher, pb_slug = slug, pb_url = url, pb_title = title,
                         pb_app_id = app_id, pb_updated_at = None\<rparr>;
                       handle = (case ue_handle publisher of Some h \<Rightarrow> h | None \<Rightarrow> [])
                   in if (case title of Some t \<Rightarrow> 120 < chars_count t | None \<Rightarrow> False)
                      then ret (bad_request ''title must be 120 characters or fewer'')
                      else bnd (get_publication (st_ext st) (ue_usr_id publisher) slug) (\<lambda>existing.
                      if (case existing of Some e \<Rightarrow> pb_app_id e \<noteq> app_id | None \<Rightarrow> False)
                      then ret foreign_slug
                      else bnd (put_publication (st_ext st) p actor) (\<lambda>created.
                      bnd (get_publication (st_ext st) (ue_usr_id publisher) slug) (\<lambda>saved.
                      case saved of
                        None \<Rightarrow> raise (anyhow ''publication vanished right after put'')
                      | Some saved \<Rightarrow>
                          ret (ok_json (if created then 201 else 200) (publication_view handle saved))))))))))"

definition put_publication_endpoint :: "app_state \<Rightarrow> string \<Rightarrow> string \<Rightarrow> request \<Rightarrow> response hub" where
  "put_publication_endpoint st handle slug rq =
     or_return (require_app st rq PUBLICATION_SCOPE) (\<lambda>app_id.
     case Option.bind (x_parse_json (st_ext st) (rq_body rq)) decode_put_publication of
       None \<Rightarrow> ret (bad_request ''invalid JSON (actorSub, url, title)'')
     | Some req \<Rightarrow>
         or_return (check_publisher (st_ext st) handle (pq_actor_sub req)) (write_publication st app_id slug req))"

definition no_content :: response where
  "no_content = \<lparr>rs_status = 204, rs_headers = [], rs_body = NoBody, rs_db_unavailable = False\<rparr>"

definition delete_publication_endpoint :: "app_state \<Rightarrow> string \<Rightarrow> string \<Rightarrow> request \<Rightarrow> response hub" where
  "delete_publication_endpoint st handle slug rq =
     (case query_field rq ''actorSub'' of
        Some (Some actor_sub) \<Rightarrow>
          or_return (require_app st rq PUBLICATION_SCOPE) (\<lambda>app_id.
          or_return (check_publisher (st_ext st) handle actor_sub) (\<lambda>(publisher, _).
          case canonical_slug slug of
            None \<Rightarrow> ret not_found
          | Some slug \<Rightarrow>
              bnd (get_publication (st_ext st) (ue_usr_id publisher) slug) (\<lambda>existing.
              case existing of
                None \<Rightarrow> ret not_found
              | Some e \<Rightarrow>
                  if pb_app_id e \<noteq> app_id then ret foreign_slug
                  else bnd (delete_publication (ue_usr_id publisher) slug) (\<lambda>_. ret no_content))))
      | _ \<Rightarrow> ret query_rejection)"

lemma fixed_status [simp]:
  "rs_status (bad_request m) = 400" "rs_status foreign_slug = 409" "rs_status no_content = 204"
  "rs_status query_rejection = 400" "rs_status (conflict m) = 409"
  by (simp_all add: bad_request_def foreign_slug_def conflict_def no_content_def query_rejection_def)

section \<open>What the endpoints keep\<close>

lemma keeps_require_app [keeps]: "keeps I (require_app st rq scope)"
  unfolding require_app_def by (intro keeps)

lemma keeps_check_publisher [keeps]: "keeps I (check_publisher x handle sub)"
  unfolding check_publisher_def by (intro keeps)

lemma keeps_publication_reads [keeps]: "keeps I (publications_of st handle)"
  unfolding publications_of_def by (intro keeps)

lemma keeps_my_publishers: "(\<And>s. keeps I (ensure_user (st_ext st) s)) \<Longrightarrow> keeps I (my_publishers st rq)"
  unfolding my_publishers_def by (intro keeps)

lemma keeps_put_publication_endpoint:
  assumes "\<And>p a. canonical_slug (pb_slug p) = Some (pb_slug p) \<Longrightarrow> keeps I (put_publication (st_ext st) p a)"
  shows "keeps I (put_publication_endpoint st handle slug rq)"
  unfolding put_publication_endpoint_def write_publication_def Let_def
  by (intro keeps assms) (auto simp: canonical_slug_fixed dest: canonical_slug_ident)

lemma keeps_delete_publication_endpoint:
  "(\<And>p s. keeps I (delete_publication p s)) \<Longrightarrow> keeps I (delete_publication_endpoint st handle slug rq)"
  unfolding delete_publication_endpoint_def by (intro keeps)

section \<open>The checks, alone\<close>

text \<open>The publisher that a path names, and the id of the person who may publish under it.\<close>

definition publisher_at :: "ext \<Rightarrow> nat \<Rightarrow> db \<Rightarrow> string \<Rightarrow> user_entry option" where
  "publisher_at x t d handle =
     Option.bind (canonical_handle (strip_handle handle)) (\<lambda>h.
     opt_filter (\<lambda>u. public_of u \<noteq> None)
       (case directory.resolve x t d h of Here u \<Rightarrow> Some u | Moved_to u \<Rightarrow> Some u | Gone \<Rightarrow> None))"

definition role_in :: "db \<Rightarrow> string \<Rightarrow> string \<Rightarrow> string option" where
  "role_in d org member = map_option mr_role
     (first_of (filter (\<lambda>r. mr_org_user r = org \<and> mr_member_user r = member) (tb_member d)))"

definition may_publish :: "db \<Rightarrow> user_entry \<Rightarrow> string \<Rightarrow> bool" where
  "may_publish d publisher actor \<longleftrightarrow>
     (if is_organization publisher
      then (case role_in d (ue_usr_id publisher) actor of Some r \<Rightarrow> role_can_publish r | None \<Rightarrow> False)
      else ue_usr_id publisher = actor)"

definition publisher_check :: "ext \<Rightarrow> nat \<Rightarrow> db \<Rightarrow> string \<Rightarrow> string \<Rightarrow> response + user_entry \<times> string" where
  "publisher_check x t d handle sub =
     (case publisher_at x t d handle of
        None \<Rightarrow> Inl no_publisher
      | Some publisher \<Rightarrow>
          if sub = [] then Inl no_actor
          else (case find_user (\<lambda>r. ur_creo_sub r = Some sub) d of
            None \<Rightarrow> Inl not_member
          | Some a \<Rightarrow> if may_publish d publisher (ue_usr_id (user_of x a)) then Inr (publisher, ue_usr_id (user_of x a))
                      else Inl not_member))"

lemma check_publisher_alone:
  assumes "alone w"
  shows "check_publisher x handle sub w = (Inr (publisher_check x (w_now w) (w_db w) handle sub), w)"
proof (cases "canonical_handle (strip_handle handle)")
  case (Some h)
  note reads = get_user_by_sub_def membership_role_def bnd_assoc quiet assms
  define P where "P = (case directory.resolve x (w_now w) (w_db w) h of Here u \<Rightarrow> Some u | Moved_to u \<Rightarrow> Some u | Gone \<Rightarrow> None)"
  have found: "bnd (get_user_by_handle x h) (\<lambda>found.
      bnd (case found of Some u \<Rightarrow> ret (Some u) | None \<Rightarrow> resolve_moved_handle x h) f) w = f P w"
    for f :: "user_entry option \<Rightarrow> (response + user_entry \<times> string) hub"
    by (simp add: resolve_alone [OF assms] P_def directory.resolve_def split: option.split)
  show ?thesis
    unfolding check_publisher_def Some option.case found
    using assms Some
    by (auto simp: publisher_check_def publisher_at_def P_def [symmetric] may_publish_def role_in_def get_user_by_sub_def
        membership_role_def select_alone bnd_select_alone bnd_def split: option.split)
qed (simp add: check_publisher_def publisher_check_def publisher_at_def)

lemma reads_check_publisher [reads]: "reads (check_publisher x handle sub)"
  unfolding check_publisher_def by (intro reads)

lemma require_app_status:
  assumes "require_app st rq s w = (Inr (Inl resp), w')"
  shows "rs_status resp \<in> {401, 403, 503}"
proof -
  obtain auth v where "ret (case auth of Inr (App app_id _) \<Rightarrow> Inr app_id
          | Inl (InsufficientScope missing) \<Rightarrow> Inl (json_response 403
              [(''error'', JStr ''insufficient scope''), (''missing_scopes'', json_strings missing)])
          | Inl AuthUnavailable \<Rightarrow> Inl db_unavailable
          | _ \<Rightarrow> Inl unauthorized) v = (Inr (Inl resp), w')"
    using assms unfolding require_app_def bnd_eq_Inr by blast
  then show ?thesis by (auto split: sum.splits auth_error.splits principal.splits)
qed

lemma reads_require_app [reads]: "reads (require_app st rq scope)"
  unfolding require_app_def by (intro reads)

section \<open>Properties\<close>

lemma put_publication_asserted: "returns (\<lambda>_. True) (put_publication x p a) (\<lambda>_. publication_assert p)"
proof -
  have "returns (\<lambda>_. True) (run (upsert_publication p a)) (\<lambda>_. publication_assert p)"
    unfolding returns_def by (auto elim!: run_eq_Inr simp: upsert_publication_def Let_def split: if_splits)
  then have body: "returns (\<lambda>_. True) (bnd (run (upsert_publication p a)) (\<lambda>_. ret (e = None))) (\<lambda>_. publication_assert p)"
    for e :: "publication option"
    by (rule returns_bnd) (auto intro: returns_ret keeps simp del: ret_apply)
  show ?thesis
    unfolding put_publication_def
    by (rule returns_retry [OF returns_bnd [OF returns_True]]) (intro keeps body; simp)+
qed

text \<open>A link that is accepted: an https address without credentials and port on one of the hosts.\<close>

definition links_to :: "ext \<Rightarrow> app_entry \<Rightarrow> string \<Rightarrow> string \<Rightarrow> bool" where
  "links_to x app given link \<longleftrightarrow>
     (\<exists>u host. x_parse_url x given = Some u \<and> url_scheme u = ''https'' \<and> url_username u = [] \<and>
        \<not> url_has_password u \<and> \<not> url_has_port u \<and> url_host u = Some host \<and>
        to_ascii_lowercase host \<in> set (allowed_hosts x app) \<and> link = url_text u \<and> length link \<le> 2048)"

lemma app_url_eq_Some: "app_url x given app = Some link \<longleftrightarrow> links_to x app given link"
  by (auto simp: app_url_def links_to_def url_host_lower_def bind_eq_Some_conv)

text \<open>What is behind a change, or behind an answer 200 or 201.\<close>

definition succeeded :: "response \<Rightarrow> bool" where
  "succeeded resp \<longleftrightarrow> rs_status resp = 200 \<or> rs_status resp = 201"

lemma failed_responses [simp]:
  "\<not> succeeded (bad_request m)" "\<not> succeeded foreign_slug" "\<not> succeeded (error_response 403 m)"
  "\<not> succeeded unauthorized" "\<not> succeeded no_publisher" "\<not> succeeded no_actor" "\<not> succeeded not_member"
  by (simp_all add: succeeded_def)

lemma write_publication_inversion:
  assumes "alone w" and "publication_inv (w_db w)"
    and "write_publication st app_id slug req (publisher, actor) w = (Inr resp, w')" and "w' \<noteq> w \<or> succeeded resp"
  obtains s app url title d row created where
    "canonical_slug slug = Some s" "get_active_app app_id w = (Inr (Some app), w)" "links_to (st_ext st) app (pq_url req) url"
    "case tab_get (tb_publication (w_db w)) (ue_usr_id publisher, s) of None \<Rightarrow> True | Some r \<Rightarrow> pr_app_id r = app_id"
    "d = snd (upsert_publication \<lparr>pb_publisher = ue_usr_id publisher, pb_slug = s, pb_url = url,
       pb_title = title, pb_app_id = app_id, pb_updated_at = None\<rparr> actor (w_now w) (w_db w))"
    "w' = w\<lparr>w_db := d\<rparr>" "publication_inv d"
    "tab_get (tb_publication d) (ue_usr_id publisher, s) = Some row" "pr_url row = url"
    "resp = ok_json (if created then 201 else 200) (publication_view
       (case ue_handle publisher of Some h \<Rightarrow> h | None \<Rightarrow> []) (publication_of (st_ext st) row))"
proof -
  obtain s where s: "canonical_slug slug = Some s"
    using assms(3,4) by (cases "canonical_slug slug") (auto simp: write_publication_def)
  obtain app where app: "get_active_app app_id w = (Inr (Some app), w)"
    using assms s
    by (auto simp: write_publication_def all_app_ids_def get_active_app_def quiet split: if_splits option.splits)
  obtain url where url: "app_url (st_ext st) (pq_url req) app = Some url"
    using assms s app
    by (cases "app_url (st_ext st) (pq_url req) app")
      (auto simp: write_publication_def all_app_ids_def quiet split: if_splits)
  define p where "p = \<lparr>pb_publisher = ue_usr_id publisher, pb_slug = s, pb_url = url,
       pb_title = trimmed_name (pq_title req), pb_app_id = app_id, pb_updated_at = None\<rparr>"
  note unfolded = write_publication_def all_app_ids_def quiet s app url p_def [symmetric] assms(1,2)
  have own: "case tab_get (tb_publication (w_db w)) (ue_usr_id publisher, s) of None \<Rightarrow> True | Some r \<Rightarrow> pr_app_id r = app_id"
    using assms(3,4) by (auto simp: unfolded publication_of_def Let_def split: if_splits option.splits)
  obtain created v where put: "put_publication (st_ext st) p actor w = (Inr created, v)"
    and rest: "bnd (get_publication (st_ext st) (ue_usr_id publisher) s) (\<lambda>saved. case saved of
        None \<Rightarrow> raise (anyhow ''publication vanished right after put'')
      | Some saved \<Rightarrow> ret (ok_json (if created then 201 else 200)
          (publication_view (case ue_handle publisher of Some h \<Rightarrow> h | None \<Rightarrow> []) saved))) v = (Inr resp, w')"
    using assms(3,4) by (auto simp: unfolded publication_of_def Let_def bnd_eq_Inr split: if_splits option.splits)
  have ok: "publication_assert p" by (rule returnsD [OF put_publication_asserted stable_True put])
  define d where "d = snd (upsert_publication p actor (w_now w) (w_db w))"
  have v: "v = w\<lparr>w_db := d\<rparr>"
    using put by (simp add: put_publication_alone [OF assms(1,2) ok] d_def)
  have inv: "publication_inv d" unfolding d_def by (rule publication_inv_upsert [OF assms(2)])
  obtain row where row: "tab_get (tb_publication d) (ue_usr_id publisher, s) = Some row" "pr_url row = url"
    using ok by (auto simp: d_def upsert_publication_def Let_def p_def publication_row_of_def)
  have "get_publication (st_ext st) (ue_usr_id publisher) s v = (Inr (Some (publication_of (st_ext st) row)), v)"
    using get_publication_alone [of v "st_ext st" "ue_usr_id publisher" s] assms(1) inv row by (simp add: v)
  then have "resp = ok_json (if created then 201 else 200) (publication_view
       (case ue_handle publisher of Some h \<Rightarrow> h | None \<Rightarrow> []) (publication_of (st_ext st) row))" "w' = v"
    using rest by simp_all
  then show thesis
    using that [OF s app _ own d_def [unfolded p_def] _ inv row] url v by (simp add: app_url_eq_Some)
qed

lemma check_publisher_Inr:
  assumes "alone w" and "check_publisher x handle sub w = (Inr (Inr (publisher, actor)), w)"
  shows "publisher_at x (w_now w) (w_db w) handle = Some publisher" "may_publish (w_db w) publisher actor"
    "\<exists>r. find_user (\<lambda>r. ur_creo_sub r = Some sub) (w_db w) = Some r \<and> actor = ue_usr_id (user_of x r)"
  using assms(2)
  by (auto simp: check_publisher_alone [OF assms(1)] publisher_check_def split: option.splits if_splits)

text \<open>The same for an answer: who was let in, and what the application and the person were.\<close>

lemma put_publication_done:
  assumes "alone w" and "put_publication_endpoint st handle slug rq w = (Inr resp, w')" and "succeeded resp"
  obtains app_id req publisher actor where
    "require_app st rq PUBLICATION_SCOPE w = (Inr (Inr app_id), w)"
    "publisher_at (st_ext st) (w_now w) (w_db w) handle = Some publisher"
    "write_publication st app_id slug req (publisher, actor) w = (Inr resp, w')"
  using assms(2) unfolding put_publication_endpoint_def
proof (rule or_return_cases [OF _ reads_require_app assms(1)])
  assume "require_app st rq PUBLICATION_SCOPE w = (Inr (Inl resp), w)"
  then have False using assms(3) require_app_status [of st rq PUBLICATION_SCOPE w] by (auto simp: succeeded_def)
  then show thesis ..
next
  fix app_id
  assume app: "require_app st rq PUBLICATION_SCOPE w = (Inr (Inr app_id), w)"
    and f: "(case Option.bind (x_parse_json (st_ext st) (rq_body rq)) decode_put_publication of
       None \<Rightarrow> ret (bad_request ''invalid JSON (actorSub, url, title)'')
     | Some req \<Rightarrow> or_return (check_publisher (st_ext st) handle (pq_actor_sub req))
         (write_publication st app_id slug req)) w = (Inr resp, w')"
  then obtain req where "or_return (check_publisher (st_ext st) handle (pq_actor_sub req)) (write_publication st app_id slug req) w = (Inr resp, w')"
    using assms(3) by (auto split: option.splits)
  then show thesis
  proof (rule or_return_cases [OF _ reads_check_publisher assms(1)])
    assume "check_publisher (st_ext st) handle (pq_actor_sub req) w = (Inr (Inl resp), w)"
    then have False
      using assms(3) by (auto simp: check_publisher_alone [OF assms(1)] publisher_check_def split: option.splits if_splits)
    then show thesis ..
  next
    fix who
    assume who: "check_publisher (st_ext st) handle (pq_actor_sub req) w = (Inr (Inr who), w)"
      and g: "write_publication st app_id slug req who w = (Inr resp, w')"
    obtain publisher actor where p: "who = (publisher, actor)" by (cases who)
    show thesis by (rule that [OF app check_publisher_Inr(1) [OF assms(1) who [unfolded p]] g [unfolded p]])
  qed
qed

text \<open>
  C27: left alone, the only change that \<open>PUT /v1/publications/{handle}/{slug}\<close> ever makes is an
  authorised one: an application with the scope, active in the roster, for a person who may
  publish under that name (the person's own, or an organisation's with a publishing role), at a
  free slug or at one of its own publications, with an https link to one of the application's
  hosts; and then exactly that row is written.
\<close>

theorem publication_put_is_authorised:
  assumes "alone w" and "publication_inv (w_db w)"
    and "put_publication_endpoint st handle slug rq w = (Inr resp, w')" and "w' \<noteq> w"
  shows "\<exists>app_id req publisher person s app url title.
     require_app st rq PUBLICATION_SCOPE w = (Inr (Inr app_id), w) \<and>
     Option.bind (x_parse_json (st_ext st) (rq_body rq)) decode_put_publication = Some req \<and>
     publisher_at (st_ext st) (w_now w) (w_db w) handle = Some publisher \<and>
     find_user (\<lambda>r. ur_creo_sub r = Some (pq_actor_sub req)) (w_db w) = Some person \<and>
     may_publish (w_db w) publisher (ue_usr_id (user_of (st_ext st) person)) \<and>
     canonical_slug slug = Some s \<and> get_active_app app_id w = (Inr (Some app), w) \<and>
     links_to (st_ext st) app (pq_url req) url \<and>
     (case tab_get (tb_publication (w_db w)) (ue_usr_id publisher, s) of None \<Rightarrow> True | Some r \<Rightarrow> pr_app_id r = app_id) \<and>
     w_db w' = snd (upsert_publication \<lparr>pb_publisher = ue_usr_id publisher, pb_slug = s, pb_url = url,
       pb_title = title, pb_app_id = app_id, pb_updated_at = None\<rparr>
       (ue_usr_id (user_of (st_ext st) person)) (w_now w) (w_db w)) \<and>
     rs_status resp \<in> {200, 201}"
proof -
  obtain app_id where app_id: "require_app st rq PUBLICATION_SCOPE w = (Inr (Inr app_id), w)"
    and f: "(case Option.bind (x_parse_json (st_ext st) (rq_body rq)) decode_put_publication of
       None \<Rightarrow> ret (bad_request ''invalid JSON (actorSub, url, title)'')
     | Some req \<Rightarrow> or_return (check_publisher (st_ext st) handle (pq_actor_sub req))
         (write_publication st app_id slug req)) w = (Inr resp, w')"
    by (rule or_return_writesE [OF assms(3) [unfolded put_publication_endpoint_def] assms(4) reads_require_app assms(1)])
  obtain req where req: "Option.bind (x_parse_json (st_ext st) (rq_body rq)) decode_put_publication = Some req"
    using f assms(4) by (auto split: option.splits)
  have f': "or_return (check_publisher (st_ext st) handle (pq_actor_sub req)) (write_publication st app_id slug req) w = (Inr resp, w')"
    using f by (simp add: req)
  obtain publisher actor where who: "check_publisher (st_ext st) handle (pq_actor_sub req) w = (Inr (Inr (publisher, actor)), w)"
    and g: "write_publication st app_id slug req (publisher, actor) w = (Inr resp, w')"
    using or_return_writesE [OF f' assms(4) _ assms(1)] reads_check_publisher by (metis surj_pair)
  have "\<exists>s app url title.
     canonical_slug slug = Some s \<and> get_active_app app_id w = (Inr (Some app), w) \<and>
     links_to (st_ext st) app (pq_url req) url \<and>
     (case tab_get (tb_publication (w_db w)) (ue_usr_id publisher, s) of None \<Rightarrow> True | Some r \<Rightarrow> pr_app_id r = app_id) \<and>
     w_db w' = snd (upsert_publication \<lparr>pb_publisher = ue_usr_id publisher, pb_slug = s, pb_url = url,
       pb_title = title, pb_app_id = app_id, pb_updated_at = None\<rparr> actor (w_now w) (w_db w)) \<and>
     rs_status resp \<in> {200, 201}"
    by (rule write_publication_inversion [OF assms(1,2) g disjI1 [OF assms(4)]]) auto
  then show ?thesis using app_id req check_publisher_Inr [OF assms(1) who] by blast
qed

text \<open>
  Left alone, \<open>DELETE /v1/publications/{handle}/{slug}\<close> removes at most one row, and only for
  the application that registered it, with the scope, and for a person who may publish under
  that name; then it answers 204. In every other case it changes nothing.
\<close>

theorem publication_delete_is_authorised:
  assumes "alone w" and "publication_inv (w_db w)"
    and "delete_publication_endpoint st handle slug rq w = (Inr resp, w')" and "w' \<noteq> w"
  shows "\<exists>app_id sub publisher person s row.
     require_app st rq PUBLICATION_SCOPE w = (Inr (Inr app_id), w) \<and> query_field rq ''actorSub'' = Some (Some sub) \<and>
     publisher_at (st_ext st) (w_now w) (w_db w) handle = Some publisher \<and>
     find_user (\<lambda>r. ur_creo_sub r = Some sub) (w_db w) = Some person \<and>
     may_publish (w_db w) publisher (ue_usr_id (user_of (st_ext st) person)) \<and>
     canonical_slug slug = Some s \<and>
     tab_get (tb_publication (w_db w)) (ue_usr_id publisher, s) = Some row \<and> pr_app_id row = app_id \<and>
     w_db w' = (w_db w)\<lparr>tb_publication := tab_del (ue_usr_id publisher, s) (tb_publication (w_db w))\<rparr> \<and>
     rs_status resp = 204"
proof -
  obtain sub where sub: "query_field rq ''actorSub'' = Some (Some sub)"
    using assms(3,4) by (auto simp: delete_publication_endpoint_def split: option.splits)
  note start = assms(3) [unfolded delete_publication_endpoint_def sub option.case]
  obtain app_id where app_id: "require_app st rq PUBLICATION_SCOPE w = (Inr (Inr app_id), w)"
    and f: "or_return (check_publisher (st_ext st) handle sub) (\<lambda>(publisher, _). case canonical_slug slug of
       None \<Rightarrow> ret not_found
     | Some slug \<Rightarrow> bnd (get_publication (st_ext st) (ue_usr_id publisher) slug) (\<lambda>existing. case existing of
         None \<Rightarrow> ret not_found
       | Some e \<Rightarrow> if pb_app_id e \<noteq> app_id then ret foreign_slug
           else bnd (delete_publication (ue_usr_id publisher) slug) (\<lambda>_. ret no_content))) w = (Inr resp, w')"
    by (rule or_return_writesE [OF start assms(4) reads_require_app assms(1)])
  obtain publisher actor where who: "check_publisher (st_ext st) handle sub w = (Inr (Inr (publisher, actor)), w)"
    and g: "(case canonical_slug slug of
       None \<Rightarrow> ret not_found
     | Some slug \<Rightarrow> bnd (get_publication (st_ext st) (ue_usr_id publisher) slug) (\<lambda>existing. case existing of
         None \<Rightarrow> ret not_found
       | Some e \<Rightarrow> if pb_app_id e \<noteq> app_id then ret foreign_slug
           else bnd (delete_publication (ue_usr_id publisher) slug) (\<lambda>_. ret no_content))) w = (Inr resp, w')"
    using or_return_writesE [OF f assms(4) reads_check_publisher assms(1)] by auto
  show ?thesis
    using app_id sub g assms(1,2,4) check_publisher_Inr [OF assms(1) who]
    by (auto simp: delete_publication_def quiet publication_of_def split: option.splits if_splits)
qed

section \<open>Concrete instances\<close>

text \<open>The application \<open>notes\<close> publishes for Ann, under her name.\<close>

definition notes_app :: app_entry where
  "notes_app = \<lparr>ae_app_id = ''notes'', ae_name = ''Notes'', ae_description = None, ae_icon_url = None,
     ae_home_url = Some ''https://a.example'', ae_login_url = None, ae_manifest_url = None, ae_status = Active\<rparr>"

definition publishing_db :: db where
  "publishing_db = roster_db\<lparr>tb_app := [(''notes'', app_content None notes_app)]\<rparr>"

definition publishing_state :: app_state where
  "publishing_state = a_state\<lparr>st_ext := an_ext\<lparr>
       x_parse_json := (\<lambda>s. Some (JObj [(''actorSub'', JStr ''sub_a''), (''url'', JStr s)])),
       x_parse_url := (\<lambda>s. Some \<lparr>url_scheme = ''https'', url_username = [], url_has_password = False,
         url_has_port = False, url_host = Some ''a.example'', url_text = s\<rparr>)\<rparr>,
     st_verifier := \<lparr>verify_user_token = (\<lambda>_. None), verify_app_token = (\<lambda>t. Some (App ''notes'' [PUBLICATION_SCOPE]))\<rparr>\<rparr>"

definition publishing_request :: request where
  "publishing_request = \<lparr>rq_authorization = None, rq_app_token = Some ''t'', rq_admin_key = None,
     rq_query = [(''actorSub'', ''sub_a'')], rq_body = ''https://a.example/log''\<rparr>"

definition published :: publication where
  "published = \<lparr>pb_publisher = ''usr_a'', pb_slug = ''log'', pb_url = ''https://a.example/log'', pb_title = None,
     pb_app_id = ''notes'', pb_updated_at = None\<rparr>"

definition published_db :: db where
  "published_db = snd (upsert_publication published ''usr_a'' 0 publishing_db)"

lemma publishing_app:
  "w_script w = [] \<Longrightarrow> require_app publishing_state publishing_request PUBLICATION_SCOPE w = (Inr (Inr ''notes''), w)"
  by (simp add: require_app_def authenticate_def check_app_token_def verify_token_def publishing_state_def
      publishing_request_def TOKEN_PREFIX_def bnd_steps)

lemma slug_example: "canonical_slug ''log'' = Some ''log''"
  by code_simp

lemma published_assert: "publication_assert published"
  by (simp add: publication_assert_def published_def ident_word_def ident_start_def ident_char_def text_defs)

lemma publishing_publisher:
  assumes "tb_user d = tb_user roster_db"
  shows "publisher_at (st_ext publishing_state) t d ''@ann'' = Some (user_of (st_ext publishing_state) ann)"
proof -
  have "find_user (\<lambda>r. ur_handle r = Some ''ann'') d = Some ann"
    using assms by (simp add: find_user_def tab_where_def roster_db_def row_simps)
  moreover have "canonical_handle (strip_handle ''@ann'') = Some ''ann''"
    by (simp add: strip_handle_def strip_prefix_def canonical_examples)
  ultimately show ?thesis
    by (simp add: publisher_at_def directory.resolve_def directory_lookup_def public_of_def user_of_def
        is_publisher_kind_def is_organization_def row_simps)
qed

lemma publishing_check:
  assumes "tb_user d = tb_user roster_db"
  shows "check_publisher (st_ext publishing_state) ''@ann'' ''sub_a'' (a_world d) =
    (Inr (Inr (user_of (st_ext publishing_state) ann, ''usr_a'')), a_world d)"
proof -
  have "find_user (\<lambda>r. ur_creo_sub r = Some ''sub_a'') d = Some ann"
    using assms by (simp add: find_user_def tab_where_def roster_db_def row_simps)
  then show ?thesis
    using publishing_publisher [OF assms, of 0]
    by (simp add: check_publisher_alone publisher_check_def may_publish_def user_of_def is_organization_def row_simps)
qed

lemma publishing_inv: "publication_inv publishing_db" "publication_inv published_db"
proof -
  show inv: "publication_inv publishing_db"
    by (simp add: publication_inv_def publishing_db_def roster_db_def empty_db_def)
  show "publication_inv published_db"
    unfolding published_db_def by (rule publication_inv_upsert [OF inv])
qed

lemma published_row:
  "tb_publication published_db = [((''usr_a'', ''log''), publication_row_of published ''usr_a'' 0 None)]"
  "tab_get (tb_publication published_db) (''usr_a'', ''log'') = Some (publication_row_of published ''usr_a'' 0 None)"
  "tb_user published_db = tb_user roster_db"
  using published_assert
  by (simp_all add: published_db_def upsert_publication_def publishing_db_def roster_db_def empty_db_def tab_put_def
      published_def tab_get_def)

lemma publishing_write:
  "\<exists>v. write_publication publishing_state ''notes'' ''log''
     \<lparr>pq_actor_sub = ''sub_a'', pq_url = ''https://a.example/log'', pq_title = None\<rparr>
     (user_of (st_ext publishing_state) ann, ''usr_a'') (a_world publishing_db) = (Inr (ok_json 201 v), a_world published_db)"
proof -
  have url: "app_url (st_ext publishing_state) ''https://a.example/log'' notes_app = Some ''https://a.example/log''"
    by (simp add: app_url_def publishing_state_def url_host_lower_def allowed_hosts_def base_hosts_def notes_app_def
        to_ascii_lowercase_def ascii_lower_def text_defs)
  have app: "first_of (tab_where (\<lambda>r. ae_app_id (ar_entry r) = ''notes'' \<and> is_active r) (tb_app publishing_db)) = Some (app_content None notes_app)"
    by (simp add: publishing_db_def tab_where_def is_active_def notes_app_def)
  have ids: "map (\<lambda>r. ae_app_id (ar_entry r)) (tab_rows (tb_app publishing_db)) = [''notes'']"
    by (simp add: publishing_db_def tab_rows_def notes_app_def)
  have none: "tb_publication publishing_db = []"
    by (simp add: publishing_db_def roster_db_def empty_db_def)
  have put: "put_publication x published ''usr_a'' (a_world publishing_db) = (Inr True, a_world published_db)" for x
    using put_publication_alone [OF alone_a_world _ published_assert, of publishing_db x "''usr_a''"]
    by (simp add: publishing_inv none published_db_def)
  show ?thesis
    using put [of "st_ext publishing_state"]
    by (simp add: write_publication_def slug_example all_app_ids_def get_active_app_def quiet app ids url trimmed_name_def
        publishing_inv none published_row user_of_def ann_def fresh_user_def published_def [symmetric] tab_get_def ok_json_def)
qed

lemma publishing_body:
  "Option.bind (x_parse_json (st_ext publishing_state) (rq_body publishing_request)) decode_put_publication =
     Some \<lparr>pq_actor_sub = ''sub_a'', pq_url = ''https://a.example/log'', pq_title = None\<rparr>"
  by (simp add: publishing_state_def publishing_request_def decode_put_publication_def decode_struct_def dec_string_def
      dec_opt_string_def)

lemma publishing_succeeds:
  "\<exists>v. put_publication_endpoint publishing_state ''@ann'' ''log'' publishing_request (a_world publishing_db) =
     (Inr (ok_json 201 v), a_world published_db)"
proof -
  have "tb_user publishing_db = tb_user roster_db" by (simp add: publishing_db_def)
  from publishing_check [OF this] show ?thesis
    using publishing_write publishing_app [of "a_world publishing_db"]
    by (auto simp: put_publication_endpoint_def or_return_def publishing_body)
qed

theorem publication_put_witness:
  "\<exists>resp app url. put_publication_endpoint publishing_state ''@ann'' ''log'' publishing_request (a_world publishing_db) =
       (Inr resp, a_world published_db) \<and>
     links_to (st_ext publishing_state) app ''https://a.example/log'' url \<and> rs_status resp \<in> {200, 201}"
proof -
  obtain resp where
    r: "put_publication_endpoint publishing_state ''@ann'' ''log'' publishing_request (a_world publishing_db) =
      (Inr resp, a_world published_db)"
    using publishing_succeeds by blast
  have changed: "a_world published_db \<noteq> a_world publishing_db"
    by (auto dest!: arg_cong [where f = "\<lambda>w. tb_publication (w_db w)"]
        simp: published_row publishing_db_def roster_db_def empty_db_def)
  obtain app url where "links_to (st_ext publishing_state) app ''https://a.example/log'' url" "rs_status resp \<in> {200, 201}"
    using publication_put_is_authorised [OF alone_a_world _ r changed] by (auto simp: publishing_inv publishing_body)
  with r show ?thesis by blast
qed

theorem publication_delete_witness:
  "\<exists>resp d. delete_publication_endpoint publishing_state ''@ann'' ''log'' publishing_request (a_world published_db) =
       (Inr resp, a_world d) \<and> rs_status resp = 204 \<and> tab_get (tb_publication d) (''usr_a'', ''log'') = None"
proof -
  have "query_field publishing_request ''actorSub'' = Some (Some ''sub_a'')"
    by (simp add: query_field_def publishing_request_def)
  then obtain resp d where
      r: "delete_publication_endpoint publishing_state ''@ann'' ''log'' publishing_request (a_world published_db) = (Inr resp, a_world d)"
      and d: "d = published_db\<lparr>tb_publication := []\<rparr>"
    using publishing_check [OF published_row(3)] publishing_app [of "a_world published_db"]
    by (simp add: delete_publication_endpoint_def or_return_def slug_example quiet publishing_inv published_row
        user_of_def ann_def fresh_user_def publication_of_def publication_row_of_def published_def delete_publication_def
        tab_del_def tab_get_def)
  have changed: "a_world d \<noteq> a_world published_db"
    by (auto dest!: arg_cong [where f = "\<lambda>w. tb_publication (w_db w)"] simp: d published_row(1))
  have "rs_status resp = 204"
    using publication_delete_is_authorised [OF alone_a_world _ r changed] by (auto simp: publishing_inv)
  moreover have "tab_get (tb_publication d) (''usr_a'', ''log'') = None"
    by (simp add: d tab_get_def)
  ultimately show ?thesis using r by blast
qed

end
