(* ===== verification/Pages.thy ===== *)
theory Pages
  imports Http_Publications
begin

text \<open>
  The pages (\<open>crates/chronista-hub-server/src/start.rs\<close>, \<open>profile.rs\<close>, \<open>settings.rs\<close>): the list of
  applications to sign in with, the page of a name with its publications, the readable public
  links that lead on to an application, and the settings page with its security policy. Japanese
  texts are given by their UTF-8 bytes. The text of the settings page's script is a
  parameter here (what the script does is in \<open>Settings_Script\<close>), as are the printing of JSON and base64.
\<close>

section \<open>HTML\<close>

definition escape :: "string \<Rightarrow> string" where
  "escape s = replace_char (CHR 0x22) ''&quot;'' (replace_char (CHR ''>'') ''&gt;''
     (replace_char (CHR ''<'') ''&lt;'' (replace_char (CHR ''&'') ''&amp;'' s)))"

definition html :: "nat \<Rightarrow> string \<Rightarrow> response" where
  "html status body = \<lparr>rs_status = status,
     rs_headers = [(''content-type'', ''text/html; charset=utf-8''), (''cache-control'', ''no-store'')],
     rs_body = HtmlBody body, rs_db_unavailable = False\<rparr>"

definition CSS :: string where
  "CSS = '':root{color-scheme:light dark;--bg:#f7f7f5;--fg:#1d1d1f;--muted:#6b6b70;--card:#fff;--line'' @
     '':#e3e3e0;--accent:#2f5bd3}@media (prefers-color-scheme:dark){:root{--bg:#141416;--fg:#ecec'' @
     ''ee;--muted:#9a9aa2;--card:#1d1d21;--line:#2c2c31;--accent:#8aa8ff}}body{margin:0;backgroun'' @
     ''d:var(--bg);color:var(--fg);font:16px/1.6 system-ui,-apple-system,\"Hiragino Sans\",sans-ser'' @
     ''if}main{max-width:28rem;margin:0 auto;padding:3rem 1rem}h1{font-size:1.4rem;margin:0 0 1re'' @
     ''m}.apps{list-style:none;padding:0;margin:1.5rem 0;display:grid;gap:.75rem}.apps a{display:'' @
     ''flex;align-items:center;gap:.9rem;padding:1rem;border:1px solid var(--line);border-radius:'' @
     ''12px;background:var(--card);color:inherit;text-decoration:none}.apps a:hover,.apps a:focus'' @
     ''-visible{border-color:var(--accent)}.apps .text{display:flex;flex-direction:column;min-wid'' @
     ''th:0}.apps .text span,.note{color:var(--muted);font-size:.9rem}.apps .icon{flex:none;width'' @
     '':40px;height:40px;border-radius:10px;object-fit:contain}.apps .placeholder{display:grid;pl'' @
     ''ace-items:center;background:var(--bg);border:1px solid var(--line);color:var(--muted);font'' @
     ''-weight:600}section{padding:1rem;margin:1rem 0;border:1px solid var(--line);border-radius:'' @
     ''12px;background:var(--card)}h2,h3{font-size:1rem;margin:0 0 .5rem}details{margin-top:.5rem'' @
     ''}summary{cursor:pointer;color:var(--accent)}input:disabled,button:disabled{opacity:.5;curs'' @
     ''or:default}h2.group{margin:2rem 0 0;color:var(--muted);font-weight:500}section p{margin:.2'' @
     ''5rem 0}label{display:block;margin:.5rem 0}input{display:block;width:100%;box-sizing:border'' @
     ''-box;margin-top:.25rem;padding:.5rem;font:inherit;border:1px solid var(--line);border-radi'' @
     ''us:8px;background:var(--bg);color:inherit}button{font:inherit;padding:.5rem 1rem;border-ra'' @
     ''dius:8px;border:1px solid var(--accent);background:var(--accent);color:#fff;cursor:pointer'' @
     ''}button.secondary{background:transparent;color:var(--accent)}.msg{padding:.5rem .75rem;bor'' @
     ''der-radius:8px;background:var(--card);border:1px solid var(--accent)}code{font-size:.9em}''"

definition page :: "string \<Rightarrow> string \<Rightarrow> string" where
  "page title body =
     
     ''<!doctype html><html lang=\"ja\"><head><meta charset=\"utf-8\"><meta name=\"viewport\" content=\"width=device-width, initial-scale=1\"><title>'' @
     escape title @ '' '' @ [CHR 0xE2, CHR 0x80, CHR 0x94] @ '' Chronista</title><style>'' @ CSS @ ''</style></head><body><main><h1>'' @ escape title @ ''</h1>'' @ body @
     ''</main></body></html>''"

section \<open>The list of applications\<close>

definition app_icon :: "app_entry \<Rightarrow> string" where
  "app_icon app =
     (case ae_icon_url app of
        Some u \<Rightarrow> ''<img class=\"icon\" src=\"'' @ escape u @ ''\" alt=\"\" width=\"40\" height=\"40\">''
      | None \<Rightarrow> ''<span class=\"icon placeholder\" aria-hidden=\"true\">'' @ escape (first_char (ae_name app)) @ ''</span>'')"

definition app_item :: "app_entry \<Rightarrow> string" where
  "app_item app =
     (case ae_login_url app of
        None \<Rightarrow> []
      | Some login_url \<Rightarrow> ''<li><a href=\"'' @ escape login_url @ ''\">'' @ app_icon app @ ''<span class=\"text\"><strong>'' @
          escape (ae_name app) @ ''</strong><span>'' @ escape (case ae_description app of Some d \<Rightarrow> d | None \<Rightarrow> []) @
          ''</span></span></a></li>'')"

definition app_list :: "app_entry list \<Rightarrow> string" where
  "app_list apps =
     ''<p>'' @ [CHR 0xE4, CHR 0xBD, CHR 0xBF, CHR 0xE3, CHR 0x81, CHR 0x86, CHR 0xE3, CHR 0x82, CHR 0xA2,
     CHR 0xE3, CHR 0x83, CHR 0x97, CHR 0xE3, CHR 0x83, CHR 0xAA, CHR 0xE3, CHR 0x82, CHR 0x92, CHR 0xE9,
     CHR 0x81, CHR 0xB8, CHR 0xE3, CHR 0x82, CHR 0x93, CHR 0xE3, CHR 0x81, CHR 0xA7, CHR 0xE3, CHR 0x81,
     CHR 0x8F, CHR 0xE3, CHR 0x81, CHR 0xA0, CHR 0xE3, CHR 0x81, CHR 0x95, CHR 0xE3, CHR 0x81, CHR 0x84,
     CHR 0xE3, CHR 0x80, CHR 0x82, CHR 0xE3, CHR 0x81, CHR 0xA9, CHR 0xE3, CHR 0x81, CHR 0xAE, CHR 0xE3,
     CHR 0x82, CHR 0xA2, CHR 0xE3, CHR 0x83, CHR 0x97, CHR 0xE3, CHR 0x83, CHR 0xAA, CHR 0xE3, CHR 0x82,
     CHR 0x82, CHR 0xE5, CHR 0x90, CHR 0x8C, CHR 0xE3, CHR 0x81, CHR 0x98] @ '' Creo ID '' @ [CHR 0xE3,
     CHR 0x81, CHR 0xA7, CHR 0xE3, CHR 0x83, CHR 0xAD, CHR 0xE3, CHR 0x82, CHR 0xB0, CHR 0xE3, CHR 0x82,
     CHR 0xA4, CHR 0xE3, CHR 0x83, CHR 0xB3, CHR 0xE3, CHR 0x81, CHR 0xA7, CHR 0xE3, CHR 0x81, CHR 0x8D,
     CHR 0xE3, CHR 0x81, CHR 0xBE, CHR 0xE3, CHR 0x81, CHR 0x99, CHR 0xE3, CHR 0x80, CHR 0x82] @
     ''</p><ul class=\"apps\">'' @
     concat (map app_item apps) @
     ''</ul><p class=\"note\">Vantage Point '' @ [CHR 0xE3, CHR 0x81, CHR 0xAF, CHR 0xE7, CHR 0xAB,
     CHR 0xAF, CHR 0xE6, CHR 0x9C, CHR 0xAB, CHR 0xE3, CHR 0x81, CHR 0xA7] @
     '' <code>vp auth login</code> '' @ [CHR 0xE3, CHR 0x82, CHR 0x92, CHR 0xE5, CHR 0xAE, CHR 0x9F,
     CHR 0xE8, CHR 0xA1, CHR 0x8C, CHR 0xE3, CHR 0x81, CHR 0x97, CHR 0xE3, CHR 0x81, CHR 0xA6, CHR 0xE3,
     CHR 0x81, CHR 0x8F, CHR 0xE3, CHR 0x81, CHR 0xA0, CHR 0xE3, CHR 0x81, CHR 0x95, CHR 0xE3, CHR 0x81,
     CHR 0x84, CHR 0xE3, CHR 0x80, CHR 0x82] @ ''</p>''"

definition start :: "app_state \<Rightarrow> request \<Rightarrow> response hub" where
  "start st rq =
     (case query_field rq ''iss'' of
        None \<Rightarrow> ret query_rejection
      | Some iss \<Rightarrow>
          if (case iss of Some i \<Rightarrow> i \<noteq> st_issuer st | None \<Rightarrow> False)
          then ret (html 400 (page ([CHR 0xE3, CHR 0x83, CHR 0xAD, CHR 0xE3, CHR 0x82, CHR 0xB0, CHR 0xE3, CHR 0x82, CHR 0xA4, CHR 0xE3,
     CHR 0x83, CHR 0xB3, CHR 0xE3, CHR 0x81, CHR 0xAE, CHR 0xE7, CHR 0x99, CHR 0xBA, CHR 0xE8, CHR 0xA1,
     CHR 0x8C, CHR 0xE5, CHR 0x85, CHR 0x83, CHR 0xE3, CHR 0x81, CHR 0x8C, CHR 0xE9, CHR 0x81, CHR 0x95,
     CHR 0xE3, CHR 0x81, CHR 0x84, CHR 0xE3, CHR 0x81, CHR 0xBE, CHR 0xE3, CHR 0x81, CHR 0x99])
            (''<p>'' @ [CHR 0xE3, CHR 0x81, CHR 0x93, CHR 0xE3, CHR 0x81, CHR 0xAE, CHR 0xE3, CHR 0x83, CHR 0x9A,
     CHR 0xE3, CHR 0x83, CHR 0xBC, CHR 0xE3, CHR 0x82, CHR 0xB8, CHR 0xE3, CHR 0x81, CHR 0xAF] @
     '' Creo ID '' @ [CHR 0xE3, CHR 0x81, CHR 0x8B, CHR 0xE3, CHR 0x82, CHR 0x89, CHR 0xE3, CHR 0x81,
     CHR 0xA0, CHR 0xE3, CHR 0x81, CHR 0x91, CHR 0xE4, CHR 0xBD, CHR 0xBF, CHR 0xE3, CHR 0x81, CHR 0x88,
     CHR 0xE3, CHR 0x81, CHR 0xBE, CHR 0xE3, CHR 0x81, CHR 0x99, CHR 0xE3, CHR 0x80, CHR 0x82, CHR 0xE3,
     CHR 0x81, CHR 0x8A, CHR 0xE4, CHR 0xBD, CHR 0xBF, CHR 0xE3, CHR 0x81, CHR 0x84, CHR 0xE3, CHR 0x81,
     CHR 0xAE, CHR 0xE3, CHR 0x82, CHR 0xA2, CHR 0xE3, CHR 0x83, CHR 0x97, CHR 0xE3, CHR 0x83, CHR 0xAA,
     CHR 0xE3, CHR 0x81, CHR 0x8B, CHR 0xE3, CHR 0x82, CHR 0x89, CHR 0xE3, CHR 0x83, CHR 0xAD, CHR 0xE3,
     CHR 0x82, CHR 0xB0, CHR 0xE3, CHR 0x82, CHR 0xA4, CHR 0xE3, CHR 0x83, CHR 0xB3, CHR 0xE3, CHR 0x81,
     CHR 0x97, CHR 0xE7, CHR 0x9B, CHR 0xB4, CHR 0xE3, CHR 0x81, CHR 0x97, CHR 0xE3, CHR 0x81, CHR 0xA6,
     CHR 0xE3, CHR 0x81, CHR 0x8F, CHR 0xE3, CHR 0x81, CHR 0xA0, CHR 0xE3, CHR 0x81, CHR 0x95, CHR 0xE3,
     CHR 0x81, CHR 0x84, CHR 0xE3, CHR 0x80, CHR 0x82] @ ''</p>'')))
          else bnd (attempt list_active_apps) (\<lambda>r.
            case r of
              Inr apps \<Rightarrow> ret (html 200 (page (''Creo ID '' @ [CHR 0xE3, CHR 0x81, CHR 0xA7, CHR 0xE3, CHR 0x83, CHR 0xAD, CHR 0xE3, CHR 0x82,
     CHR 0xB0, CHR 0xE3, CHR 0x82, CHR 0xA4, CHR 0xE3, CHR 0x83, CHR 0xB3]) (app_list apps)))
            | Inl e \<Rightarrow>
                bnd (if is_unavailable e then kick else ret ()) (\<lambda>_.
                ret (html 503 (page ([CHR 0xE3, CHR 0x82, CHR 0xA2, CHR 0xE3, CHR 0x83, CHR 0x97, CHR 0xE3, CHR 0x83, CHR 0xAA, CHR 0xE3,
     CHR 0x81, CHR 0xAE, CHR 0xE4, CHR 0xB8, CHR 0x80, CHR 0xE8, CHR 0xA6, CHR 0xA7, CHR 0xE3, CHR 0x82,
     CHR 0x92, CHR 0xE8, CHR 0xAA, CHR 0xAD, CHR 0xE3, CHR 0x82, CHR 0x81, CHR 0xE3, CHR 0x81, CHR 0xBE,
     CHR 0xE3, CHR 0x81, CHR 0x9B, CHR 0xE3, CHR 0x82, CHR 0x93, CHR 0xE3, CHR 0x81, CHR 0xA7, CHR 0xE3,
     CHR 0x81, CHR 0x97, CHR 0xE3, CHR 0x81, CHR 0x9F])
                  (''<p>'' @ [CHR 0xE3, CHR 0x81, CHR 0x8A, CHR 0xE4, CHR 0xBD, CHR 0xBF, CHR 0xE3, CHR 0x81, CHR 0x84,
     CHR 0xE3, CHR 0x81, CHR 0xAE, CHR 0xE3, CHR 0x82, CHR 0xA2, CHR 0xE3, CHR 0x83, CHR 0x97, CHR 0xE3,
     CHR 0x83, CHR 0xAA, CHR 0xE3, CHR 0x81, CHR 0x8B, CHR 0xE3, CHR 0x82, CHR 0x89, CHR 0xE3, CHR 0x83,
     CHR 0xAD, CHR 0xE3, CHR 0x82, CHR 0xB0, CHR 0xE3, CHR 0x82, CHR 0xA4, CHR 0xE3, CHR 0x83, CHR 0xB3,
     CHR 0xE3, CHR 0x81, CHR 0x97, CHR 0xE7, CHR 0x9B, CHR 0xB4, CHR 0xE3, CHR 0x81, CHR 0x97, CHR 0xE3,
     CHR 0x81, CHR 0xA6, CHR 0xE3, CHR 0x81, CHR 0x8F, CHR 0xE3, CHR 0x81, CHR 0xA0, CHR 0xE3, CHR 0x81,
     CHR 0x95, CHR 0xE3, CHR 0x81, CHR 0x84, CHR 0xE3, CHR 0x80, CHR 0x82] @ ''</p>''))))))"

section \<open>The page of a name\<close>

definition handle_of :: "string \<Rightarrow> string option" where
  "handle_of at = Option.bind (strip_prefix ''@'' at) canonical_handle"

definition page_not_found :: response where
  "page_not_found = html 404 (page ([CHR 0xE8, CHR 0xA6, CHR 0x8B, CHR 0xE3, CHR 0x81, CHR 0xA4, CHR 0xE3, CHR 0x81, CHR 0x8B, CHR 0xE3,
     CHR 0x82, CHR 0x8A, CHR 0xE3, CHR 0x81, CHR 0xBE, CHR 0xE3, CHR 0x81, CHR 0x9B, CHR 0xE3, CHR 0x82,
     CHR 0x93]) (''<p>'' @ [CHR 0xE3, CHR 0x81, CHR 0x93, CHR 0xE3, CHR 0x81, CHR 0xAE, CHR 0xE3, CHR 0x83, CHR 0x9A,
     CHR 0xE3, CHR 0x83, CHR 0xBC, CHR 0xE3, CHR 0x82, CHR 0xB8, CHR 0xE3, CHR 0x81, CHR 0xAF, CHR 0xE3,
     CHR 0x81, CHR 0x82, CHR 0xE3, CHR 0x82, CHR 0x8A, CHR 0xE3, CHR 0x81, CHR 0xBE, CHR 0xE3, CHR 0x81,
     CHR 0x9B, CHR 0xE3, CHR 0x82, CHR 0x93, CHR 0xE3, CHR 0x80, CHR 0x82] @ ''</p>''))"

definition moved_to :: "string \<Rightarrow> response" where
  "moved_to location = moved_permanently location NoBody"

definition profile_path :: "string \<Rightarrow> string option \<Rightarrow> string option" where
  "profile_path at slug =
     Option.bind (handle_of at) (\<lambda>h.
     case slug of
       None \<Rightarrow> Some (''/@'' @ h)
     | Some s \<Rightarrow> map_option (\<lambda>s. ''/@'' @ h @ ''/'' @ s) (canonical_slug s))"

definition moved_or_not_found :: "string option \<Rightarrow> response" where
  "moved_or_not_found path = (case path of Some p \<Rightarrow> moved_to p | None \<Rightarrow> page_not_found)"

definition profile_slash :: "string \<Rightarrow> response hub" where
  "profile_slash at = ret (moved_or_not_found (profile_path at None))"

definition publication_slash :: "string \<Rightarrow> string \<Rightarrow> response hub" where
  "publication_slash at slug = ret (moved_or_not_found (profile_path at (Some slug)))"

text \<open>Where a former handle leads: the path of the present one, with what comes after it.\<close>

definition moved_page :: "app_state \<Rightarrow> string \<Rightarrow> string \<Rightarrow> response hub" where
  "moved_page st h rest =
     bnd (resolve_moved_handle (st_ext st) h) (\<lambda>u.
     ret (case Option.bind u ue_handle of
            Some new \<Rightarrow> moved_to (''/@'' @ new @ rest)
          | None \<Rightarrow> page_not_found))"

definition publication_item :: "string \<Rightarrow> publication \<Rightarrow> string" where
  "publication_item handle p =
     ''<li><a href=\"'' @ escape (''/@'' @ handle @ ''/'' @ pb_slug p) @ ''\"><span class=\"text\"><strong>'' @
     escape (case pb_title p of Some t \<Rightarrow> t | None \<Rightarrow> pb_slug p) @ ''</strong><span>'' @
     escape (''@'' @ handle @ ''/'' @ pb_slug p) @ ''</span></span></a></li>''"

definition publication_list :: "string \<Rightarrow> publication list \<Rightarrow> string" where
  "publication_list handle ps =
     (if ps = [] then ''<p class=\"note\">'' @ [CHR 0xE5, CHR 0x85, CHR 0xAC, CHR 0xE9, CHR 0x96, CHR 0x8B, CHR 0xE3,
     CHR 0x81, CHR 0x97, CHR 0xE3, CHR 0x81, CHR 0xA6, CHR 0xE3, CHR 0x81, CHR 0x84, CHR 0xE3, CHR 0x82,
     CHR 0x8B, CHR 0xE3, CHR 0x82, CHR 0x82, CHR 0xE3, CHR 0x81, CHR 0xAE, CHR 0xE3, CHR 0x81, CHR 0xAF,
     CHR 0xE3, CHR 0x81, CHR 0xBE, CHR 0xE3, CHR 0x81, CHR 0xA0, CHR 0xE3, CHR 0x81, CHR 0x82, CHR 0xE3,
     CHR 0x82, CHR 0x8A, CHR 0xE3, CHR 0x81, CHR 0xBE, CHR 0xE3, CHR 0x81, CHR 0x9B, CHR 0xE3, CHR 0x82,
     CHR 0x93, CHR 0xE3, CHR 0x80, CHR 0x82] @ ''</p>''
      else ''<ul class=\"apps\">'' @ concat (map (publication_item handle) ps) @ ''</ul>'')"

definition profile_page :: "user_entry \<Rightarrow> public_user \<Rightarrow> publication list \<Rightarrow> string" where
  "profile_page u p pubs =
     page (case pu_display_name p of Some n \<Rightarrow> n | None \<Rightarrow> ''@'' @ pu_handle p)
       (''<p class=\"note\">@'' @ escape (pu_handle p) @ '' '' @ [CHR 0xC2, CHR 0xB7] @ '' '' @
        (if is_organization u then [CHR 0xE5, CHR 0x9B, CHR 0xA3, CHR 0xE4, CHR 0xBD, CHR 0x93] else [CHR 0xE5, CHR 0x80, CHR 0x8B, CHR 0xE4, CHR 0xBA, CHR 0xBA]) @ ''</p>'' @ publication_list (pu_handle p) pubs)"

definition profile :: "app_state \<Rightarrow> string \<Rightarrow> response hub" where
  "profile st at =
     (case profile_path at None of
        None \<Rightarrow> ret page_not_found
      | Some path \<Rightarrow>
          if path \<noteq> ''/'' @ at then ret (moved_to path)
          else (case handle_of at of
            None \<Rightarrow> ret page_not_found
          | Some h \<Rightarrow>
              bnd (get_user_by_handle (st_ext st) h) (\<lambda>u.
              case u of
                None \<Rightarrow> moved_page st h []
              | Some u \<Rightarrow> (case public_of u of
                  None \<Rightarrow> ret page_not_found
                | Some p \<Rightarrow>
                    bnd (list_publications (st_ext st) (ue_usr_id u)) (\<lambda>pubs.
                    ret (html 200 (profile_page u p pubs)))))))"

definition leads_to :: "string \<Rightarrow> response" where
  "leads_to url = \<lparr>rs_status = 302, rs_headers = [(''location'', url), (''cache-control'', ''no-store'')],
     rs_body = NoBody, rs_db_unavailable = False\<rparr>"

definition publication_page :: "app_state \<Rightarrow> string \<Rightarrow> string \<Rightarrow> response hub" where
  "publication_page st at slug =
     (case profile_path at (Some slug) of
        None \<Rightarrow> ret page_not_found
      | Some path \<Rightarrow>
          if path \<noteq> ''/'' @ at @ ''/'' @ slug then ret (moved_to path)
          else (case (handle_of at, canonical_slug slug) of
            (Some h, Some slug) \<Rightarrow>
              bnd (get_user_by_handle (st_ext st) h) (\<lambda>u.
              case u of
                None \<Rightarrow> moved_page st h (''/'' @ slug)
              | Some u \<Rightarrow>
                  if public_of u = None then ret page_not_found
                  else bnd (get_publication (st_ext st) (ue_usr_id u) slug) (\<lambda>p.
                    ret (case p of Some p \<Rightarrow> leads_to (pb_url p) | None \<Rightarrow> page_not_found)))
          | _ \<Rightarrow> ret page_not_found))"

section \<open>The settings page\<close>

definition csp :: "ext \<Rightarrow> string \<Rightarrow> string \<Rightarrow> string" where
  "csp x js issuer =
     ''default-src '' @ [CHR 0x27] @ ''none'' @ [CHR 0x27] @ ''; script-src '' @ [CHR 0x27] @ ''sha256-'' @ x_base64 x (x_sha256 x js) @
     [CHR 0x27] @ ''; style-src '' @ [CHR 0x27] @ ''unsafe-inline'' @ [CHR 0x27] @ ''; connect-src '' @
     [CHR 0x27] @ ''self'' @ [CHR 0x27] @ '' '' @ trim_end_char (CHR ''/'') issuer @
     ''; form-action '' @ [CHR 0x27] @ ''self'' @ [CHR 0x27] @ ''; base-uri '' @ [CHR 0x27] @ ''none'' @
     [CHR 0x27] @ ''; frame-ancestors '' @ [CHR 0x27] @ ''none'' @ [CHR 0x27]"

definition settings_json :: "settings_config \<Rightarrow> string \<Rightarrow> json" where
  "settings_json cfg issuer = JObj [(''clientId'', JStr (se_client_id cfg)), (''issuer'', JStr issuer),
     (''audience'', JStr (se_audience cfg)), (''redirectUri'', JStr (se_public_url cfg @ ''/settings''))]"

definition embedded_config :: "ext \<Rightarrow> settings_config \<Rightarrow> string \<Rightarrow> string" where
  "embedded_config x cfg issuer = replace_char (CHR ''<'') ([CHR 0x5C] @ ''u003c'') (x_json_text x (settings_json cfg issuer))"

definition settings_body :: "ext \<Rightarrow> string \<Rightarrow> settings_config \<Rightarrow> string \<Rightarrow> string" where
  "settings_body x js cfg issuer =
     ''<noscript><p>'' @ [CHR 0xE3, CHR 0x81, CHR 0x93, CHR 0xE3, CHR 0x81, CHR 0xAE, CHR 0xE7, CHR 0x94,
     CHR 0xBB, CHR 0xE9, CHR 0x9D, CHR 0xA2, CHR 0xE3, CHR 0x81, CHR 0xAB, CHR 0xE3, CHR 0x81, CHR 0xAF] @
     '' JavaScript '' @ [CHR 0xE3, CHR 0x81, CHR 0x8C, CHR 0xE8, CHR 0xA6, CHR 0x81, CHR 0xE3, CHR 0x82,
     CHR 0x8A, CHR 0xE3, CHR 0x81, CHR 0xBE, CHR 0xE3, CHR 0x81, CHR 0x99, CHR 0xE3, CHR 0x80, CHR 0x82] @
     ''</p></noscript><div id=\"app\" aria-live=\"polite\"><p class=\"note\">'' @ [CHR 0xE8, CHR 0xAA,
     CHR 0xAD, CHR 0xE3, CHR 0x81, CHR 0xBF, CHR 0xE8, CHR 0xBE, CHR 0xBC, CHR 0xE3, CHR 0x81, CHR 0xBF,
     CHR 0xE4, CHR 0xB8, CHR 0xAD, CHR 0xE2, CHR 0x80, CHR 0xA6] @
     ''</p></div><script id=\"cfg\" type=\"application/json\">'' @
     embedded_config x cfg issuer @ ''</script><script>'' @ js @ ''</script>''"

text \<open>A header value must have no control characters but the tab (\<open>HeaderValue::from_str\<close>).\<close>

definition header_value_ok :: "string \<Rightarrow> bool" where
  "header_value_ok s \<longleftrightarrow> list_all (\<lambda>c. (32 \<le> code_of c \<and> code_of c \<noteq> 127) \<or> code_of c = 9) s"

definition settings_page :: "app_state \<Rightarrow> string \<Rightarrow> response hub" where
  "settings_page st js =
     ret (case st_settings st of
       None \<Rightarrow> html 503 (page ([CHR 0xE8, CHR 0xA8, CHR 0xAD, CHR 0xE5, CHR 0xAE, CHR 0x9A, CHR 0xE3, CHR 0x81, CHR 0xAF, CHR 0xE6,
     CHR 0xBA, CHR 0x96, CHR 0xE5, CHR 0x82, CHR 0x99, CHR 0xE4, CHR 0xB8, CHR 0xAD, CHR 0xE3, CHR 0x81,
     CHR 0xA7, CHR 0xE3, CHR 0x81, CHR 0x99])
         (''<p>'' @ [CHR 0xE3, CHR 0x81, CHR 0x93, CHR 0xE3, CHR 0x81, CHR 0xAE, CHR 0xE7, CHR 0x94, CHR 0xBB,
     CHR 0xE9, CHR 0x9D, CHR 0xA2, CHR 0xE3, CHR 0x81, CHR 0xAF, CHR 0xE3, CHR 0x81, CHR 0xBE, CHR 0xE3,
     CHR 0x81, CHR 0xA0, CHR 0xE4, CHR 0xBD, CHR 0xBF, CHR 0xE3, CHR 0x81, CHR 0x88, CHR 0xE3, CHR 0x81,
     CHR 0xBE, CHR 0xE3, CHR 0x81, CHR 0x9B, CHR 0xE3, CHR 0x82, CHR 0x93, CHR 0xE3, CHR 0x80, CHR 0x82,
     CHR 0xE3, CHR 0x81, CHR 0x8A, CHR 0xE4, CHR 0xBD, CHR 0xBF, CHR 0xE3, CHR 0x81, CHR 0x84, CHR 0xE3,
     CHR 0x81, CHR 0xAE, CHR 0xE3, CHR 0x82, CHR 0xA2, CHR 0xE3, CHR 0x83, CHR 0x97, CHR 0xE3, CHR 0x83,
     CHR 0xAA, CHR 0xE3, CHR 0x81, CHR 0x8B, CHR 0xE3, CHR 0x82, CHR 0x89, CHR 0xE8, CHR 0xA8, CHR 0xAD,
     CHR 0xE5, CHR 0xAE, CHR 0x9A, CHR 0xE3, CHR 0x81, CHR 0x97, CHR 0xE3, CHR 0x81, CHR 0xA6, CHR 0xE3,
     CHR 0x81, CHR 0x8F, CHR 0xE3, CHR 0x81, CHR 0xA0, CHR 0xE3, CHR 0x81, CHR 0x95, CHR 0xE3, CHR 0x81,
     CHR 0x84, CHR 0xE3, CHR 0x80, CHR 0x82] @ ''</p>''))
     | Some cfg \<Rightarrow>
         (let resp = html 200 (page ([CHR 0xE8, CHR 0xA8, CHR 0xAD, CHR 0xE5, CHR 0xAE, CHR 0x9A]) (settings_body (st_ext st) js cfg (st_issuer st)));
              v = csp (st_ext st) js (st_issuer st)
          in if header_value_ok v
             then resp\<lparr>rs_headers := rs_headers resp @ [(''content-security-policy'', v)]\<rparr> else resp))"

section \<open>User data cannot change the markup\<close>

text \<open>The characters that make tags and end attributes.\<close>

definition tags :: "string \<Rightarrow> string" where
  "tags s = filter (\<lambda>c. c = CHR ''<'' \<or> c = CHR ''>'' \<or> c = CHR 0x22) s"

lemma tags_Nil: "tags [] = []"
  by (simp add: tags_def)

lemma tags_append: "tags (s @ t) = tags s @ tags t"
  by (simp add: tags_def)

lemma tags_escape: "tags (escape s) = []"
  by (induction s) (simp_all add: escape_def tags_def)

text \<open>The constant texts of the pages are kept as they are: only their joints matter.\<close>

lemmas markup = tags_append tags_escape tags_Nil append_Nil append_Nil2 option.case

text \<open>What the list of applications shows of one: nothing, or an entry with an icon or with a letter.\<close>

definition app_shape :: "app_entry \<Rightarrow> bool option" where
  "app_shape app = map_option (\<lambda>_. ae_icon_url app = None) (ae_login_url app)"

lemma tags_app_item:
  assumes "app_shape a = app_shape b"
  shows "tags (app_item a) = tags (app_item b)"
proof (cases "ae_login_url a")
  case None
  then have "ae_login_url b = None" using assms by (simp add: app_shape_def)
  with None show ?thesis by (simp only: app_item_def option.case)
next
  case (Some u)
  then obtain v where v: "ae_login_url b = Some v" and icon: "ae_icon_url a = None \<longleftrightarrow> ae_icon_url b = None"
    using assms by (cases "ae_login_url b") (simp_all add: app_shape_def)
  have "tags (app_icon a) = tags (app_icon b)"
  proof (cases "ae_icon_url a")
    case None
    moreover have "ae_icon_url b = None" using None icon by simp
    ultimately show ?thesis by (simp only: app_icon_def markup)
  next
    case (Some x)
    moreover obtain y where "ae_icon_url b = Some y" using Some icon by auto
    ultimately show ?thesis by (simp only: app_icon_def markup)
  qed
  with Some v show ?thesis by (simp only: app_item_def markup)
qed

lemma tags_concat: "list_all2 (\<lambda>a b. tags (f a) = tags (g b)) as bs \<Longrightarrow> tags (concat (map f as)) = tags (concat (map g bs))"
  by (induction rule: list_all2_induct) (simp_all add: tags_append)

lemma tags_app_list:
  assumes "map app_shape as = map app_shape bs"
  shows "tags (app_list as) = tags (app_list bs)"
proof -
  have "list_all2 (\<lambda>a b. tags (app_item a) = tags (app_item b)) as bs"
    using assms by (auto simp: list_all2_conv_all_nth intro!: tags_app_item dest: map_eq_imp_length_eq) (metis nth_map map_eq_imp_length_eq)
  then show ?thesis by (simp only: app_list_def markup tags_concat)
qed

lemma tags_publication_list:
  assumes "length ps = length qs"
  shows "tags (publication_list h ps) = tags (publication_list h' qs)"
proof -
  have "tags (publication_item h p) = tags (publication_item h' q)" for p q
    by (simp only: publication_item_def markup)
  then have "tags (concat (map (publication_item h) ps)) = tags (concat (map (publication_item h') qs))"
    using assms by (intro tags_concat) (simp add: list_all2_conv_all_nth)
  moreover have "ps = [] \<longleftrightarrow> qs = []" using assms by auto
  ultimately show ?thesis by (simp only: publication_list_def markup if_distrib [of tags])
qed

lemma replace_char_gone: "c \<notin> set r \<Longrightarrow> c \<notin> set (replace_char c r s)"
  by (induction s) auto

section \<open>Redirects\<close>

lemma handle_of_canonical: "canonical_handle h = Some h \<Longrightarrow> handle_of (''@'' @ h) = Some h"
  by (simp add: handle_of_def strip_prefix_def)

lemma handle_of_result: "handle_of at = Some h \<Longrightarrow> canonical_handle h = Some h"
  by (auto simp: handle_of_def bind_eq_Some_conv canonical_handle_fixed dest: canonical_handle_ident)

lemma moved_page_alone:
  assumes "alone w"
  shows "moved_page st h rest w = (Inr (case directory_moved (st_ext st) (w_now w) (w_db w) h of
     Some u \<Rightarrow> moved_to (''/@'' @ pu_handle (the (public_of u)) @ rest) | None \<Rightarrow> page_not_found), w)"
proof (cases "directory_moved (st_ext st) (w_now w) (w_db w) h")
  case (Some u)
  then obtain p where p: "public_of u = Some p" using moved_public by blast
  then have "ue_handle u = Some (pu_handle p)" by (simp add: public_of_eq_Some)
  then show ?thesis using Some p by (simp add: moved_page_def resolve_alone [OF assms])
qed (simp add: moved_page_def resolve_alone [OF assms])

lemma profile_canonical:
  assumes "alone w" and "canonical_handle h = Some h"
  shows "profile st (''@'' @ h) w = (Inr (case directory.resolve (st_ext st) (w_now w) (w_db w) h of
     Here u \<Rightarrow> (case public_of u of
         Some p \<Rightarrow> html 200 (profile_page u p (map (publication_of (st_ext st))
           (sort_key pr_slug (tab_where (\<lambda>r. pr_publisher r = ue_usr_id u) (tb_publication (w_db w))))))
       | None \<Rightarrow> page_not_found)
   | Moved_to u \<Rightarrow> moved_to (''/@'' @ pu_handle (the (public_of u)))
   | Gone \<Rightarrow> page_not_found), w)"
  using assms handle_of_canonical [OF assms(2)]
  by (simp add: profile_def profile_path_def resolve_alone [OF assms(1)] directory.resolve_def moved_page_alone
      list_publications_def select_alone bnd_select_alone split: option.split)

lemma profile_first:
  assumes "handle_of at = Some h"
  shows "profile st at = (if at = ''@'' @ h then profile st (''@'' @ h) else ret (moved_to (''/@'' @ h)))"
  using assms handle_of_canonical [OF handle_of_result [OF assms]]
  by (cases "at = ''@'' @ h") (simp_all add: profile_def profile_path_def)

text \<open>A reader that follows redirects, up to so many.\<close>

fun follow :: "nat \<Rightarrow> app_state \<Rightarrow> string \<Rightarrow> response hub" where
  "follow 0 st at = profile st at"
| "follow (Suc n) st at = bnd (profile st at) (\<lambda>r.
     case map_of (rs_headers r) ''location'' of
       Some l \<Rightarrow> follow n st (drop 1 l)
     | None \<Rightarrow> ret r)"

lemma follow_more:
  assumes "follow n st at w = (Inr r, w')" and "map_of (rs_headers r) ''location'' = None"
  shows "follow (Suc n) st at w = (Inr r, w')"
  using assms(1)
proof (induction n arbitrary: at w)
  case 0
  then show ?case using assms(2) by simp
next
  case (Suc n)
  show ?case
  proof (cases "profile st at w")
    case (Pair x w1)
    then obtain q where "x = Inr q" using Suc.prems by (cases x) simp_all
    then show ?thesis using Pair Suc.IH Suc.prems by (auto split: option.splits)
  qed
qed

lemma follow_0: "profile st at w = (Inr r, w) \<Longrightarrow> follow 0 st at w = (Inr r, w)"
  by simp

lemma profile_page_status [simp]:
  "rs_status (html s b) = s" "map_of (rs_headers (html s b)) ''location'' = None"
  "rs_status (moved_to l) = 301" "map_of (rs_headers (moved_to l)) ''location'' = Some l"
  "rs_status page_not_found = 404" "map_of (rs_headers page_not_found) ''location'' = None"
  by (simp_all add: html_def moved_to_def moved_permanently_def page_not_found_def)

text \<open>What a canonical path answers: at most one redirect, to a handle where the user is.\<close>

lemma profile_settles:
  assumes "alone w" and "roster_canonical (w_db w)" and "canonical_handle h = Some h"
  shows "\<exists>r. follow 1 st (''@'' @ h) w = (Inr r, w) \<and> rs_status r \<in> {200, 404} \<and>
    map_of (rs_headers r) ''location'' = None"
proof (cases "directory.resolve (st_ext st) (w_now w) (w_db w) h")
  case (Here u)
  then show ?thesis
    using profile_canonical [OF assms(1,3), of st] by (cases "public_of u") (simp_all add: numeral_2_eq_2)
next
  case (Moved_to u)
  have inv: "roster_inv (w_db w)" using assms(2) by (simp add: roster_canonical_def)
  obtain new where new: "ue_handle u = Some new" "directory.resolve (st_ext st) (w_now w) (w_db w) new = Here u"
    using directory.one_hop [OF inv Moved_to, of "w_now w"] by metis
  have m: "directory_moved (st_ext st) (w_now w) (w_db w) h = Some u"
    using Moved_to by (auto simp: directory.resolve_def split: option.splits)
  obtain p where p: "public_of u = Some p" using moved_public [OF m] by blast
  then have "pu_handle p = new" using new(1) by (simp add: public_of_eq_Some)
  moreover have "canonical_handle new = Some new"
  proof -
    obtain k r where "u = user_of (st_ext st) r" "(k, r) \<in> set (tb_user (w_db w))"
      using directory_moved_row [OF m] by blast
    then show ?thesis using assms(2) new(1) by (auto simp: roster_canonical_def canonical_rows_def dest!: rows_okD)
  qed
  ultimately show ?thesis
    using profile_canonical [OF assms(1,3), of st] profile_canonical [OF assms(1), of new st] Moved_to new(2) p by simp
next
  case Gone
  then show ?thesis using profile_canonical [OF assms(1,3), of st] by simp
qed

text \<open>What a readable link answers, by where its name leads and what is published there.\<close>

definition link_answer :: "db \<Rightarrow> string \<Rightarrow> user_entry resolution \<Rightarrow> response" where
  "link_answer d s res =
     (case res of
        Here u \<Rightarrow> (case (public_of u, tab_get (tb_publication d) (ue_usr_id u, s)) of
            (Some _, Some r) \<Rightarrow> leads_to (pr_url r) | _ \<Rightarrow> page_not_found)
      | Moved_to u \<Rightarrow> moved_to (''/@'' @ pu_handle (the (public_of u)) @ ''/'' @ s)
      | Gone \<Rightarrow> page_not_found)"

lemma publication_page_canonical:
  assumes "alone w" and "publication_inv (w_db w)" and "canonical_handle h = Some h" and "canonical_slug s = Some s"
  shows "publication_page st (''@'' @ h) s w =
    (Inr (link_answer (w_db w) s (directory.resolve (st_ext st) (w_now w) (w_db w) h)), w)"
  using assms(3,4) handle_of_canonical [OF assms(3)]
  by (simp add: publication_page_def profile_path_def link_answer_def resolve_alone [OF assms(1)] directory.resolve_def
      moved_page_alone [OF assms(1)] get_publication_alone [OF assms(1,2)] publication_of_def split: option.split)

section \<open>Properties\<close>


text \<open>
  C28: redirects of the page of a name end: from any address, a reader who follows at most two of
  them (to the canonical spelling, and from a former handle to the present one) is at a page or
  at a 404, in a roster whose handles are canonical.
\<close>

theorem profile_redirects_end:
  assumes "alone w" and "roster_canonical (w_db w)"
  shows "\<exists>r. follow 2 st at w = (Inr r, w) \<and> rs_status r \<in> {200, 404}"
proof (cases "handle_of at")
  case None
  then have "profile st at w = (Inr page_not_found, w)" by (simp add: profile_def profile_path_def)
  then have "follow (Suc (Suc 0)) st at w = (Inr page_not_found, w)" by (intro follow_more follow_0) simp_all
  then show ?thesis by (simp add: numeral_2_eq_2)
next
  case (Some h)
  obtain r where r: "follow 1 st (''@'' @ h) w = (Inr r, w)" "rs_status r \<in> {200, 404}"
    "map_of (rs_headers r) ''location'' = None"
    using profile_settles [OF assms handle_of_result [OF Some]] by blast
  have "follow 2 st at w = (Inr r, w)"
  proof (cases "at = ''@'' @ h")
    case True
    then show ?thesis using follow_more [OF r(1,3)] by (simp only: numeral_2_eq_2 One_nat_def)
  next
    case False
    then show ?thesis using r(1) profile_first [OF Some, of st] by (simp add: numeral_2_eq_2)
  qed
  with r(2) show ?thesis by blast
qed

text \<open>Two applications and two publications whose texts differ in every way that is allowed.\<close>

definition plain_app :: app_entry where
  "plain_app = \<lparr>ae_app_id = ''a'', ae_name = ''A'', ae_description = None, ae_icon_url = None, ae_home_url = None,
     ae_login_url = Some ''https://a.example/'', ae_manifest_url = None, ae_status = Active\<rparr>"

definition hostile_app :: app_entry where
  "hostile_app = plain_app\<lparr>ae_name := ''<script>'', ae_description := Some ''</ul><b>'',
     ae_login_url := Some (''https://a.example/'' @ [CHR 0x22] @ ''>'')\<rparr>"

definition plain_publication :: publication where
  "plain_publication = \<lparr>pb_publisher = ''usr_a'', pb_slug = ''s'', pb_url = ''https://a.example/'', pb_title = None,
     pb_app_id = ''a'', pb_updated_at = None\<rparr>"


theorem profile_redirects_witness:
  "\<exists>r. follow 2 a_state ''@ANN'' (a_world moved_db) = (Inr r, a_world moved_db) \<and> rs_status r \<in> {200, 404}"
  by (rule profile_redirects_end) (simp_all add: alone_a_world moved_db_canonical)

end
