(* ===== verification/Settings_Script.thy ===== *)
theory Settings_Script
  imports Pages
begin

text \<open>
  The script of the settings page (\<open>crates/chronista-hub-server/src/settings.rs\<close>, the constant \<open>JS\<close>), the
  part of the program that runs in the browser: signing in with Creo ID under PKCE, the calls of
  the hub's own API with the token, and what the page shows. A step of the script is a function
  of the state of the tab (\<open>'a js\<close>): the session storage, the page, what has been sent. The
  browser and the servers are parameters (\<open>page_env\<close>): random bytes, the printing of dates and of numbers that are
  not small integers, the text of a \<open>TypeError\<close>, and the answer to each request, which may be anything.
  An object of an answer that has a member \<open>toString\<close> of its own prints as any other object.
\<close>

section \<open>The tab\<close>

datatype sent =
    Authorize "(string \<times> string) list"
  | Token_request "(string \<times> string) list"
  | Call meth string string "json option"

datatype answer = Failed_fetch string | Status_body nat "string + json"

text \<open>What is thrown: \<open>Unauthorized\<close>, or another error with the reason and the date that the hub gave.\<close>

datatype js_error = Expired string | Thrown string "json option" "json option"

datatype screen = No_form | Login_form | Settings_form json

record browser =
  br_store :: "string \<rightharpoonup> string"
  br_search :: "(string \<times> string) list"
  br_html :: string
  br_screen :: screen
  br_names :: "(json \<times> json option) list option"
  br_sent :: "sent list"
  br_drawn :: nat

record page_env =
  pe_config :: settings_config
  pe_issuer :: string
  pe_origin :: string
  pe_ext :: ext
  pe_random :: "nat \<Rightarrow> char"
  pe_answer :: "nat \<Rightarrow> sent \<Rightarrow> answer"
  pe_first :: "js_error list \<Rightarrow> js_error"
  pe_now :: int
  pe_date :: "json option \<Rightarrow> int option"
  pe_day_text :: "int option \<Rightarrow> string"
  pe_number :: "string \<Rightarrow> string"
  pe_inherited :: "string \<Rightarrow> string option"
  pe_decode :: "string \<Rightarrow> string option"
  pe_issuer_is_url :: bool
  pe_type_error :: string

type_synonym 'a js = "browser \<Rightarrow> (js_error + 'a) \<times> browser"

definition give :: "'a \<Rightarrow> 'a js" where
  "give a s = (Inr a, s)"

definition throw :: "js_error \<Rightarrow> 'a js" where
  "throw e s = (Inl e, s)"

definition thn :: "'a js \<Rightarrow> ('a \<Rightarrow> 'b js) \<Rightarrow> 'b js" where
  "thn m f s = (case m s of (Inl e, s') \<Rightarrow> (Inl e, s') | (Inr a, s') \<Rightarrow> f a s')"

text \<open>\<open>try { m } catch (e) { h(e) }\<close>.\<close>

definition catching :: "'a js \<Rightarrow> (js_error \<Rightarrow> 'a js) \<Rightarrow> 'a js" where
  "catching m h s = (case m s of (Inl e, s') \<Rightarrow> h e s' | (Inr a, s') \<Rightarrow> (Inr a, s'))"

definition change :: "(browser \<Rightarrow> browser) \<Rightarrow> unit js" where
  "change f s = (Inr (), f s)"

definition type_error :: "page_env \<Rightarrow> js_error" where
  "type_error E = Thrown (pe_type_error E) None None"

text \<open>The keys of the session storage.\<close>

definition AT :: string where "AT = ''hub.settings.access_token''"
definition IDT :: string where "IDT = ''hub.settings.id_token''"
definition PKCE_V :: string where "PKCE_V = ''hub.settings.pkce_verifier''"
definition PKCE_S :: string where "PKCE_S = ''hub.settings.pkce_state''"

lemma keys_distinct: "distinct [AT, IDT, PKCE_V, PKCE_S]"
  by (simp add: AT_def IDT_def PKCE_V_def PKCE_S_def)

lemma keys_differ [simp]:
  "AT \<noteq> IDT" "AT \<noteq> PKCE_V" "AT \<noteq> PKCE_S" "IDT \<noteq> AT" "IDT \<noteq> PKCE_V" "IDT \<noteq> PKCE_S"
  "PKCE_V \<noteq> AT" "PKCE_V \<noteq> IDT" "PKCE_V \<noteq> PKCE_S" "PKCE_S \<noteq> AT" "PKCE_S \<noteq> IDT" "PKCE_S \<noteq> PKCE_V"
  using keys_distinct by auto

definition set_item :: "string \<Rightarrow> string \<Rightarrow> browser \<Rightarrow> browser" where
  "set_item k v s = s\<lparr>br_store := (br_store s)(k \<mapsto> v)\<rparr>"

definition remove_item :: "string \<Rightarrow> browser \<Rightarrow> browser" where
  "remove_item k s = s\<lparr>br_store := (br_store s)(k := None)\<rparr>"

definition send :: "sent \<Rightarrow> browser \<Rightarrow> browser" where
  "send q s = s\<lparr>br_sent := br_sent s @ [q]\<rparr>"

section \<open>Values\<close>

definition show_integer :: "int \<Rightarrow> string" where
  "show_integer n = (if n < 0 then ''-'' @ show_nat (nat (- n)) else show_nat (nat n))"

definition number_text :: "page_env \<Rightarrow> json \<Rightarrow> string" where
  "number_text E v = (case v of
     JInt n \<Rightarrow> if \<bar>n\<bar> < 2 ^ 53 then show_integer n else pe_number E (show_integer n)
   | JFloat t \<Rightarrow> pe_number E t | _ \<Rightarrow> [])"

text \<open>\<open>String(v)\<close> for a value that was parsed from JSON, and for one that may be \<open>undefined\<close>.\<close>

fun text_of :: "page_env \<Rightarrow> json \<Rightarrow> string" where
  "text_of E JNull = ''null''"
| "text_of E (JBool b) = (if b then ''true'' else ''false'')"
| "text_of E (JInt n) = number_text E (JInt n)"
| "text_of E (JFloat t) = number_text E (JFloat t)"
| "text_of E (JStr s) = s"
| "text_of E (JArr vs) = join_with (CHR '','') (map (\<lambda>v. if v = JNull then [] else text_of E v) vs)"
| "text_of E (JObj ms) = ''[object Object]''"

definition string_of :: "page_env \<Rightarrow> json option \<Rightarrow> string" where
  "string_of E v = (case v of None \<Rightarrow> ''undefined'' | Some v \<Rightarrow> text_of E v)"

text \<open>Whether a value counts as true.\<close>

definition truthy :: "page_env \<Rightarrow> json option \<Rightarrow> bool" where
  "truthy E v = (case v of
     None \<Rightarrow> False | Some JNull \<Rightarrow> False | Some (JBool b) \<Rightarrow> b | Some (JStr s) \<Rightarrow> s \<noteq> []
   | Some (JInt n) \<Rightarrow> n \<noteq> 0 | Some (JFloat t) \<Rightarrow> number_text E (JFloat t) \<noteq> ''0'' | Some _ \<Rightarrow> True)"

text \<open>\<open>a || b\<close>.\<close>

definition or_else_js :: "page_env \<Rightarrow> json option \<Rightarrow> json option \<Rightarrow> json option" where
  "or_else_js E a b = (if truthy E a then a else b)"

text \<open>\<open>esc(v)\<close>: nothing for \<open>null\<close> and \<open>undefined\<close>, otherwise the escaped text.\<close>

definition esc :: "page_env \<Rightarrow> json option \<Rightarrow> string" where
  "esc E v = (if v = None \<or> v = Some JNull then [] else escape (string_of E v))"

definition esc_text :: "string \<Rightarrow> string" where
  "esc_text t = escape t"

text \<open>Reading a member: an error on \<open>null\<close>, \<open>undefined\<close> where there is none.\<close>

definition member :: "page_env \<Rightarrow> json \<Rightarrow> string \<Rightarrow> json option js" where
  "member E v k = (if v = JNull then throw (type_error E) else give (get v k))"

text \<open>\<open>encodeURIComponent\<close>.\<close>

definition uri_plain :: "char \<Rightarrow> bool" where
  "uri_plain c \<longleftrightarrow> is_ascii_lowercase c \<or> is_ascii_uppercase c \<or> is_ascii_digit c \<or>
     c \<in> set (''-_.!~*()'' @ [CHR 0x27])"

definition hex_upper :: "nat \<Rightarrow> char" where
  "hex_upper n = (if n < 10 then char_of (48 + n) else char_of (55 + n))"

definition encode_uri_component :: "string \<Rightarrow> string" where
  "encode_uri_component t = concat (map (\<lambda>c. if uri_plain c then [c]
     else [CHR ''%'', hex_upper (code_of c div 16), hex_upper (code_of c mod 16)]) t)"

text \<open>\<open>s.trim() === ''\<close> on the bytes of \<open>s\<close>, with the white space of JavaScript.\<close>

fun js_blank :: "nat list \<Rightarrow> bool" where
  "js_blank [] = True"
| "js_blank (a # cs) =
     (if a = 32 \<or> 9 \<le> a \<and> a \<le> 13 then js_blank cs
      else case cs of
        b # cs1 \<Rightarrow>
          if a = 0xC2 then b = 0xA0 \<and> js_blank cs1
          else (case cs1 of
            c # cs2 \<Rightarrow>
              (a = 0xE1 \<and> b = 0x9A \<and> c = 0x80 \<or>
               a = 0xE2 \<and> b = 0x80 \<and> (0x80 \<le> c \<and> c \<le> 0x8A \<or> c = 0xA8 \<or> c = 0xA9 \<or> c = 0xAF) \<or>
               a = 0xE2 \<and> b = 0x81 \<and> c = 0x9F \<or> a = 0xE3 \<and> b = 0x80 \<and> c = 0x80 \<or>
               a = 0xEF \<and> b = 0xBB \<and> c = 0xBF) \<and> js_blank cs2
          | [] \<Rightarrow> False)
      | [] \<Rightarrow> False)"

section \<open>Signing in\<close>

text \<open>\<open>b64url\<close>: base64 without its padding, in the alphabet for URLs; \<open>rand\<close>: 32 random bytes in it.\<close>

definition b64url :: "page_env \<Rightarrow> string \<Rightarrow> string" where
  "b64url E bytes = trim_end_char (CHR ''='')
     (replace_char (CHR ''/'') ''_'' (replace_char (CHR ''+'') ''-'' (x_base64 (pe_ext E) bytes)))"

definition rand :: "page_env \<Rightarrow> string js" where
  "rand E s = (Inr (b64url E (map (\<lambda>i. pe_random E (br_drawn s + i)) [0..<32])), s\<lparr>br_drawn := br_drawn s + 32\<rparr>)"

definition redirect_uri :: "page_env \<Rightarrow> string" where
  "redirect_uri E = se_public_url (pe_config E) @ ''/settings''"

definition login :: "page_env \<Rightarrow> unit js" where
  "login E = thn (rand E) (\<lambda>verifier. thn (rand E) (\<lambda>state.
     thn (change (set_item PKCE_S state \<circ> set_item PKCE_V verifier)) (\<lambda>_.
     if \<not> pe_issuer_is_url E then throw (type_error E)
     else change (send (Authorize [(''response_type'', ''code''), (''client_id'', se_client_id (pe_config E)),
       (''redirect_uri'', redirect_uri E), (''scope'', ''openid profile email''), (''audience'', se_audience (pe_config E)),
       (''state'', state), (''code_challenge'', b64url E (x_sha256 (pe_ext E) verifier)),
       (''code_challenge_method'', ''S256'')])))))"

definition forget :: "browser \<Rightarrow> browser" where
  "forget = remove_item IDT \<circ> remove_item AT"

definition ok_status :: "nat \<Rightarrow> bool" where
  "ok_status n \<longleftrightarrow> 200 \<le> n \<and> n \<le> 299"

definition fetch :: "page_env \<Rightarrow> sent \<Rightarrow> answer js" where
  "fetch E q s = (Inr (pe_answer E (length (br_sent s)) q), send q s)"

definition MISMATCH :: string where
  "MISMATCH = [CHR 0xE3, CHR 0x83, CHR 0xAD, CHR 0xE3, CHR 0x82, CHR 0xB0, CHR 0xE3, CHR 0x82, CHR 0xA4, CHR 0xE3,
     CHR 0x83, CHR 0xB3, CHR 0xE3, CHR 0x81, CHR 0xAE, CHR 0xE6, CHR 0x88, CHR 0xBB, CHR 0xE3, CHR 0x82,
     CHR 0x8A, CHR 0xE3, CHR 0x81, CHR 0x8C, CHR 0xE4, CHR 0xB8, CHR 0x80, CHR 0xE8, CHR 0x87, CHR 0xB4,
     CHR 0xE3, CHR 0x81, CHR 0x97, CHR 0xE3, CHR 0x81, CHR 0xBE, CHR 0xE3, CHR 0x81, CHR 0x9B, CHR 0xE3,
     CHR 0x82, CHR 0x93, CHR 0xE3, CHR 0x80, CHR 0x82, CHR 0xE3, CHR 0x82, CHR 0x82, CHR 0xE3, CHR 0x81,
     CHR 0x86, CHR 0xE4, CHR 0xB8, CHR 0x80, CHR 0xE5, CHR 0xBA, CHR 0xA6, CHR 0xE3, CHR 0x83, CHR 0xAD,
     CHR 0xE3, CHR 0x82, CHR 0xB0, CHR 0xE3, CHR 0x82, CHR 0xA4, CHR 0xE3, CHR 0x83, CHR 0xB3, CHR 0xE3,
     CHR 0x81, CHR 0x97, CHR 0xE3, CHR 0x81, CHR 0xA6, CHR 0xE3, CHR 0x81, CHR 0x8F, CHR 0xE3, CHR 0x81,
     CHR 0xA0, CHR 0xE3, CHR 0x81, CHR 0x95, CHR 0xE3, CHR 0x81, CHR 0x84, CHR 0xE3, CHR 0x80, CHR 0x82]"

text \<open>What \<open>exchange\<close> does with the answer to its request.\<close>

definition received :: "page_env \<Rightarrow> answer \<Rightarrow> unit js" where
  "received E a =
     (case a of
        Failed_fetch m \<Rightarrow> throw (Thrown m None None)
      | Status_body n body \<Rightarrow>
          if \<not> ok_status n
          then throw (Thrown (''token '' @ [CHR 0xE3, CHR 0x81, CHR 0xAE, CHR 0xE4, CHR 0xBA, CHR 0xA4, CHR 0xE6, CHR 0x8F,
     CHR 0x9B, CHR 0xE3, CHR 0x81, CHR 0xAB, CHR 0xE5, CHR 0xA4, CHR 0xB1, CHR 0xE6, CHR 0x95, CHR 0x97,
     CHR 0xE3, CHR 0x81, CHR 0x97, CHR 0xE3, CHR 0x81, CHR 0xBE, CHR 0xE3, CHR 0x81, CHR 0x97, CHR 0xE3,
     CHR 0x81, CHR 0x9F] @ '' ('' @ show_nat n @ '')'') None None)
          else (case body of
              Inl m \<Rightarrow> throw (Thrown m None None)
            | Inr t \<Rightarrow> thn (member E t ''access_token'') (\<lambda>at.
                thn (change (set_item AT (string_of E at))) (\<lambda>_.
                if truthy E (get t ''id_token'')
                then change (set_item IDT (string_of E (get t ''id_token''))) else give ()))))"

text \<open>
  \<open>exchange\<close>: the stored verifier and state are used up before anything is compared or sent. An
  empty string counts as nothing stored.
\<close>

definition exchange :: "page_env \<Rightarrow> string \<Rightarrow> string option \<Rightarrow> unit js" where
  "exchange E code state s =
     (let stored = br_store s
      in thn (change (remove_item PKCE_S \<circ> remove_item PKCE_V)) (\<lambda>_.
         case (stored PKCE_V, stored PKCE_S) of
           (Some verifier, Some expected) \<Rightarrow>
             if verifier = [] \<or> expected = [] \<or> state \<noteq> Some expected then throw (Thrown MISMATCH None None)
             else if \<not> pe_issuer_is_url E then throw (type_error E)
             else thn (fetch E (Token_request [(''grant_type'', ''authorization_code''),
                 (''client_id'', se_client_id (pe_config E)), (''code'', code), (''code_verifier'', verifier),
                 (''redirect_uri'', redirect_uri E)])) (received E)
         | _ \<Rightarrow> throw (Thrown MISMATCH None None))) s"

section \<open>Calls of the hub\<close>

definition EXPIRED :: string where
  "EXPIRED = [CHR 0xE3, CHR 0x83, CHR 0xAD, CHR 0xE3, CHR 0x82, CHR 0xB0, CHR 0xE3, CHR 0x82, CHR 0xA4, CHR 0xE3,
     CHR 0x83, CHR 0xB3, CHR 0xE3, CHR 0x81, CHR 0xAE, CHR 0xE6, CHR 0x9C, CHR 0x9F, CHR 0xE9, CHR 0x99,
     CHR 0x90, CHR 0xE3, CHR 0x81, CHR 0x8C, CHR 0xE5, CHR 0x88, CHR 0x87, CHR 0xE3, CHR 0x82, CHR 0x8C,
     CHR 0xE3, CHR 0x81, CHR 0xBE, CHR 0xE3, CHR 0x81, CHR 0x97, CHR 0xE3, CHR 0x81, CHR 0x9F, CHR 0xE3,
     CHR 0x80, CHR 0x82, CHR 0xE3, CHR 0x82, CHR 0x82, CHR 0xE3, CHR 0x81, CHR 0x86, CHR 0xE4, CHR 0xB8,
     CHR 0x80, CHR 0xE5, CHR 0xBA, CHR 0xA6, CHR 0xE3, CHR 0x83, CHR 0xAD, CHR 0xE3, CHR 0x82, CHR 0xB0,
     CHR 0xE3, CHR 0x82, CHR 0xA4, CHR 0xE3, CHR 0x83, CHR 0xB3, CHR 0xE3, CHR 0x81, CHR 0x97, CHR 0xE3,
     CHR 0x81, CHR 0xA6, CHR 0xE3, CHR 0x81, CHR 0x8F, CHR 0xE3, CHR 0x81, CHR 0xA0, CHR 0xE3, CHR 0x81,
     CHR 0x95, CHR 0xE3, CHR 0x81, CHR 0x84, CHR 0xE3, CHR 0x80, CHR 0x82]"

text \<open>The bearer text: \<open>getItem\<close> gives \<open>null\<close> where nothing is stored.\<close>

definition bearer :: "browser \<Rightarrow> string" where
  "bearer s = ''Bearer '' @ (case br_store s AT of Some t \<Rightarrow> t | None \<Rightarrow> ''null'')"

definition answered :: "page_env \<Rightarrow> answer \<Rightarrow> json js" where
  "answered E a =
     (case a of
        Failed_fetch m \<Rightarrow> throw (Thrown m None None)
      | Status_body n body \<Rightarrow>
          if n = 401 then thn (change forget) (\<lambda>_. throw (Expired EXPIRED))
          else (let data = (case body of Inl _ \<Rightarrow> JObj [] | Inr v \<Rightarrow> v)
                in if ok_status n then give data
                   else thn (member E data ''error'') (\<lambda>error.
                     throw (Thrown (if truthy E error then string_of E error
                         else [CHR 0xE3, CHR 0x82, CHR 0xA8, CHR 0xE3, CHR 0x83, CHR 0xA9, CHR 0xE3, CHR 0x83, CHR 0xBC] @ '' ('' @ show_nat n @ '')'')
                       (get data ''reason'') (get data ''until'')))))"

definition api :: "page_env \<Rightarrow> meth \<Rightarrow> string \<Rightarrow> json option \<Rightarrow> json js" where
  "api E m path body s = thn (fetch E (Call m path (bearer s) body)) (answered E) s"

text \<open>
  \<open>Promise.all\<close> over the names: all calls go out before any answer comes; the first that fails,
  which the browser knows, decides.
\<close>

definition publications_path :: "page_env \<Rightarrow> json \<Rightarrow> string" where
  "publications_path E n = ''/v1/users/@'' @ encode_uri_component (string_of E (get n ''handle'')) @ ''/publications''"

fun call_all :: "page_env \<Rightarrow> json list \<Rightarrow> (js_error + answer) list js" where
  "call_all E [] = give []"
| "call_all E (n # ns) =
     (if n = JNull then thn (call_all E ns) (\<lambda>as. give (Inl (type_error E) # as))
      else (\<lambda>s. thn (fetch E (Call GET (publications_path E n) (bearer s) None)) (\<lambda>a.
        thn (call_all E ns) (\<lambda>as. give (Inr a # as))) s))"

fun settle_all :: "page_env \<Rightarrow> (js_error + answer) list \<Rightarrow> (js_error + json option) list js" where
  "settle_all E [] = give []"
| "settle_all E (a # as) =
     (\<lambda>s. let (r, s1) = (case a of Inl e \<Rightarrow> (Inl e, s)
            | Inr a \<Rightarrow> thn (answered E a) (\<lambda>v. member E v ''publications'') s)
          in thn (settle_all E as) (\<lambda>rs. give (r # rs)) s1)"

definition first_error :: "page_env \<Rightarrow> (js_error + 'a) list \<Rightarrow> js_error option" where
  "first_error E rs = (case List.map_filter (\<lambda>r. case r of Inl e \<Rightarrow> Some e | Inr _ \<Rightarrow> None) rs of
     [] \<Rightarrow> None | e # es \<Rightarrow> Some (if pe_first E (e # es) \<in> set (e # es) then pe_first E (e # es) else e))"

definition publications_of_all :: "page_env \<Rightarrow> json list \<Rightarrow> (json \<times> json option) list js" where
  "publications_of_all E ns = thn (call_all E ns) (\<lambda>as. thn (settle_all E as) (\<lambda>rs.
     case first_error E rs of
       Some e \<Rightarrow> throw e
     | None \<Rightarrow> give (zip ns (List.map_filter (\<lambda>r. case r of Inl e \<Rightarrow> None | Inr p \<Rightarrow> Some p) rs))))"

definition load_names :: "page_env \<Rightarrow> unit js" where
  "load_names E = catching
     (thn (api E GET ''/v1/me/publishers'' None) (\<lambda>data.
      thn (member E data ''publishers'') (\<lambda>publishers.
      case publishers of
        Some (JArr ns) \<Rightarrow> thn (publications_of_all E ns) (\<lambda>names. change (\<lambda>s. s\<lparr>br_names := Some names\<rparr>))
      | _ \<Rightarrow> throw (type_error E))))
     (\<lambda>e. case e of
        Expired m \<Rightarrow> throw (Expired m)
      | Thrown _ _ _ \<Rightarrow> change (\<lambda>s. s\<lparr>br_names := None\<rparr>))"

section \<open>The page\<close>

definition role_label :: "page_env \<Rightarrow> json option \<Rightarrow> string" where
  "role_label E r =
     (let k = string_of E r
      in if k = ''owner'' then [CHR 0xE6, CHR 0x8C, CHR 0x81, CHR 0xE3, CHR 0x81, CHR 0xA1, CHR 0xE4, CHR 0xB8, CHR 0xBB]
         else if k = ''admin'' then [CHR 0xE7, CHR 0xAE, CHR 0xA1, CHR 0xE7, CHR 0x90, CHR 0x86, CHR 0xE8, CHR 0x80, CHR 0x85]
         else if k = ''member'' then [CHR 0xE3, CHR 0x83, CHR 0xA1, CHR 0xE3, CHR 0x83, CHR 0xB3, CHR 0xE3, CHR 0x83, CHR 0x90, CHR 0xE3,
     CHR 0x83, CHR 0xBC]
         else case pe_inherited E k of
           Some t \<Rightarrow> t
         | None \<Rightarrow> (if r = None \<or> r = Some JNull then [] else string_of E r))"

definition name_item :: "page_env \<Rightarrow> json \<Rightarrow> string" where
  "name_item E n =
     ''<li><a href=\"'' @ esc E (get n ''canonicalPath'') @ ''\">@'' @ esc E (get n ''handle'') @ ''</a> <span class=\"note\">'' @
     (if get n ''accountType'' = Some (JStr ''organization'')
      then [CHR 0xE5, CHR 0x9B, CHR 0xA3, CHR 0xE4, CHR 0xBD, CHR 0x93, CHR 0xE3, CHR 0x83, CHR 0xBB] @ esc_text (role_label E (get n ''role'')) else [CHR 0xE3, CHR 0x81, CHR 0x82, CHR 0xE3, CHR 0x81, CHR 0xAA, CHR 0xE3, CHR 0x81, CHR 0x9F]) @ ''</span></li>''"

definition publication_entry :: "page_env \<Rightarrow> json \<Rightarrow> json \<Rightarrow> string" where
  "publication_entry E n p =
     ''<li><a href=\"'' @ esc E (get p ''canonicalPath'') @ ''\">'' @ esc E (or_else_js E (get p ''title'') (get p ''slug'')) @
     ''</a> <span class=\"note\">@'' @ esc E (get n ''handle'') @ ''/'' @ esc E (get p ''slug'') @ ''</span></li>''"

text \<open>The entries of all names; \<open>None\<close> when the script would fail on a value that is not a list of objects.\<close>

fun entries_of :: "page_env \<Rightarrow> (json \<times> json option) list \<Rightarrow> string list option" where
  "entries_of E [] = Some []"
| "entries_of E ((n, publications) # names) =
     (case publications of
        Some (JArr ps) \<Rightarrow>
          if JNull \<in> set ps then None
          else map_option (\<lambda>es. map (publication_entry E n) ps @ es) (entries_of E names)
      | _ \<Rightarrow> None)"

definition names_section :: "page_env \<Rightarrow> (json \<times> json option) list \<Rightarrow> string list \<Rightarrow> string" where
  "names_section E names entries =
     ''<h2 class=\"group\">'' @ [CHR 0xE5, CHR 0x90, CHR 0x8D, CHR 0xE7, CHR 0xBE, CHR 0xA9, CHR 0xE3,
     CHR 0x81, CHR 0xA8, CHR 0xE8, CHR 0xAA, CHR 0xAD, CHR 0xE3, CHR 0x82, CHR 0x81, CHR 0xE3, CHR 0x82,
     CHR 0x8B, CHR 0xE5, CHR 0x85, CHR 0xAC, CHR 0xE9, CHR 0x96, CHR 0x8B] @ '' URL</h2>'' @ [CHR 0x0A] @
     ''      <section><h3>'' @ [CHR 0xE4, CHR 0xBD, CHR 0xBF, CHR 0xE3, CHR 0x81, CHR 0x88, CHR 0xE3,
     CHR 0x82, CHR 0x8B, CHR 0xE5, CHR 0x90, CHR 0x8D, CHR 0xE7, CHR 0xBE, CHR 0xA9] @ ''</h3>'' @
     (if names = [] then ''<p class=\"note\">handle '' @ [CHR 0xE3, CHR 0x82, CHR 0x92, CHR 0xE6, CHR 0xB1, CHR 0xBA,
     CHR 0xE3, CHR 0x82, CHR 0x81, CHR 0xE3, CHR 0x82, CHR 0x8B, CHR 0xE3, CHR 0x81, CHR 0xA8, CHR 0xE3,
     CHR 0x80, CHR 0x81, CHR 0xE8, CHR 0x87, CHR 0xAA, CHR 0xE5, CHR 0x88, CHR 0x86, CHR 0xE3, CHR 0x81,
     CHR 0xAE, CHR 0xE5, CHR 0x90, CHR 0x8D, CHR 0xE7, CHR 0xBE, CHR 0xA9, CHR 0xE3, CHR 0x81, CHR 0xA7,
     CHR 0xE5, CHR 0x85, CHR 0xAC, CHR 0xE9, CHR 0x96, CHR 0x8B, CHR 0xE3, CHR 0x81, CHR 0xA7, CHR 0xE3,
     CHR 0x81, CHR 0x8D, CHR 0xE3, CHR 0x81, CHR 0xBE, CHR 0xE3, CHR 0x81, CHR 0x99, CHR 0xE3, CHR 0x80,
     CHR 0x82] @ ''</p>''
      else ''<ul>'' @ concat (map (name_item E \<circ> fst) names) @ ''</ul>'') @
     ''</section>'' @ [CHR 0x0A] @ ''      <section><h3>'' @ [CHR 0xE8, CHR 0xAA, CHR 0xAD, CHR 0xE3,
     CHR 0x82, CHR 0x81, CHR 0xE3, CHR 0x82, CHR 0x8B, CHR 0xE5, CHR 0x85, CHR 0xAC, CHR 0xE9, CHR 0x96,
     CHR 0x8B] @ '' URL</h3>'' @
     (if entries = [] then ''<p class=\"note\">'' @ [CHR 0xE3, CHR 0x81, CHR 0xBE, CHR 0xE3, CHR 0x81, CHR 0xA0, CHR 0xE3,
     CHR 0x81, CHR 0x82, CHR 0xE3, CHR 0x82, CHR 0x8A, CHR 0xE3, CHR 0x81, CHR 0xBE, CHR 0xE3, CHR 0x81,
     CHR 0x9B, CHR 0xE3, CHR 0x82, CHR 0x93, CHR 0xE3, CHR 0x80, CHR 0x82] @ ''</p>'' else ''<ul>'' @ concat entries @ ''</ul>'') @
     [CHR 0x0A] @ ''        <p class=\"note\">'' @ [CHR 0xE8, CHR 0xAA, CHR 0xAD, CHR 0xE3, CHR 0x82,
     CHR 0x81, CHR 0xE3, CHR 0x82, CHR 0x8B, CHR 0xE5, CHR 0x85, CHR 0xAC, CHR 0xE9, CHR 0x96, CHR 0x8B] @
     '' URL '' @ [CHR 0xE3, CHR 0x81, CHR 0xAF] @ '' Creo Memories '' @ [CHR 0xE3, CHR 0x81, CHR 0xAE] @
     '' lab '' @ [CHR 0xE4, CHR 0xBB, CHR 0xA5, CHR 0xE4, CHR 0xB8, CHR 0x8A, CHR 0xE3, CHR 0x81,
     CHR 0xAE, CHR 0xE3, CHR 0x83, CHR 0x97, CHR 0xE3, CHR 0x83, CHR 0xA9, CHR 0xE3, CHR 0x83, CHR 0xB3,
     CHR 0xE3, CHR 0x81, CHR 0xA7, CHR 0xE3, CHR 0x80, CHR 0x81, CHR 0xE3, CHR 0x82, CHR 0xA2, CHR 0xE3,
     CHR 0x83, CHR 0x97, CHR 0xE3, CHR 0x83, CHR 0xAA, CHR 0xE3, CHR 0x81, CHR 0x8B, CHR 0xE3, CHR 0x82,
     CHR 0x89, CHR 0xE4, CHR 0xBD, CHR 0x9C, CHR 0xE3, CHR 0x82, CHR 0x8C, CHR 0xE3, CHR 0x81, CHR 0xBE,
     CHR 0xE3, CHR 0x81, CHR 0x99, CHR 0xE3, CHR 0x80, CHR 0x82, CHR 0xE3, CHR 0x81, CHR 0x93, CHR 0xE3,
     CHR 0x81, CHR 0x93, CHR 0xE3, CHR 0x81, CHR 0xA7, CHR 0xE3, CHR 0x81, CHR 0xAF, CHR 0xE4, CHR 0xB8,
     CHR 0x80, CHR 0xE8, CHR 0xA6, CHR 0xA7, CHR 0xE3, CHR 0x81, CHR 0xA0, CHR 0xE3, CHR 0x81, CHR 0x91,
     CHR 0xE8, CHR 0xA6, CHR 0x8B, CHR 0xE3, CHR 0x82, CHR 0x89, CHR 0xE3, CHR 0x82, CHR 0x8C, CHR 0xE3,
     CHR 0x81, CHR 0xBE, CHR 0xE3, CHR 0x81, CHR 0x99, CHR 0xE3, CHR 0x80, CHR 0x82] @ ''</p></section>''"

definition names_view :: "page_env \<Rightarrow> (json \<times> json option) list option \<Rightarrow> string option" where
  "names_view E names =
     (case names of None \<Rightarrow> Some []
      | Some ns \<Rightarrow> map_option (names_section E ns) (entries_of E ns))"

text \<open>\<open>claims\<close>: the second part of the token, decoded; an empty object when anything fails.\<close>

definition id_claims :: "page_env \<Rightarrow> string \<Rightarrow> json" where
  "id_claims E jwt =
     (case split_on (CHR ''.'') jwt of
        _ # part # _ \<Rightarrow>
          (case Option.bind (pe_decode E part) (x_parse_json (pe_ext E)) of Some v \<Rightarrow> v | None \<Rightarrow> JObj [])
      | _ \<Rightarrow> JObj [])"

definition DAY :: int where
  "DAY = 24 * 60 * 60 * 1000"

text \<open>When the handle can be changed again, if it ever was changed; whether that is still to come.\<close>

definition cooling_until :: "page_env \<Rightarrow> json \<Rightarrow> int option option" where
  "cooling_until E self =
     (if truthy E (get self ''handleChangedAt'')
      then Some (map_option (\<lambda>t. t + 30 * DAY) (pe_date E (get self ''handleChangedAt''))) else None)"

definition cooling :: "page_env \<Rightarrow> json \<Rightarrow> bool" where
  "cooling E self = (case cooling_until E self of Some (Some t) \<Rightarrow> pe_now E < t | _ \<Rightarrow> False)"

definition PATTERN :: string where
  "PATTERN = ''[A-Za-z0-9][A-Za-z0-9-]{0,30}''"

definition reserved_note :: "page_env \<Rightarrow> json \<Rightarrow> string" where
  "reserved_note E self =
     (case get self ''reservedHandle'' of
        Some r \<Rightarrow> (if truthy E (Some r)
          then ''<p class=\"note\">@'' @ esc E (get r ''handle'') @ '' '' @ [CHR 0xE3, CHR 0x81, CHR 0xAF] @ '' '' @
            esc_text (pe_day_text E (pe_date E (get r ''expiresAt''))) @
            '' '' @ [CHR 0xE3, CHR 0x81, CHR 0xBE, CHR 0xE3, CHR 0x81, CHR 0xA7, CHR 0xE3, CHR 0x81, CHR 0x82,
     CHR 0xE3, CHR 0x81, CHR 0xAA, CHR 0xE3, CHR 0x81, CHR 0x9F, CHR 0xE3, CHR 0x81, CHR 0xAE, CHR 0xE3,
     CHR 0x81, CHR 0x9F, CHR 0xE3, CHR 0x82, CHR 0x81, CHR 0xE3, CHR 0x81, CHR 0xAB, CHR 0xE5, CHR 0x8F,
     CHR 0x96, CHR 0xE3, CHR 0x82, CHR 0x8A, CHR 0xE7, CHR 0xBD, CHR 0xAE, CHR 0xE3, CHR 0x81, CHR 0x8D,
     CHR 0xE3, CHR 0x81, CHR 0x95, CHR 0xE3, CHR 0x82, CHR 0x8C, CHR 0xE3, CHR 0x80, CHR 0x81, CHR 0xE6,
     CHR 0x96, CHR 0xB0, CHR 0xE3, CHR 0x81, CHR 0x97, CHR 0xE3, CHR 0x81, CHR 0x84, CHR 0xE4, CHR 0xBD,
     CHR 0x8F, CHR 0xE6, CHR 0x89, CHR 0x80, CHR 0xE3, CHR 0x81, CHR 0xB8, CHR 0xE6, CHR 0xA1, CHR 0x88,
     CHR 0xE5, CHR 0x86, CHR 0x85, CHR 0xE3, CHR 0x81, CHR 0x97, CHR 0xE3, CHR 0x81, CHR 0xBE, CHR 0xE3,
     CHR 0x81, CHR 0x99, CHR 0xE3, CHR 0x80, CHR 0x82] @ ''</p>''
          else [])
      | None \<Rightarrow> [])"

definition handle_section :: "page_env \<Rightarrow> json \<Rightarrow> string" where
  "handle_section E self =
     (if truthy E (get self ''handle'')
      then ''<p><strong>@'' @ esc E (get self ''handle'') @ ''</strong> <span class=\"note\">'' @
        esc_text (pe_origin E @ string_of E (get self ''canonicalPath'')) @ ''</span></p>'' @ [CHR 0x0A] @ ''         '' @ reserved_note E self @ [CHR 0x0A] @ ''         <details><summary>handle '' @ [CHR 0xE3, CHR 0x82, CHR 0x92, CHR 0xE5,
     CHR 0xA4, CHR 0x89, CHR 0xE3, CHR 0x81, CHR 0x88, CHR 0xE3, CHR 0x82, CHR 0x8B] @ ''</summary>'' @
     [CHR 0x0A] @ ''         <form id=\"claim\"><label>'' @ [CHR 0xE6, CHR 0x96, CHR 0xB0, CHR 0xE3,
     CHR 0x81, CHR 0x97, CHR 0xE3, CHR 0x81, CHR 0x84] @
     '' handle <input name=\"handle\" required pattern=\"'' @ PATTERN @
        ''\" autocomplete=\"off\" placeholder=\"'' @ esc E (get self ''handle'') @ [CHR 0x22] @ (if cooling E self then '' disabled'' else []) @
        ''></label>'' @ [CHR 0x0A] @ ''         <button'' @ (if cooling E self then '' disabled'' else []) @ ''>'' @ [CHR 0xE3, CHR 0x81, CHR 0x93, CHR 0xE3, CHR 0x81, CHR 0xAE] @ '' handle '' @ [CHR 0xE3,
     CHR 0x81, CHR 0xAB, CHR 0xE5, CHR 0xA4, CHR 0x89, CHR 0xE3, CHR 0x81, CHR 0x88, CHR 0xE3, CHR 0x82,
     CHR 0x8B] @ ''</button>'' @ [CHR 0x0A] @ ''         <p class=\"note\">'' @
        (if cooling E self
         then [CHR 0xE6, CHR 0xAC, CHR 0xA1, CHR 0xE3, CHR 0x81, CHR 0xAB, CHR 0xE5, CHR 0xA4, CHR 0x89, CHR 0xE3,
     CHR 0x81, CHR 0x88, CHR 0xE3, CHR 0x82, CHR 0x89, CHR 0xE3, CHR 0x82, CHR 0x8C, CHR 0xE3, CHR 0x82,
     CHR 0x8B, CHR 0xE3, CHR 0x81, CHR 0xAE, CHR 0xE3, CHR 0x81, CHR 0xAF] @ '' '' @ esc_text (pe_day_text E (the (cooling_until E self))) @ '' '' @ [CHR 0xE3, CHR 0x81, CHR 0x8B, CHR 0xE3, CHR 0x82, CHR 0x89, CHR 0xE3, CHR 0x81, CHR 0xA7,
     CHR 0xE3, CHR 0x81, CHR 0x99, CHR 0xEF, CHR 0xBC, CHR 0x88, CHR 0xE5, CHR 0xA4, CHR 0x89, CHR 0xE3,
     CHR 0x81, CHR 0x88, CHR 0xE3, CHR 0x81, CHR 0x9F, CHR 0xE3, CHR 0x81, CHR 0x82, CHR 0xE3, CHR 0x81,
     CHR 0xA8] @ '' 30 '' @ [CHR 0xE6, CHR 0x97, CHR 0xA5, CHR 0xE3, CHR 0x81, CHR 0xAF, CHR 0xE5,
     CHR 0x9B, CHR 0xBA, CHR 0xE5, CHR 0xAE, CHR 0x9A, CHR 0xEF, CHR 0xBC, CHR 0x89, CHR 0xE3, CHR 0x80,
     CHR 0x82]
         else [CHR 0xE5, CHR 0xA4, CHR 0x89, CHR 0xE3, CHR 0x81, CHR 0x88, CHR 0xE3, CHR 0x82, CHR 0x8B, CHR 0xE3,
     CHR 0x81, CHR 0xA8, CHR 0xE3, CHR 0x80, CHR 0x81, CHR 0xE4, CHR 0xBB, CHR 0x8A, CHR 0xE3, CHR 0x81,
     CHR 0xAE] @ '' handle '' @ [CHR 0xE3, CHR 0x81, CHR 0xAF] @ '' 100 '' @ [CHR 0xE6, CHR 0x97,
     CHR 0xA5, CHR 0xE9, CHR 0x96, CHR 0x93, CHR 0xE3, CHR 0x81, CHR 0x82, CHR 0xE3, CHR 0x81, CHR 0xAA,
     CHR 0xE3, CHR 0x81, CHR 0x9F, CHR 0xE3, CHR 0x81, CHR 0xAE, CHR 0xE3, CHR 0x81, CHR 0x9F, CHR 0xE3,
     CHR 0x82, CHR 0x81, CHR 0xE3, CHR 0x81, CHR 0xAB, CHR 0xE5, CHR 0x8F, CHR 0x96, CHR 0xE3, CHR 0x82,
     CHR 0x8A, CHR 0xE7, CHR 0xBD, CHR 0xAE, CHR 0xE3, CHR 0x81, CHR 0x8D, CHR 0xE3, CHR 0x81, CHR 0x95,
     CHR 0xE3, CHR 0x82, CHR 0x8C, CHR 0xE3, CHR 0x80, CHR 0x81, CHR 0xE3, CHR 0x81, CHR 0x9D, CHR 0xE3,
     CHR 0x81, CHR 0xAE, CHR 0xE9, CHR 0x96, CHR 0x93, CHR 0xE3, CHR 0x81, CHR 0xAF, CHR 0xE6, CHR 0x96,
     CHR 0xB0, CHR 0xE3, CHR 0x81, CHR 0x97, CHR 0xE3, CHR 0x81, CHR 0x84, CHR 0xE4, CHR 0xBD, CHR 0x8F,
     CHR 0xE6, CHR 0x89, CHR 0x80, CHR 0xE3, CHR 0x81, CHR 0xB8, CHR 0xE6, CHR 0xA1, CHR 0x88, CHR 0xE5,
     CHR 0x86, CHR 0x85, CHR 0xE3, CHR 0x81, CHR 0x97, CHR 0xE3, CHR 0x81, CHR 0xBE, CHR 0xE3, CHR 0x81,
     CHR 0x99, CHR 0xE3, CHR 0x80, CHR 0x82, CHR 0xE5, CHR 0xA4, CHR 0x89, CHR 0xE3, CHR 0x81, CHR 0x88,
     CHR 0xE3, CHR 0x81, CHR 0x9F, CHR 0xE3, CHR 0x81, CHR 0x82, CHR 0xE3, CHR 0x81, CHR 0xA8] @ '' 30 '' @
     [CHR 0xE6, CHR 0x97, CHR 0xA5, CHR 0xE3, CHR 0x81, CHR 0xAF, CHR 0xE5, CHR 0x86, CHR 0x8D, CHR 0xE5,
     CHR 0xA4, CHR 0x89, CHR 0xE6, CHR 0x9B, CHR 0xB4, CHR 0xE3, CHR 0x81, CHR 0xA7, CHR 0xE3, CHR 0x81,
     CHR 0x8D, CHR 0xE3, CHR 0x81, CHR 0xBE, CHR 0xE3, CHR 0x81, CHR 0x9B, CHR 0xE3, CHR 0x82, CHR 0x93,
     CHR 0xE3, CHR 0x80, CHR 0x82]) @
        ''</p></form></details>''
      else ''<form id=\"claim\"><label>handle <input name=\"handle\" required pattern=\"'' @ PATTERN @
        ''\" autocomplete=\"off\" placeholder=\"mito\"></label>'' @ [CHR 0x0A] @ ''         <button>'' @
     [CHR 0xE3, CHR 0x81, CHR 0x93, CHR 0xE3, CHR 0x81, CHR 0xAE] @ '' handle '' @ [CHR 0xE3, CHR 0x81,
     CHR 0xAB, CHR 0xE3, CHR 0x81, CHR 0x99, CHR 0xE3, CHR 0x82, CHR 0x8B] @ ''</button>'' @ [CHR 0x0A] @
     ''         <p class=\"note\">'' @ [CHR 0xE5, CHR 0xB0, CHR 0x8F, CHR 0xE6, CHR 0x96, CHR 0x87,
     CHR 0xE5, CHR 0xAD, CHR 0x97, CHR 0xE8, CHR 0x8B, CHR 0xB1, CHR 0xE6, CHR 0x95, CHR 0xB0, CHR 0xE3,
     CHR 0x81, CHR 0xA8, CHR 0xE3, CHR 0x83, CHR 0x8F, CHR 0xE3, CHR 0x82, CHR 0xA4, CHR 0xE3, CHR 0x83,
     CHR 0x95, CHR 0xE3, CHR 0x83, CHR 0xB3, CHR 0xE3, CHR 0x80, CHR 0x81] @ ''31 '' @ [CHR 0xE6,
     CHR 0x96, CHR 0x87, CHR 0xE5, CHR 0xAD, CHR 0x97, CHR 0xE3, CHR 0x81, CHR 0xBE, CHR 0xE3, CHR 0x81,
     CHR 0xA7, CHR 0xE3, CHR 0x80, CHR 0x82] @ ''Creo Apps '' @ [CHR 0xE3, CHR 0x81, CHR 0xA7, CHR 0xE5,
     CHR 0x85, CHR 0xB1, CHR 0xE9, CHR 0x80, CHR 0x9A, CHR 0xE3, CHR 0x81, CHR 0xAE, CHR 0xE4, CHR 0xBD,
     CHR 0x8F, CHR 0xE6, CHR 0x89, CHR 0x80, CHR 0xE3, CHR 0x81, CHR 0xAB, CHR 0xE3, CHR 0x81, CHR 0xAA,
     CHR 0xE3, CHR 0x82, CHR 0x8A, CHR 0xE3, CHR 0x81, CHR 0xBE, CHR 0xE3, CHR 0x81, CHR 0x99, CHR 0xE3,
     CHR 0x80, CHR 0x82, CHR 0xE5, CHR 0xBF, CHR 0x85, CHR 0xE8, CHR 0xA6, CHR 0x81, CHR 0xE3, CHR 0x81,
     CHR 0xAB, CHR 0xE3, CHR 0x81, CHR 0xAA, CHR 0xE3, CHR 0x82, CHR 0x8B, CHR 0xE3, CHR 0x81, CHR 0xBE,
     CHR 0xE3, CHR 0x81, CHR 0xA7, CHR 0xE6, CHR 0xB1, CHR 0xBA, CHR 0xE3, CHR 0x82, CHR 0x81, CHR 0xE3,
     CHR 0x81, CHR 0xAA, CHR 0xE3, CHR 0x81, CHR 0x8F, CHR 0xE3, CHR 0x81, CHR 0xA6, CHR 0xE3, CHR 0x82,
     CHR 0x82, CHR 0xE4, CHR 0xBD, CHR 0xBF, CHR 0xE3, CHR 0x81, CHR 0x88, CHR 0xE3, CHR 0x81, CHR 0xBE,
     CHR 0xE3, CHR 0x81, CHR 0x99, CHR 0xE3, CHR 0x80, CHR 0x82] @ ''</p></form>'')"

definition message_part :: "string option \<Rightarrow> string" where
  "message_part msg =
     (case msg of
        None \<Rightarrow> []
      | Some m \<Rightarrow> if m = [] then [] else ''<p class=\"msg\">'' @ esc_text m @ ''</p>'')"

definition view_html :: "page_env \<Rightarrow> json \<Rightarrow> json \<Rightarrow> string \<Rightarrow> string option \<Rightarrow> string" where
  "view_html E i self names msg =
     [CHR 0x0A] @ ''      '' @ message_part msg @ [CHR 0x0A] @ ''      <section><h2>Creo ID</h2>'' @ [CHR 0x0A] @ ''        '' @ (if truthy E (or_else_js E (get i ''name'') (get i ''nickname''))
       then ''<p>'' @ esc E (or_else_js E (get i ''name'') (get i ''nickname'')) @ ''</p>'' else []) @ [CHR 0x0A] @ ''        <p>'' @ (if truthy E (get i ''email'') then esc E (get i ''email'') else []) @ '' <span class=\"note\">'' @
     (if get i ''email_verified'' = Some (JBool False) then [CHR 0xEF, CHR 0xBC, CHR 0x88, CHR 0xE6, CHR 0x9C, CHR 0xAA, CHR 0xE7, CHR 0xA2, CHR 0xBA, CHR 0xE8,
     CHR 0xAA, CHR 0x8D, CHR 0xEF, CHR 0xBC, CHR 0x89] else []) @ ''</span></p>'' @ [CHR 0x0A] @ ''        <p class=\"note\">'' @ [CHR 0xE5, CHR 0x88, CHR 0xA9,
     CHR 0xE7, CHR 0x94, CHR 0xA8, CHR 0xE8, CHR 0x80, CHR 0x85] @ '' ID: <code>'' @ esc E (get self ''usrId'') @ ''</code></p>'' @ [CHR 0x0A] @ ''        <p class=\"note\">'' @ [CHR 0xE3, CHR 0x83, CHR 0xA1,
     CHR 0xE3, CHR 0x83, CHR 0xBC, CHR 0xE3, CHR 0x83, CHR 0xAB, CHR 0xE3, CHR 0x80, CHR 0x81, CHR 0xE3,
     CHR 0x83, CHR 0x91, CHR 0xE3, CHR 0x82, CHR 0xB9, CHR 0xE3, CHR 0x83, CHR 0xAF, CHR 0xE3, CHR 0x83,
     CHR 0xBC, CHR 0xE3, CHR 0x83, CHR 0x89, CHR 0xE3, CHR 0x80, CHR 0x81, CHR 0xE3, CHR 0x83, CHR 0xAD,
     CHR 0xE3, CHR 0x82, CHR 0xB0, CHR 0xE3, CHR 0x82, CHR 0xA4, CHR 0xE3, CHR 0x83, CHR 0xB3, CHR 0xE6,
     CHR 0x96, CHR 0xB9, CHR 0xE6, CHR 0xB3, CHR 0x95, CHR 0xE3, CHR 0x81, CHR 0xAF] @ '' <a href=\"'' @ esc_text (pe_issuer E) @ ''\">Creo ID</a> '' @ [CHR 0xE3, CHR 0x81, CHR 0xA7, CHR 0xE7, CHR 0xAE, CHR 0xA1, CHR 0xE7,
     CHR 0x90, CHR 0x86, CHR 0xE3, CHR 0x81, CHR 0x97, CHR 0xE3, CHR 0x81, CHR 0xBE, CHR 0xE3, CHR 0x81,
     CHR 0x99, CHR 0xE3, CHR 0x80, CHR 0x82, CHR 0xE3, CHR 0x81, CHR 0x93, CHR 0xE3, CHR 0x81, CHR 0x93,
     CHR 0xE3, CHR 0x81, CHR 0xA7, CHR 0xE3, CHR 0x81, CHR 0xAF, CHR 0xE8, CHR 0xA6, CHR 0x8B, CHR 0xE3,
     CHR 0x82, CHR 0x8B, CHR 0xE3, CHR 0x81, CHR 0xA0, CHR 0xE3, CHR 0x81, CHR 0x91, CHR 0xE3, CHR 0x81,
     CHR 0xA7, CHR 0xE3, CHR 0x81, CHR 0x99, CHR 0xE3, CHR 0x80, CHR 0x82] @ ''</p>'' @ [CHR 0x0A] @
     ''        <button id=\"logout\" class=\"secondary\">'' @ [CHR 0xE3, CHR 0x83, CHR 0xAD, CHR 0xE3,
     CHR 0x82, CHR 0xB0, CHR 0xE3, CHR 0x82, CHR 0xA2, CHR 0xE3, CHR 0x82, CHR 0xA6, CHR 0xE3, CHR 0x83,
     CHR 0x88] @ ''</button></section>'' @ [CHR 0x0A] @ ''      <h2 class=\"group\">'' @ [CHR 0xE3,
     CHR 0x81, CHR 0x93, CHR 0xE3, CHR 0x81, CHR 0x93, CHR 0xE3, CHR 0x81, CHR 0xA7, CHR 0xE5, CHR 0xA4,
     CHR 0x89, CHR 0xE3, CHR 0x81, CHR 0x88, CHR 0xE3, CHR 0x82, CHR 0x89, CHR 0xE3, CHR 0x82, CHR 0x8C,
     CHR 0xE3, CHR 0x82, CHR 0x8B, CHR 0xE3, CHR 0x82, CHR 0x82, CHR 0xE3, CHR 0x81, CHR 0xAE] @
     ''</h2>'' @ [CHR 0x0A] @ ''      <section><h3>handle</h3>'' @ handle_section E self @ ''</section>'' @ [CHR 0x0A] @ ''      <section><h3>'' @ [CHR 0xE5, CHR 0x91, CHR 0xBC, CHR 0xE3,
     CHR 0x81, CHR 0xB3, CHR 0xE5, CHR 0x90, CHR 0x8D] @ ''</h3>'' @ [CHR 0x0A] @
     ''        <form id=\"name\"><label>'' @ [CHR 0xE8, CHR 0xA1, CHR 0xA8, CHR 0xE7, CHR 0xA4, CHR 0xBA,
     CHR 0xE3, CHR 0x81, CHR 0x95, CHR 0xE3, CHR 0x82, CHR 0x8C, CHR 0xE3, CHR 0x82, CHR 0x8B, CHR 0xE5,
     CHR 0x90, CHR 0x8D, CHR 0xE5, CHR 0x89, CHR 0x8D] @
     '' <input name=\"displayName\" maxlength=\"80\" value=\"'' @
     (if truthy E (get self ''displayName'') then esc E (get self ''displayName'') else []) @ ''\" placeholder=\"'' @ [CHR 0xE3, CHR 0x81, CHR 0xBF, CHR 0xE3, CHR 0x81, CHR 0xA8] @
     ''\"></label>'' @ [CHR 0x0A] @ ''        <button>'' @ [CHR 0xE4, CHR 0xBF, CHR 0x9D, CHR 0xE5,
     CHR 0xAD, CHR 0x98] @ ''</button></form>'' @ [CHR 0x0A] @ ''        <p class=\"note\">'' @ [CHR 0xE8,
     CHR 0x87, CHR 0xAA, CHR 0xE7, CHR 0x94, CHR 0xB1, CHR 0xE3, CHR 0x81, CHR 0xAB, CHR 0xE4, CHR 0xBB,
     CHR 0x98, CHR 0xE3, CHR 0x81, CHR 0x91, CHR 0xE3, CHR 0x82, CHR 0x89, CHR 0xE3, CHR 0x82, CHR 0x8C,
     CHR 0xE3, CHR 0x81, CHR 0xA6, CHR 0xE3, CHR 0x80, CHR 0x81, CHR 0xE5, CHR 0x90, CHR 0x8C, CHR 0xE3,
     CHR 0x81, CHR 0x98, CHR 0xE5, CHR 0x90, CHR 0x8D, CHR 0xE5, CHR 0x89, CHR 0x8D, CHR 0xE3, CHR 0x81,
     CHR 0xAE, CHR 0xE4, CHR 0xBA, CHR 0xBA, CHR 0xE3, CHR 0x81, CHR 0x8C, CHR 0xE3, CHR 0x81, CHR 0x84,
     CHR 0xE3, CHR 0x81, CHR 0xA6, CHR 0xE3, CHR 0x82, CHR 0x82, CHR 0xE6, CHR 0xA7, CHR 0x8B, CHR 0xE3,
     CHR 0x81, CHR 0x84, CHR 0xE3, CHR 0x81, CHR 0xBE, CHR 0xE3, CHR 0x81, CHR 0x9B, CHR 0xE3, CHR 0x82,
     CHR 0x93, CHR 0xE3, CHR 0x80, CHR 0x82] @ ''</p></section>'' @ [CHR 0x0A] @ ''      '' @ names"

definition view :: "page_env \<Rightarrow> json \<Rightarrow> string option \<Rightarrow> unit js" where
  "view E self msg s =
     (let i = id_claims E (case br_store s IDT of Some t \<Rightarrow> t | None \<Rightarrow> [])
      in case names_view E (br_names s) of
        Some names \<Rightarrow>
          if self = JNull \<or> i = JNull then (Inl (type_error E), s)
          else (Inr (), s\<lparr>br_html := view_html E i self names msg, br_screen := Settings_form self\<rparr>)
      | None \<Rightarrow> (Inl (type_error E), s))"

definition login_html :: "string option \<Rightarrow> string" where
  "login_html msg = message_part msg @
     ''<p>Creo Apps '' @ [CHR 0xE3, CHR 0x81, CHR 0xA7, CHR 0xE5, CHR 0x85, CHR 0xB1, CHR 0xE9, CHR 0x80,
     CHR 0x9A, CHR 0xE3, CHR 0x81, CHR 0xAE] @ '' handle '' @ [CHR 0xE3, CHR 0x81, CHR 0xA8, CHR 0xE5,
     CHR 0x91, CHR 0xBC, CHR 0xE3, CHR 0x81, CHR 0xB3, CHR 0xE5, CHR 0x90, CHR 0x8D, CHR 0xE3, CHR 0x82,
     CHR 0x92, CHR 0xE8, CHR 0xA8, CHR 0xAD, CHR 0xE5, CHR 0xAE, CHR 0x9A, CHR 0xE3, CHR 0x81, CHR 0x97,
     CHR 0xE3, CHR 0x81, CHR 0xBE, CHR 0xE3, CHR 0x81, CHR 0x99, CHR 0xE3, CHR 0x80, CHR 0x82, CHR 0xE3,
     CHR 0x83, CHR 0xAD, CHR 0xE3, CHR 0x82, CHR 0xB0, CHR 0xE3, CHR 0x82, CHR 0xA4, CHR 0xE3, CHR 0x83,
     CHR 0xB3, CHR 0xE3, CHR 0x81, CHR 0xA8, CHR 0xE3, CHR 0x82, CHR 0xA2, CHR 0xE3, CHR 0x82, CHR 0xAB,
     CHR 0xE3, CHR 0x82, CHR 0xA6, CHR 0xE3, CHR 0x83, CHR 0xB3, CHR 0xE3, CHR 0x83, CHR 0x88, CHR 0xE3,
     CHR 0x81, CHR 0xAF] @ '' Creo ID '' @ [CHR 0xE3, CHR 0x81, CHR 0x8C, CHR 0xE6, CHR 0x8C, CHR 0x81,
     CHR 0xE3, CHR 0x81, CHR 0xA3, CHR 0xE3, CHR 0x81, CHR 0xA6, CHR 0xE3, CHR 0x81, CHR 0x84, CHR 0xE3,
     CHR 0x81, CHR 0xBE, CHR 0xE3, CHR 0x81, CHR 0x99, CHR 0xE3, CHR 0x80, CHR 0x82] @
     ''</p><button id=\"login\">Creo ID '' @ [CHR 0xE3, CHR 0x81, CHR 0xA7, CHR 0xE3, CHR 0x83, CHR 0xAD,
     CHR 0xE3, CHR 0x82, CHR 0xB0, CHR 0xE3, CHR 0x82, CHR 0xA4, CHR 0xE3, CHR 0x83, CHR 0xB3] @
     ''</button>''"

definition signed_in_tab :: "browser \<Rightarrow> bool" where
  "signed_in_tab s \<longleftrightarrow> br_store s AT \<noteq> None \<and> br_store s AT \<noteq> Some []"

text \<open>The reading part of \<open>render\<close>: what is inside its \<open>try\<close>.\<close>

definition load :: "page_env \<Rightarrow> string option \<Rightarrow> unit js" where
  "load E msg = thn (api E GET ''/v1/me'' None) (\<lambda>self. thn (load_names E) (\<lambda>_. view E self msg))"

section \<open>Errors that sign out\<close>

text \<open>\<open>signs_out m\<close>: when \<open>m\<close> throws \<open>Unauthorized\<close>, the tokens are gone.\<close>

definition signed_out :: "browser \<Rightarrow> bool" where
  "signed_out s \<longleftrightarrow> br_store s AT = None \<and> br_store s IDT = None"

definition signs_out :: "'a js \<Rightarrow> bool" where
  "signs_out m \<longleftrightarrow> (\<forall>s t s'. m s = (Inl (Expired t), s') \<longrightarrow> signed_out s')"

named_theorems signs \<open>steps of the script whose Unauthorized leaves no token\<close>

lemma signs_simple [signs]:
  "signs_out (give a)" "signs_out (throw (Thrown m r u))" "signs_out (change f)" "signs_out (fetch E q)"
  "signs_out (throw (type_error E))" "signs_out (rand E)" "signs_out (member E v k)" "signs_out (view E self msg)"
  by (auto simp: signs_out_def give_def throw_def change_def fetch_def type_error_def rand_def member_def view_def Let_def
      split: option.splits if_splits)

lemma signs_thn [signs]: "signs_out m \<Longrightarrow> (\<And>a. signs_out (f a)) \<Longrightarrow> signs_out (thn m f)"
  unfolding signs_out_def thn_def by (auto split: prod.splits sum.splits)

lemma signs_catching [signs]:
  assumes "signs_out m" and "\<And>t r u. signs_out (h (Thrown t r u))" and "\<And>t. h (Expired t) = throw (Expired t)"
  shows "signs_out (catching m h)"
  unfolding signs_out_def
proof (intro allI impI)
  fix s t s'
  assume c: "catching m h s = (Inl (Expired t), s')"
  then obtain e s1 where m: "m s = (Inl e, s1)" "h e s1 = (Inl (Expired t), s')"
    by (auto simp: catching_def split: prod.splits sum.splits)
  show "signed_out s'"
  proof (cases e)
    case (Expired t')
    then have "s' = s1" using m(2) by (simp add: assms(3) throw_def)
    then show ?thesis using assms(1) m(1) Expired by (auto simp: signs_out_def)
  next
    case (Thrown t' r u)
    then show ?thesis using assms(2) m(2) by (auto simp: signs_out_def)
  qed
qed

lemma forget_signed_out: "signed_out (forget s)"
  by (simp add: signed_out_def forget_def remove_item_def)

lemma signs_answered [signs]: "signs_out (answered E a)"
  unfolding signs_out_def
  by (auto simp: answered_def throw_def thn_def change_def give_def member_def type_error_def forget_signed_out Let_def
      split: answer.splits if_splits)

lemma signs_api [signs]: "signs_out (api E m p b)"
  using signs_thn [OF signs_simple(4) signs_answered] by (simp add: signs_out_def api_def)

text \<open>Once the tokens are gone, the answers of the calls that are still out change nothing of that.\<close>

lemma answered_keeps_out: "signed_out s \<Longrightarrow> signed_out (snd (answered E a s))"
  by (auto simp: answered_def throw_def thn_def change_def give_def member_def forget_signed_out Let_def
      split: answer.split)

lemma settled_out: "signed_out s \<Longrightarrow> signed_out (snd (thn (answered E a) (\<lambda>v. member E v k) s))"
  using answered_keeps_out [of s E a] by (auto simp: thn_def member_def throw_def give_def split: prod.splits sum.splits)

lemma signs_settled: "signs_out (thn (answered E a) (\<lambda>v. member E' v k))"
  by (intro signs)

lemma settle_all_result:
  "\<exists>rs s'. settle_all E as s = (Inr rs, s') \<and> length rs = length as \<and> (signed_out s \<longrightarrow> signed_out s') \<and>
     ((\<exists>t. Inl (Expired t) \<in> set rs) \<longrightarrow> (\<exists>t. Inl (Expired t) \<in> set as) \<or> signed_out s')"
proof (induction as arbitrary: s)
  case (Cons a as)
  obtain r s1 where r: "(case a of Inl e \<Rightarrow> (Inl e, s)
      | Inr a \<Rightarrow> thn (answered E a) (\<lambda>v. member E v ''publications'') s) = (r, s1)" by fastforce
  have "signed_out s \<longrightarrow> signed_out s1"
    using r settled_out [of s E _ "''publications''"] by (cases a) (auto, metis snd_conv)
  moreover have "r = Inl (Expired t) \<longrightarrow> a = Inl (Expired t) \<or> signed_out s1" for t
    using r signs_settled [of E _ E "''publications''"] by (cases a) (auto simp: signs_out_def)
  moreover obtain rs s2 where "settle_all E as s1 = (Inr rs, s2)" "length rs = length as" "signed_out s1 \<longrightarrow> signed_out s2"
    "(\<exists>t. Inl (Expired t) \<in> set rs) \<longrightarrow> (\<exists>t. Inl (Expired t) \<in> set as) \<or> signed_out s2"
    using Cons.IH [of s1] by blast
  ultimately show ?case using r by (auto simp: Let_def thn_def give_def)
qed (simp add: give_def)

lemma call_all_result: "\<exists>as s'. call_all E ns s = (Inr as, s') \<and> length as = length ns \<and> (\<forall>t. Inl (Expired t) \<notin> set as)"
proof (induction ns arbitrary: s)
  case (Cons n ns)
  show ?case
  proof (cases "n = JNull")
    case True
    then show ?thesis using Cons.IH [of s] by (auto simp: thn_def give_def type_error_def)
  next
    case False
    obtain a s1 where "fetch E (Call GET (publications_path E n) (bearer s) None) s = (Inr a, s1)" by (auto simp: fetch_def)
    then show ?thesis using False Cons.IH [of s1] by (auto simp: thn_def give_def)
  qed
qed (simp add: give_def)

lemma first_error_in: "first_error E rs = Some e \<Longrightarrow> Inl e \<in> set rs"
proof -
  have "set (List.map_filter (\<lambda>r. case r of Inl e \<Rightarrow> Some e | Inr _ \<Rightarrow> None) rs) = {e. Inl e \<in> set rs}"
    by (induction rs) (auto simp: List.map_filter_simps split: sum.splits)
  moreover assume "first_error E rs = Some e"
  then have "e \<in> set (List.map_filter (\<lambda>r. case r of Inl e \<Rightarrow> Some e | Inr _ \<Rightarrow> None) rs)"
    by (auto simp: first_error_def split: list.splits if_splits)
  ultimately show ?thesis by simp
qed

lemma signs_publications [signs]: "signs_out (publications_of_all E ns)"
  unfolding signs_out_def
proof (intro allI impI)
  fix s t s'
  assume t: "publications_of_all E ns s = (Inl (Expired t), s')"
  obtain as s1 where as: "call_all E ns s = (Inr as, s1)" "\<forall>t. Inl (Expired t) \<notin> set as" using call_all_result [of E ns s] by blast
  obtain rs s2 where rs: "settle_all E as s1 = (Inr rs, s2)" "(\<exists>t. Inl (Expired t) \<in> set rs) \<longrightarrow> signed_out s2"
    using settle_all_result [of E as s1] as(2) by blast
  have "first_error E rs = Some (Expired t)" "s' = s2"
    using t as rs by (auto simp: publications_of_all_def thn_def throw_def give_def split: option.splits)
  then show "signed_out s'" using rs(2) first_error_in by blast
qed

lemma signs_load_names [signs]: "signs_out (load_names E)"
  unfolding load_names_def by (intro signs) (auto intro: signs split: option.split json.split)

lemma signs_load: "signs_out (load E msg)"
  unfolding load_def by (intro signs)

lemma signs_received [signs]: "signs_out (received E a)"
  unfolding received_def by (auto intro!: signs split: answer.split sum.split)

section \<open>Rendering and events\<close>

text \<open>
  \<open>render\<close>: the form to sign in without a token; otherwise the account is read and shown. After an
  expired token it starts over, without one.
\<close>

function render :: "page_env \<Rightarrow> string option \<Rightarrow> browser \<Rightarrow> browser" where
  "render E msg s =
     (if \<not> signed_in_tab s then s\<lparr>br_html := login_html msg, br_screen := Login_form\<rparr>
      else case load E msg s of
        (Inr _, s') \<Rightarrow> s'
      | (Inl (Expired m), s') \<Rightarrow> render E (Some m) s'
      | (Inl (Thrown m _ _), s') \<Rightarrow> s'\<lparr>br_html := ''<p class=\"msg\">'' @ esc_text m @ ''</p>'', br_screen := No_form\<rparr>)"
  by pat_completeness auto
termination
proof (relation "measure (\<lambda>(E, msg, s). if signed_in_tab s then 1 else 0)")
  fix E :: page_env and msg s r s' e m
  assume "\<not> \<not> signed_in_tab s" and "(r, s') = load E msg s" and "r = Inl e" and "e = Expired m"
  then have "load E msg s = (Inl (Expired m), s')" by simp
  then have "signed_out s'" using signs_load [of E msg] unfolding signs_out_def by blast
  then show "((E, Some m, s'), E, msg, s) \<in> measure (\<lambda>(E, msg, s). if signed_in_tab s then 1 else 0)"
    using \<open>\<not> \<not> signed_in_tab s\<close> by (simp add: signed_in_tab_def signed_out_def)
qed simp

declare render.simps [simp del]

definition LOGGED_OUT :: string where "LOGGED_OUT = [CHR 0xE3, CHR 0x83, CHR 0xAD, CHR 0xE3, CHR 0x82, CHR 0xB0, CHR 0xE3, CHR 0x82, CHR 0xA2, CHR 0xE3,
     CHR 0x82, CHR 0xA6, CHR 0xE3, CHR 0x83, CHR 0x88, CHR 0xE3, CHR 0x81, CHR 0x97, CHR 0xE3, CHR 0x81,
     CHR 0xBE, CHR 0xE3, CHR 0x81, CHR 0x97, CHR 0xE3, CHR 0x81, CHR 0x9F]"
definition NAME_SAVED :: string where "NAME_SAVED = [CHR 0xE5, CHR 0x91, CHR 0xBC, CHR 0xE3, CHR 0x81, CHR 0xB3, CHR 0xE5, CHR 0x90, CHR 0x8D, CHR 0xE3,
     CHR 0x82, CHR 0x92, CHR 0xE4, CHR 0xBF, CHR 0x9D, CHR 0xE5, CHR 0xAD, CHR 0x98, CHR 0xE3, CHR 0x81,
     CHR 0x97, CHR 0xE3, CHR 0x81, CHR 0xBE, CHR 0xE3, CHR 0x81, CHR 0x97, CHR 0xE3, CHR 0x81, CHR 0x9F]"

definition fail :: "page_env \<Rightarrow> json \<Rightarrow> js_error \<Rightarrow> browser \<Rightarrow> browser" where
  "fail E self e s = (case e of Expired m \<Rightarrow> render E (Some m) s | Thrown m _ _ \<Rightarrow> snd (view E self (Some m) s))"

definition claim_message :: "page_env \<Rightarrow> json \<Rightarrow> string \<Rightarrow> string" where
  "claim_message E self h =
     (if truthy E (get self ''handle'')
      then ''@'' @ h @ '' '' @ [CHR 0xE3, CHR 0x81, CHR 0xAB, CHR 0xE5, CHR 0xA4, CHR 0x89, CHR 0xE3, CHR 0x81, CHR 0x88,
     CHR 0xE3, CHR 0x81, CHR 0xBE, CHR 0xE3, CHR 0x81, CHR 0x97, CHR 0xE3, CHR 0x81, CHR 0x9F, CHR 0xE3,
     CHR 0x80, CHR 0x82] @ ''@'' @ string_of E (get self ''handle'') @ '' '' @ [CHR 0xE3, CHR 0x81, CHR 0xAF] @ '' 100 '' @ [CHR 0xE6, CHR 0x97, CHR 0xA5, CHR 0xE9,
     CHR 0x96, CHR 0x93, CHR 0xE5, CHR 0x8F, CHR 0x96, CHR 0xE3, CHR 0x82, CHR 0x8A, CHR 0xE7, CHR 0xBD,
     CHR 0xAE, CHR 0xE3, CHR 0x81, CHR 0x8D, CHR 0xE3, CHR 0x81, CHR 0x97, CHR 0xE3, CHR 0x81, CHR 0xBE,
     CHR 0xE3, CHR 0x81, CHR 0x99]
      else ''@'' @ h @ '' '' @ [CHR 0xE3, CHR 0x82, CHR 0x92] @ '' claim '' @ [CHR 0xE3, CHR 0x81, CHR 0x97, CHR 0xE3,
     CHR 0x81, CHR 0xBE, CHR 0xE3, CHR 0x81, CHR 0x97, CHR 0xE3, CHR 0x81, CHR 0x9F])"

definition claim_error :: "page_env \<Rightarrow> string \<Rightarrow> json option \<Rightarrow> json option \<Rightarrow> string" where
  "claim_error E m reason until =
     (if reason = Some (JStr ''cooldown'') then [CHR 0xE6, CHR 0xAC, CHR 0xA1, CHR 0xE3, CHR 0x81, CHR 0xAB, CHR 0xE5, CHR 0xA4, CHR 0x89, CHR 0xE3,
     CHR 0x81, CHR 0x88, CHR 0xE3, CHR 0x82, CHR 0x89, CHR 0xE3, CHR 0x82, CHR 0x8C, CHR 0xE3, CHR 0x82,
     CHR 0x8B, CHR 0xE3, CHR 0x81, CHR 0xAE, CHR 0xE3, CHR 0x81, CHR 0xAF] @ '' '' @ pe_day_text E (pe_date E until) @ '' '' @ [CHR 0xE3, CHR 0x81, CHR 0x8B, CHR 0xE3, CHR 0x82, CHR 0x89, CHR 0xE3, CHR 0x81, CHR 0xA7,
     CHR 0xE3, CHR 0x81, CHR 0x99] else m)"

text \<open>The form sends only what its pattern allows, and nothing while it is disabled.\<close>

definition pattern_ok :: "string \<Rightarrow> bool" where
  "pattern_ok t \<longleftrightarrow>
     (let alnum = (\<lambda>c. is_ascii_lowercase c \<or> is_ascii_uppercase c \<or> is_ascii_digit c)
      in case t of [] \<Rightarrow> False | c # cs \<Rightarrow> alnum c \<and> list_all (\<lambda>d. alnum d \<or> d = CHR ''-'') cs \<and> length cs \<le> 30)"

definition form_disabled :: "page_env \<Rightarrow> json \<Rightarrow> bool" where
  "form_disabled E self \<longleftrightarrow> truthy E (get self ''handle'') \<and> cooling E self"

definition submit_handle :: "page_env \<Rightarrow> string \<Rightarrow> browser \<Rightarrow> browser" where
  "submit_handle E input s =
     (case br_screen s of
        Settings_form self \<Rightarrow>
          if \<not> pattern_ok input \<or> form_disabled E self then s
          else (let h = to_ascii_lowercase (trim input)
                in case thn (api E PUT ''/v1/me/handle'' (Some (JObj [(''handle'', JStr h)]))) (\<lambda>m.
                     thn (load_names E) (\<lambda>_. view E m (Some (claim_message E self h)))) s of
                  (Inr _, s') \<Rightarrow> s'
                | (Inl (Expired m), s') \<Rightarrow> fail E self (Expired m) s'
                | (Inl (Thrown m reason until), s') \<Rightarrow> snd (view E self (Some (claim_error E m reason until)) s'))
      | _ \<Rightarrow> s)"

definition submit_name :: "page_env \<Rightarrow> string \<Rightarrow> browser \<Rightarrow> browser" where
  "submit_name E input s =
     (case br_screen s of
        Settings_form self \<Rightarrow>
          (case thn (api E PATCH ''/v1/me'' (Some (JObj [(''displayName'',
               if js_blank (map code_of input) then JNull else JStr input)]))) (\<lambda>m. view E m (Some NAME_SAVED)) s of
             (Inr _, s') \<Rightarrow> s'
           | (Inl e, s') \<Rightarrow> fail E self e s')
      | _ \<Rightarrow> s)"

definition click_logout :: "page_env \<Rightarrow> browser \<Rightarrow> browser" where
  "click_logout E s = (case br_screen s of Settings_form _ \<Rightarrow> render E (Some LOGGED_OUT) (forget s) | _ \<Rightarrow> s)"

definition click_login :: "page_env \<Rightarrow> browser \<Rightarrow> browser" where
  "click_login E s = (case br_screen s of Login_form \<Rightarrow> snd (login E s) | _ \<Rightarrow> s)"

definition clear_search :: "browser \<Rightarrow> browser" where
  "clear_search s = s\<lparr>br_search := []\<rparr>"

text \<open>What the page does when it is opened. A repeated parameter counts with its first value.\<close>

definition open_page :: "page_env \<Rightarrow> browser \<Rightarrow> browser" where
  "open_page E s =
     (let q = map_of (br_search s)
      in case q ''code'' of
        Some code \<Rightarrow>
          (case exchange E code (q ''state'') s of
             (Inr _, s') \<Rightarrow> render E None (clear_search s')
           | (Inl (Expired m), s') \<Rightarrow> render E (Some m) (clear_search s')
           | (Inl (Thrown m _ _), s') \<Rightarrow> render E (Some m) (clear_search s'))
      | None \<Rightarrow>
          (case q ''error'' of
             Some e \<Rightarrow>
               render E (Some (case q ''error_description'' of Some t \<Rightarrow> if t = [] then e else t | None \<Rightarrow> e))
                 (clear_search s)
           | None \<Rightarrow> render E None s))"

end
