(* ===== verification/Settings_Safety.thy ===== *)
theory Settings_Safety
  imports Settings_Script
begin

text \<open>
  What the script of the settings page keeps: which requests it makes and with what, when it exchanges a
  code for a token, what it does when a token has expired, that no text from outside becomes
  markup, and that its forms and the hub's endpoints agree.
\<close>

section \<open>Requests\<close>

text \<open>The reads that the page makes; the requests that it makes for an event.\<close>

definition name_path :: "string \<Rightarrow> bool" where
  "name_path p \<longleftrightarrow> (\<exists>c. p = ''/v1/users/@'' @ c @ ''/publications'' \<and> list_all (\<lambda>x. uri_plain x \<or> x = CHR ''%'') c)"

definition account_read :: "sent \<Rightarrow> bool" where
  "account_read q \<longleftrightarrow> (case q of
     Call m p b body \<Rightarrow> m = GET \<and> body = None \<and> (p \<in> {''/v1/me'', ''/v1/me/publishers''} \<or> name_path p)
   | _ \<Rightarrow> False)"

definition handle_write :: "sent \<Rightarrow> bool" where
  "handle_write q \<longleftrightarrow> (\<exists>b h. q = Call PUT ''/v1/me/handle'' b (Some (JObj [(''handle'', JStr h)])) \<and> canonical_handle h = Some h)"

definition name_write :: "sent \<Rightarrow> bool" where
  "name_write q \<longleftrightarrow> (\<exists>b n. q = Call PATCH ''/v1/me'' b (Some (JObj [(''displayName'', n)])) \<and> (n = JNull \<or> (\<exists>t. n = JStr t)))"

definition sign_in_request :: "page_env \<Rightarrow> sent \<Rightarrow> bool" where
  "sign_in_request E q \<longleftrightarrow> (\<exists>state challenge. q = Authorize [(''response_type'', ''code''), (''client_id'', se_client_id (pe_config E)),
     (''redirect_uri'', redirect_uri E), (''scope'', ''openid profile email''), (''audience'', se_audience (pe_config E)),
     (''state'', state), (''code_challenge'', challenge), (''code_challenge_method'', ''S256'')])"

definition exchange_request :: "page_env \<Rightarrow> browser \<Rightarrow> sent \<Rightarrow> bool" where
  "exchange_request E s q \<longleftrightarrow> (\<exists>code verifier x. map_of (br_search s) ''code'' = Some code \<and>
     br_store s PKCE_V = Some verifier \<and> verifier \<noteq> [] \<and> br_store s PKCE_S = Some x \<and> x \<noteq> [] \<and>
     map_of (br_search s) ''state'' = Some x \<and>
     q = Token_request [(''grant_type'', ''authorization_code''), (''client_id'', se_client_id (pe_config E)),
       (''code'', code), (''code_verifier'', verifier), (''redirect_uri'', redirect_uri E)])"

lemma encoded_plain: "list_all (\<lambda>x. uri_plain x \<or> x = CHR ''%'') (encode_uri_component t)"
proof -
  have hex: "uri_plain (hex_upper n)" if "n < 16" for n
  proof -
    have "n \<in> {0..15}" using that by auto
    then show ?thesis by (auto simp: hex_upper_def uri_plain_def text_defs)
  qed
  have "code_of c div 16 < 16" for c using code_of_bound [of c] by linarith
  then show ?thesis by (auto simp: encode_uri_component_def list_all_iff hex)
qed

lemma account_reads:
  "account_read (Call GET ''/v1/me'' b None)" "account_read (Call GET ''/v1/me/publishers'' b None)"
  "account_read (Call GET (publications_path E n) b None)"
  by (auto simp: account_read_def name_path_def publications_path_def encoded_plain)

section \<open>What all steps do to the tab\<close>

text \<open>
  A relation between the tab before and after that the steps of the script respect: it looks only at what is
  stored and sent, and allows a read of the account and the loss of the tokens. Then all that
  \<open>render\<close> does respects it.
\<close>

definition steps :: "(browser \<Rightarrow> browser \<Rightarrow> bool) \<Rightarrow> 'a js \<Rightarrow> bool" where
  "steps R m \<longleftrightarrow> (\<forall>s. R s (snd (m s)))"

lemma stepsD: "steps R m \<Longrightarrow> m s = (r, t) \<Longrightarrow> R s t"
  by (metis steps_def snd_conv)

locale tab_relation =
  fixes R :: "browser \<Rightarrow> browser \<Rightarrow> bool"
  assumes same: "br_store t = br_store s \<Longrightarrow> br_sent t = br_sent s \<Longrightarrow> R s t"
    and chain: "R s t \<Longrightarrow> R t u \<Longrightarrow> R s u"
    and reading: "account_read q \<Longrightarrow> R s (send q s)"
    and forgetting: "R s (forget s)"
begin

lemma simple: "steps R (give a)" "steps R (throw e)" "steps R (rand E)" "steps R (member E v k)" "steps R (view E self msg)"
  "steps R (change forget)"
  by (auto simp: steps_def give_def throw_def rand_def member_def view_def change_def forgetting Let_def intro: same split: option.split)

lemma changing: "(\<And>s. R s (f s)) \<Longrightarrow> steps R (change f)"
  by (simp add: steps_def change_def)

lemma fetching: "(\<And>s. R s (send q s)) \<Longrightarrow> steps R (fetch E q)"
  by (simp add: steps_def fetch_def)

lemma after: "steps R m \<Longrightarrow> (\<And>a. steps R (f a)) \<Longrightarrow> steps R (thn m f)"
  unfolding steps_def thn_def by (auto split: prod.split sum.split) (metis chain snd_conv)+

lemma catches: "steps R m \<Longrightarrow> (\<And>e. steps R (h e)) \<Longrightarrow> steps R (catching m h)"
  unfolding steps_def catching_def by (auto split: prod.split sum.split) (metis chain snd_conv)+

lemma answering: "steps R (answered E a)"
proof (cases a)
  case (Status_body n body)
  then show ?thesis
    by (cases body) (auto simp: answered_def Let_def intro!: after simple)
qed (auto simp: answered_def simple)

lemma calling: "(\<And>b s. R s (send (Call m p b body) s)) \<Longrightarrow> steps R (api E m p body)"
  using after [OF fetching answering] by (simp add: steps_def api_def)

lemma calling_all: "steps R (call_all E ns)"
proof (induction ns)
  case (Cons n ns)
  have "steps R (thn (fetch E (Call GET (publications_path E n) b None)) (\<lambda>a.
      thn (call_all E ns) (\<lambda>as. give (Inr a # as))))" for b
    by (intro after fetching simple Cons reading account_reads)
  moreover have "steps R (thn (call_all E ns) (\<lambda>as. give (Inl (type_error E) # as)))" by (intro after simple Cons)
  ultimately show ?case by (simp add: steps_def)
qed (simp add: simple)

lemma settling: "steps R (settle_all E as)"
proof (induction as)
  case (Cons a as)
  have rest: "steps R (thn (settle_all E as) (\<lambda>rs. give (r # rs)))" for r by (intro after simple Cons)
  have one: "steps R (thn (answered E b) (\<lambda>v. member E v ''publications''))" for b by (intro after answering simple)
  show ?case
    unfolding steps_def
  proof
    fix s
    obtain r t where r: "(case a of Inl e \<Rightarrow> (Inl e, s)
        | Inr a \<Rightarrow> thn (answered E a) (\<lambda>v. member E v ''publications'') s) = (r, t)" by fastforce
    have "R s t" using r stepsD [OF one] by (cases a) (auto intro: same)
    moreover have "R t (snd (settle_all E (a # as) s))" using rest [of r] r by (simp add: steps_def Let_def)
    ultimately show "R s (snd (settle_all E (a # as) s))" by (rule chain)
  qed
qed (simp add: simple)

lemma loading_names: "steps R (load_names E)"
proof -
  have "steps R (publications_of_all E ns)" for ns
    unfolding publications_of_all_def
    by (intro after calling_all settling) (auto intro: simple split: option.split)
  then have "steps R (thn (publications_of_all E ns) (\<lambda>names. change (\<lambda>s. s\<lparr>br_names := Some names\<rparr>)))" for ns
    by (intro after changing) (auto intro: same)
  moreover have "steps R (change (\<lambda>s. s\<lparr>br_names := None\<rparr>))" by (intro changing same) simp_all
  ultimately show ?thesis
    unfolding load_names_def
    by (intro catches after calling reading account_reads)
      (auto intro: simple split: option.split json.split js_error.split)
qed

lemma loading: "steps R (load E msg)"
  unfolding load_def by (intro after calling loading_names simple reading account_reads)

lemma rendering: "R s (render E msg s)"
proof (induction E msg s rule: render.induct)
  case (1 E msg s)
  show ?case
  proof (cases "signed_in_tab s")
    case True
    obtain r t where l: "load E msg s = (r, t)" by fastforce
    have t: "R s t" by (rule stepsD [OF loading l])
    show ?thesis
    proof (cases r)
      case (Inl e)
      show ?thesis
      proof (cases e)
        case (Expired m)
        have "R t (render E (Some m) t)" using 1 [OF _ l [symmetric] Inl Expired] True by simp
        then show ?thesis using chain [OF t] True l Inl Expired by (simp add: render.simps [of E msg s])
      next
        case (Thrown m u v)
        have "R t (render E msg s)" using True l Inl Thrown by (intro same) (simp_all add: render.simps [of E msg s])
        with t show ?thesis by (rule chain)
      qed
    qed (use t True l in \<open>simp add: render.simps [of E msg s]\<close>)
  qed (auto simp: render.simps intro: same)
qed

lemma failing: "R s (fail E self e s)"
  using rendering simple(5) by (cases e) (auto simp: fail_def steps_def)

lemma submitting:
  assumes "\<And>b t. pattern_ok input \<Longrightarrow>
    R t (send (Call PUT ''/v1/me/handle'' b (Some (JObj [(''handle'', JStr (to_ascii_lowercase (trim input)))]))) t)"
  shows "R s (submit_handle E input s)"
proof (cases "\<exists>self. br_screen s = Settings_form self \<and> pattern_ok input \<and> \<not> form_disabled E self")
  case True
  then obtain self where self: "br_screen s = Settings_form self" "pattern_ok input" "\<not> form_disabled E self" by blast
  let ?h = "to_ascii_lowercase (trim input)"
  let ?m = "thn (api E PUT ''/v1/me/handle'' (Some (JObj [(''handle'', JStr ?h)]))) (\<lambda>m.
    thn (load_names E) (\<lambda>_. view E m (Some (claim_message E self ?h))))"
  have m: "steps R ?m" by (intro after calling loading_names simple assms self(2))
  obtain r t where r: "?m s = (r, t)" by fastforce
  have t: "R s t" by (rule stepsD [OF m r])
  have "R t (submit_handle E input s)"
    using self r failing simple(5) same [of t t]
    by (auto simp: submit_handle_def Let_def steps_def split: sum.split js_error.split)
  with t show ?thesis by (rule chain)
qed (auto simp: submit_handle_def intro: same split: screen.split)

lemma naming:
  assumes "\<And>b v t. v = JNull \<or> (\<exists>n. v = JStr n) \<Longrightarrow> R t (send (Call PATCH ''/v1/me'' b (Some (JObj [(''displayName'', v)]))) t)"
  shows "R s (submit_name E input s)"
proof (cases "br_screen s")
  case (Settings_form self)
  let ?m = "thn (api E PATCH ''/v1/me'' (Some (JObj [(''displayName'', if js_blank (map code_of input) then JNull else JStr input)])))
    (\<lambda>m. view E m (Some NAME_SAVED))"
  have m: "steps R ?m" by (intro after calling simple assms) simp
  obtain r t where r: "?m s = (r, t)" by fastforce
  have t: "R s t" by (rule stepsD [OF m r])
  have "R t (submit_name E input s)"
    using Settings_form r failing same [of t t] by (auto simp: submit_name_def split: sum.split)
  with t show ?thesis by (rule chain)
qed (auto simp: submit_name_def intro: same)

lemma logging_out: "R s (click_logout E s)"
  using chain [OF forgetting rendering] by (auto simp: click_logout_def intro: same split: screen.split)

end

text \<open>Two such relations: only reads and requests of a kind are sent; the storage changes only by losing the tokens.\<close>

definition sent_only :: "(sent \<Rightarrow> bool) \<Rightarrow> browser \<Rightarrow> browser \<Rightarrow> bool" where
  "sent_only P s t \<longleftrightarrow> (\<exists>qs. br_sent t = br_sent s @ qs \<and> list_all (\<lambda>q. account_read q \<or> P q) qs)"

definition store_kept :: "browser \<Rightarrow> browser \<Rightarrow> bool" where
  "store_kept s t \<longleftrightarrow> br_store t = br_store s \<or> br_store t = (br_store s)(AT := None, IDT := None)"

lemma sent_only_simps [simp]: "sent_only P s (send q s) \<longleftrightarrow> account_read q \<or> P q" "sent_only P s s"
  by (auto simp: sent_only_def send_def)

interpretation requests: tab_relation "sent_only P" for P
proof
  show "sent_only P s u" if "sent_only P s t" "sent_only P t u" for s t u
    using that by (auto simp: sent_only_def)
qed (auto simp: sent_only_def send_def forget_def remove_item_def)

interpretation storage: tab_relation store_kept
  by unfold_locales (auto simp: store_kept_def send_def forget_def remove_item_def fun_upd_twist)

lemma lower_ident:
  "ident_start (ascii_lower c) \<longleftrightarrow> is_ascii_lowercase c \<or> is_ascii_uppercase c \<or> is_ascii_digit c"
  "ident_char (ascii_lower c) \<longleftrightarrow> is_ascii_lowercase c \<or> is_ascii_uppercase c \<or> is_ascii_digit c \<or> c = CHR ''-''"
proof -
  have lower: "is_ascii_lowercase (ascii_lower c) \<and> ascii_lower c \<noteq> CHR ''-''" if "is_ascii_uppercase c"
  proof -
    have "is_ascii_lowercase (ascii_lower c)" using that by (simp add: text_defs)
    then show ?thesis by (auto simp: text_defs)
  qed
  moreover have "ascii_lower c = c" if "\<not> is_ascii_uppercase c" using that by (simp add: ascii_lower_def)
  ultimately show "ident_start (ascii_lower c) \<longleftrightarrow> is_ascii_lowercase c \<or> is_ascii_uppercase c \<or> is_ascii_digit c"
    "ident_char (ascii_lower c) \<longleftrightarrow> is_ascii_lowercase c \<or> is_ascii_uppercase c \<or> is_ascii_digit c \<or> c = CHR ''-''"
    unfolding ident_start_def ident_char_def by (cases "is_ascii_uppercase c"; simp)+
qed

lemma pattern_word: "pattern_ok t \<longleftrightarrow> ident_word (to_ascii_lowercase t) \<and> length t \<le> 31"
  by (cases t) (auto simp: pattern_ok_def ident_word_def to_ascii_lowercase_def list_all_iff lower_ident)

lemma pattern_solid: "pattern_ok t \<Longrightarrow> list_all solid t"
proof -
  have "solid c" if "is_ascii_lowercase c \<or> is_ascii_uppercase c \<or> is_ascii_digit c \<or> c = CHR ''-''" for c
    using that by (elim disjE) (simp_all add: solid_def text_defs)
  then show "pattern_ok t \<Longrightarrow> list_all solid t"
    by (auto simp: pattern_ok_def Let_def list_all_iff split: list.splits)
qed

lemma pattern_canonical: "pattern_ok t \<longleftrightarrow> canonical_handle t = Some (to_ascii_lowercase t)"
proof
  assume p: "pattern_ok t"
  have "trim t = t" using pattern_solid [OF p] by (cases "t = []") (auto intro!: trim_solid simp: list_all_iff)
  then show "canonical_handle t = Some (to_ascii_lowercase t)" using p by (simp add: canonical_handle_alt Let_def pattern_word)
next
  assume "canonical_handle t = Some (to_ascii_lowercase t)"
  from canonical_handle_ident [OF this] show "pattern_ok t" by (simp add: pattern_word)
qed

lemma pattern_trim: "pattern_ok t \<Longrightarrow> to_ascii_lowercase (trim t) = to_ascii_lowercase t"
  by (auto simp: pattern_canonical canonical_handle_alt Let_def split: if_splits)

text \<open>A sign-in is pending when the tab holds what the return has to match.\<close>

definition login_pending :: "browser \<Rightarrow> string option \<Rightarrow> bool" where
  "login_pending s state \<longleftrightarrow> (case (br_store s PKCE_V, br_store s PKCE_S) of
     (Some v, Some x) \<Rightarrow> v \<noteq> [] \<and> x \<noteq> [] \<and> state = Some x | _ \<Rightarrow> False)"

abbreviation used_up :: "browser \<Rightarrow> browser" where
  "used_up s \<equiv> remove_item PKCE_S (remove_item PKCE_V s)"

lemma exchange_result:
  "exchange E code state s =
     (if login_pending s state then
        if pe_issuer_is_url E
        then thn (fetch E (Token_request [(''grant_type'', ''authorization_code''),
          (''client_id'', se_client_id (pe_config E)), (''code'', code), (''code_verifier'', the (br_store s PKCE_V)),
          (''redirect_uri'', redirect_uri E)])) (received E) (used_up s)
        else (Inl (type_error E), used_up s)
      else (Inl (Thrown MISMATCH None None), used_up s))"
  by (auto simp: exchange_def login_pending_def thn_def change_def throw_def Let_def split: option.split)

text \<open>The requests of each event.\<close>

lemma received_result:
  "br_sent (snd (received E a s)) = br_sent s" "br_store (snd (received E a s)) PKCE_V = br_store s PKCE_V"
  "br_store (snd (received E a s)) PKCE_S = br_store s PKCE_S" "received E a s = (Inl e, t) \<Longrightarrow> br_store t = br_store s"
  by (auto simp: received_def thn_def change_def throw_def give_def member_def set_item_def
      split: answer.splits sum.splits if_splits)

lemma received_sends: "sent_only P s (snd (received E a s))"
  by (simp add: sent_only_def received_result)

lemma open_page_sends: "sent_only (exchange_request E s) s (open_page E s)"
proof (cases "map_of (br_search s) ''code''")
  case None
  have "sent_only P s (clear_search s)" for P by (simp add: sent_only_def clear_search_def)
  then show ?thesis
    using None requests.rendering requests.chain [OF _ requests.rendering]
    by (auto simp: open_page_def Let_def split: option.split)
next
  case (Some code)
  let ?P = "exchange_request E s"
  obtain r t where r: "exchange E code (map_of (br_search s) ''state'') s = (r, t)" by fastforce
  have used: "sent_only ?P s (used_up s)" by (simp add: sent_only_def remove_item_def)
  have "sent_only ?P s t"
  proof (cases "login_pending s (map_of (br_search s) ''state'') \<and> pe_issuer_is_url E")
    case True
    let ?q = "Token_request [(''grant_type'', ''authorization_code''), (''client_id'', se_client_id (pe_config E)),
      (''code'', code), (''code_verifier'', the (br_store s PKCE_V)), (''redirect_uri'', redirect_uri E)]"
    have "?P ?q" using True Some by (auto simp: exchange_request_def login_pending_def split: option.splits)
    then have "sent_only ?P (used_up s) (send ?q (used_up s))" by simp
    moreover have "t = snd (received E (pe_answer E (length (br_sent s)) ?q) (send ?q (used_up s)))"
      using r True by (auto simp: exchange_result thn_def fetch_def remove_item_def dest: arg_cong [of _ _ snd])
    ultimately show ?thesis using requests.chain [OF used requests.chain [OF _ received_sends]] by simp
  qed (use r used in \<open>auto simp: exchange_result split: if_splits\<close>)
  moreover have "sent_only ?P t (render E msg (clear_search t))" for msg
    by (rule requests.chain [OF _ requests.rendering]) (simp add: sent_only_def clear_search_def)
  ultimately show ?thesis
    using Some r by (auto simp: open_page_def intro: requests.chain split: sum.split js_error.split)
qed

lemma login_sends: "\<exists>qs. br_sent (click_login E s) = br_sent s @ qs \<and> list_all (sign_in_request E) qs"
  by (auto simp: click_login_def login_def thn_def rand_def change_def throw_def set_item_def send_def sign_in_request_def
      split: screen.split)

lemma handle_sends: "sent_only handle_write s (submit_handle E input s)"
proof (rule requests.submitting)
  fix b t
  assume p: "pattern_ok input"
  have "canonical_handle (to_ascii_lowercase input) = Some (to_ascii_lowercase input)"
    using canonical_handle_ident [of input "to_ascii_lowercase input"] p by (simp add: pattern_canonical canonical_handle_fixed)
  then show "sent_only handle_write t (send (Call PUT ''/v1/me/handle'' b
      (Some (JObj [(''handle'', JStr (to_ascii_lowercase (trim input)))]))) t)"
    by (simp add: handle_write_def pattern_trim [OF p])
qed

lemma name_sends: "sent_only name_write s (submit_name E input s)"
  by (rule requests.naming) (auto simp: name_write_def)

section \<open>Signing in and out\<close>

lemma clear_search_simps [simp]:
  "br_store (clear_search s) = br_store s" "br_sent (clear_search s) = br_sent s"
  by (simp_all add: clear_search_def)

lemma exchange_store:
  assumes "exchange E code state s = (r, t)"
  shows "br_store t PKCE_V = None" "br_store t PKCE_S = None"
    and "\<not> login_pending s state \<Longrightarrow> t = used_up s \<and> r = Inl (Thrown MISMATCH None None)"
proof -
  have used: "br_store (used_up s) PKCE_V = None" "br_store (used_up s) PKCE_S = None" by (simp_all add: remove_item_def)
  have t: "t = snd (exchange E code state s)" using assms by simp
  show "br_store t PKCE_V = None" "br_store t PKCE_S = None"
    using used unfolding t exchange_result by (simp_all add: thn_def fetch_def received_result send_def)
  show "\<not> login_pending s state \<Longrightarrow> t = used_up s \<and> r = Inl (Thrown MISMATCH None None)"
    using assms by (simp add: exchange_result)
qed

lemma open_page_return:
  assumes "map_of (br_search s) ''code'' = Some code"
    and "exchange E code (map_of (br_search s) ''state'') s = (r, t)"
  shows "open_page E s = render E (case r of Inr _ \<Rightarrow> None | Inl (Expired m) \<Rightarrow> Some m | Inl (Thrown m _ _) \<Rightarrow> Some m) (clear_search t)"
  using assms by (simp add: open_page_def split: sum.split js_error.split)

lemma store_kept_simps:
  assumes "store_kept s t"
  shows "br_store t PKCE_V = br_store s PKCE_V" "br_store t PKCE_S = br_store s PKCE_S"
    "br_store t AT = br_store s AT \<or> br_store t AT = None"
  using assms by (auto simp: store_kept_def)

text \<open>A call that is answered with 401 loses the tokens and throws.\<close>

lemma api_401:
  assumes "pe_answer E (length (br_sent s)) (Call m p (bearer s) body) = Status_body 401 b"
  shows "api E m p body s = (Inl (Expired EXPIRED), forget (send (Call m p (bearer s) body) s))"
  using assms by (simp add: api_def thn_def fetch_def answered_def change_def throw_def)

definition shows_login :: "string \<Rightarrow> browser \<Rightarrow> browser" where
  "shows_login msg s = s\<lparr>br_html := login_html (Some msg), br_screen := Login_form\<rparr>"

lemma render_signed_out: "signed_out s \<Longrightarrow> render E (Some msg) s = shows_login msg s"
  by (simp add: render.simps signed_in_tab_def signed_out_def shows_login_def)

section \<open>Markup\<close>

lemma tags_esc: "tags (esc E v) = []" "tags (esc_text t) = []"
  by (simp_all add: esc_def esc_text_def tags_escape tags_Nil)

lemmas page_markup = tags_append tags_esc tags_Nil append_Nil append_Nil2 if_distrib [of tags] option.case prod.case

lemma tags_name_item: "tags (name_item E n) = tags (name_item E' n')"
proof -
  have "tags ([CHR 0xE5, CHR 0x9B, CHR 0xA3, CHR 0xE4, CHR 0xBD, CHR 0x93, CHR 0xE3, CHR 0x83, CHR 0xBB]) = []"
    "tags ([CHR 0xE3, CHR 0x81, CHR 0x82, CHR 0xE3, CHR 0x81, CHR 0xAA, CHR 0xE3, CHR 0x81, CHR 0x9F]) = []"
    by (simp_all add: tags_def)
  then show ?thesis by (simp only: name_item_def page_markup if_cancel)
qed

lemma tags_publication_entry: "tags (publication_entry E n p) = tags (publication_entry E' n' p')"
  by (simp only: publication_entry_def page_markup)

lemma tags_concat_same:
  "length xs = length ys \<Longrightarrow> (\<And>x y. tags (f x) = tags (g y)) \<Longrightarrow> tags (concat (map f xs)) = tags (concat (map g ys))"
  by (rule tags_concat) (simp add: list_all2_conv_all_nth)

lemma tags_of_entries:
  "entries_of E ns = Some es \<Longrightarrow> \<forall>e \<in> set es. tags e = tags (publication_entry E' n p)"
  by (induction E ns arbitrary: es rule: entries_of.induct)
    (auto intro: tags_publication_entry split: option.splits json.splits if_splits)

lemma tags_entries:
  assumes "entries_of E ns = Some es" and "entries_of E' ns' = Some es'" and "length es = length es'"
  shows "tags (concat es) = tags (concat es')"
proof -
  let ?t = "tags (publication_entry E JNull JNull)"
  have "\<forall>e \<in> set es. tags e = ?t" "\<forall>e \<in> set es'. tags e = ?t"
    by (rule tags_of_entries [OF assms(1)], rule tags_of_entries [OF assms(2)])
  then have "list_all2 (\<lambda>a b. tags (id a) = tags (id b)) es es'" using assms(3) by (simp add: list_all2_conv_all_nth)
  from tags_concat [OF this] show ?thesis by simp
qed

text \<open>What the markup of a part depends on.\<close>

definition names_shape :: "page_env \<Rightarrow> (json \<times> json option) list option \<Rightarrow> (nat \<times> nat) option" where
  "names_shape E names = (case names of None \<Rightarrow> None
     | Some ns \<Rightarrow> Some (length ns, case entries_of E ns of Some es \<Rightarrow> length es | None \<Rightarrow> 0))"

definition view_shape :: "page_env \<Rightarrow> json \<Rightarrow> json \<Rightarrow> string option \<Rightarrow> bool list" where
  "view_shape E i self msg = [msg = None \<or> msg = Some [], truthy E (or_else_js E (get i ''name'') (get i ''nickname'')),
     get i ''email_verified'' = Some (JBool False), truthy E (get self ''handle''), cooling E self,
     truthy E (get self ''reservedHandle'')]"

lemma tags_names_view:
  assumes "names_view E ns = Some h" and "names_view E' ns' = Some h'" and "names_shape E ns = names_shape E' ns'"
  shows "tags h = tags h'"
proof (cases ns)
  case None
  then show ?thesis using assms by (cases ns') (auto simp: names_view_def names_shape_def)
next
  case (Some ms)
  then obtain ms' where ms': "ns' = Some ms'" using assms(3) by (cases ns') (auto simp: names_shape_def)
  obtain es es' where es: "entries_of E ms = Some es" "entries_of E' ms' = Some es'"
    and h: "h = names_section E ms es" "h' = names_section E' ms' es'"
    using assms(1,2) Some ms' by (auto simp: names_view_def)
  have len: "length ms = length ms'" "length es = length es'" using assms(3) Some ms' es by (simp_all add: names_shape_def)
  have empty: "ms = [] \<longleftrightarrow> ms' = []" "es = [] \<longleftrightarrow> es' = []" using len by auto
  have parts: "tags (concat (map (name_item E \<circ> fst) ms)) = tags (concat (map (name_item E' \<circ> fst) ms'))"
    "tags (concat es) = tags (concat es')"
    using len tags_entries [OF es] by (auto intro!: tags_concat_same simp del: tags_Nil) (metis comp_apply tags_name_item)
  show ?thesis unfolding h by (simp only: names_section_def page_markup empty parts)
qed

lemma tags_message: "(msg = None \<or> msg = Some []) = (msg' = None \<or> msg' = Some []) \<Longrightarrow> tags (message_part msg) = tags (message_part msg')"
  by (cases msg; cases msg') (auto simp only: message_part_def page_markup option.inject option.distinct if_True if_False split: if_split)

lemma tags_reserved:
  assumes "truthy E (get v ''reservedHandle'') = truthy E' (get v' ''reservedHandle'')"
  shows "tags (reserved_note E v) = tags (reserved_note E' v')"
proof -
  have none: "\<not> truthy E None" for E by (simp add: truthy_def)
  show ?thesis
    using assms none
    by (cases "get v ''reservedHandle''"; cases "get v' ''reservedHandle''")
      (simp_all only: reserved_note_def page_markup if_True if_False simp_thms)
qed

lemma tags_handle_section:
  assumes "truthy E (get v ''handle'') = truthy E' (get v' ''handle'')" and "cooling E v = cooling E' v'"
    and "truthy E (get v ''reservedHandle'') = truthy E' (get v' ''reservedHandle'')"
  shows "tags (handle_section E v) = tags (handle_section E' v')"
  by (simp only: handle_section_def page_markup assms tags_reserved [OF assms(3)])

lemma tags_view:
  assumes "view_shape E i v msg = view_shape E' i' v' msg'" and "tags h = tags h'"
  shows "tags (view_html E i v h msg) = tags (view_html E' i' v' h' msg')"
proof -
  note shape = assms(1) [unfolded view_shape_def list.inject]
  have message: "tags (message_part msg) = tags (message_part msg')" using shape by (intro tags_message) blast
  have handle: "tags (handle_section E v) = tags (handle_section E' v')" using shape by (intro tags_handle_section) blast+
  have conds: "truthy E (or_else_js E (get i ''name'') (get i ''nickname'')) = truthy E' (or_else_js E' (get i' ''name'') (get i' ''nickname''))"
    "(get i ''email_verified'' = Some (JBool False)) = (get i' ''email_verified'' = Some (JBool False))"
    using shape by blast+
  show ?thesis by (simp only: view_html_def page_markup message handle assms(2) conds if_cancel)
qed

section \<open>The forms and the hub\<close>

text \<open>An answer of the hub as the script sees it; the request that the script makes as the hub sees it.\<close>

definition answer_of :: "response \<Rightarrow> answer" where
  "answer_of r = Status_body (rs_status r) (case rs_body r of JsonBody v \<Rightarrow> Inr v | _ \<Rightarrow> Inl [])"

lemma keeps_anything: "keeps (\<lambda>_. True) m"
  by (simp add: keeps_def)

definition refused_claim :: "response \<Rightarrow> bool" where
  "refused_claim resp \<longleftrightarrow> resp = conflict ''handle is taken or reserved'' \<or>
     (\<exists>until. resp = json_response 409 [(''error'', JStr ''handle was changed less than 30 days ago''),
        (''reason'', JStr ''cooldown''), (''until'', JStr until)])"

lemma returns_last:
  fixes f :: "'a \<Rightarrow> 'b hub"
  shows "(\<And>a. returns (\<lambda>_. True) (f a) Q) \<Longrightarrow> returns (\<lambda>_. True) (bnd m f) Q"
  by (rule returns_bnd [OF returns_True keeps_anything])

text \<open>Every 409 of the endpoint is one of its two refusals.\<close>

lemma claim_refusals:
  "returns (\<lambda>_. True) (claim_handle_endpoint st rq) (\<lambda>r. rs_status r = 409 \<longrightarrow> refused_claim r)"
proof -
  let ?Q = "\<lambda>r. rs_status r = 409 \<longrightarrow> refused_claim r"
  have me: "returns (\<lambda>_. True) (me_response st status u) ?Q" if "status \<noteq> 409" for status u
    unfolding me_response_def by (intro returns_last returns_ret) (simp add: that)
  have renamed: "returns (\<lambda>_. True) (rename_response st outcome) ?Q" for outcome
    by (cases outcome) (simp_all add: rename_response_def me, auto intro!: returns_ret simp: refused_claim_def)
  have taken: "returns (\<lambda>_. True) (ret (conflict ''handle is taken or reserved'')) ?Q"
    by (intro returns_ret) (simp add: refused_claim_def)
  have other: "returns (\<lambda>_. True) (ret (error_response 400 t)) ?Q" for t by (intro returns_ret) simp
  have who: "returns (\<lambda>_. True) (bnd (require_user st rq) (\<lambda>r. case r of Inl resp \<Rightarrow> ret resp | Inr a \<Rightarrow> f a)) ?Q"
    if "\<And>a. returns (\<lambda>_. True) (f a) ?Q" for f
    unfolding require_user_def bnd_assoc
    by (rule returns_last) (auto intro!: returns_ret that simp del: ret_apply split: sum.split principal.split)
  show ?thesis
    unfolding claim_handle_endpoint_def with_user_def or_return_def
    by (intro who) (auto intro!: returns_last me renamed taken other split: option.split)
qed

section \<open>Properties\<close>






text \<open>
  The form of the handle and the hub agree: the form takes a text exactly when the hub's rule takes it with only
  its case changed; and when the hub refuses such a handle, because it is taken or because the last change is
  too recent, the page stays signed in with its form and says so, with the date.
\<close>

theorem refused_handle_is_shown:
  assumes "claim_handle_endpoint st rq w = (Inr resp, w')" and "rs_status resp = 409"
    and "br_screen s = Settings_form self" and "pattern_ok input" and "\<not> form_disabled E self"
    and "q = Call PUT ''/v1/me/handle'' (bearer s) (Some (JObj [(''handle'', JStr (to_ascii_lowercase input))]))"
    and "pe_answer E (length (br_sent s)) q = answer_of resp"
    and "names_view E (br_names s) = Some names" and "self \<noteq> JNull"
    and "id_claims E (case br_store s IDT of Some t \<Rightarrow> t | None \<Rightarrow> []) = i" and "i \<noteq> JNull"
  shows "canonical_handle input = Some (to_ascii_lowercase input) \<and>
    (\<exists>msg. submit_handle E input s = (send q s)\<lparr>br_html := view_html E i self names (Some msg)\<rparr> \<and>
      (msg = ''handle is taken or reserved'' \<or> (\<exists>until. msg = claim_error E ''handle was changed less than 30 days ago''
        (Some (JStr ''cooldown'')) (Some (JStr until)))))"
proof
  show "canonical_handle input = Some (to_ascii_lowercase input)" using assms(4) by (simp add: pattern_canonical)
  have refused: "refused_claim resp" using returnsD [OF claim_refusals stable_True assms(1)] assms(2) by blast
  obtain msg reason until where a: "answered E (answer_of resp) = throw (Thrown msg reason until)"
    and msg: "claim_error E msg reason until = ''handle is taken or reserved'' \<or> (\<exists>t. claim_error E msg reason until =
      claim_error E ''handle was changed less than 30 days ago'' (Some (JStr ''cooldown'')) (Some (JStr t)))"
  proof (cases "resp = conflict ''handle is taken or reserved''")
    case True
    have "answered E (answer_of resp) = throw (Thrown ''handle is taken or reserved'' None None)"
      unfolding True
      by (simp add: answered_def answer_of_def conflict_def Let_def ok_status_def member_def thn_def give_def truthy_def string_of_def
          obj_get.simps fun_eq_iff)
    then show thesis by (rule that) (simp add: claim_error_def)
  next
    case False
    then obtain t where t: "resp = json_response 409 [(''error'', JStr ''handle was changed less than 30 days ago''),
        (''reason'', JStr ''cooldown''), (''until'', JStr t)]"
      using refused by (auto simp: refused_claim_def)
    have "answered E (answer_of resp) = throw (Thrown ''handle was changed less than 30 days ago'' (Some (JStr ''cooldown'')) (Some (JStr t)))"
      unfolding t
      by (simp add: answered_def answer_of_def Let_def ok_status_def member_def thn_def give_def truthy_def string_of_def
          obj_get.simps fun_eq_iff)
    then show thesis by (rule that) blast
  qed
  have api: "api E PUT ''/v1/me/handle'' (Some (JObj [(''handle'', JStr (to_ascii_lowercase input))])) s =
      (Inl (Thrown msg reason until), send q s)"
    using assms(6,7) a by (simp add: api_def thn_def fetch_def throw_def)
  have shown: "snd (view E self m (send q s)) = (send q s)\<lparr>br_html := view_html E i self names m, br_screen := Settings_form self\<rparr>" for m
    using assms(8-11) by (simp add: view_def Let_def send_def)
  have "submit_handle E input s = (send q s)\<lparr>br_html := view_html E i self names (Some (claim_error E msg reason until)),
      br_screen := Settings_form self\<rparr>"
    using assms(3-5) shown by (simp add: submit_handle_def Let_def pattern_trim thn_def api)
  moreover have "br_screen (send q s) = Settings_form self" using assms(3) by (simp add: send_def)
  ultimately have "submit_handle E input s = (send q s)\<lparr>br_html := view_html E i self names (Some (claim_error E msg reason until))\<rparr>"
    by (metis (no_types, lifting) browser.surjective browser.update_convs(3,4) browser.select_convs(4))
  with msg show "\<exists>m. submit_handle E input s = (send q s)\<lparr>br_html := view_html E i self names (Some m)\<rparr> \<and>
      (m = ''handle is taken or reserved'' \<or> (\<exists>until. m = claim_error E ''handle was changed less than 30 days ago''
        (Some (JStr ''cooldown'')) (Some (JStr until))))" by blast
qed

section \<open>Concrete instances\<close>

text \<open>A tab in which everything is answered with 401, and one in which everything is refused with 409.\<close>

definition a_page :: page_env where
  "a_page = \<lparr>pe_config = \<lparr>se_client_id = ''client'', se_public_url = ''https://hub'', se_audience = ''aud''\<rparr>,
     pe_issuer = ''https://id/'', pe_origin = ''https://hub'', pe_ext = an_ext\<lparr>x_base64 := (\<lambda>b. CHR ''A'' # b)\<rparr>,
     pe_random = (\<lambda>i. CHR ''r''), pe_answer = (\<lambda>i q. Status_body 401 (Inl [])), pe_first = hd, pe_now = 0,
     pe_date = (\<lambda>_. None), pe_day_text = (\<lambda>_. ''day''), pe_number = id, pe_inherited = (\<lambda>_. None),
     pe_decode = (\<lambda>_. None), pe_issuer_is_url = True, pe_type_error = ''type error''\<rparr>"

definition a_tab :: browser where
  "a_tab = \<lparr>br_store = [AT \<mapsto> ''tok''], br_search = [], br_html = [], br_screen = Login_form, br_names = None,
     br_sent = [], br_drawn = 0\<rparr>"


lemma a_page_encodes: "b64url a_page bytes \<noteq> []"
  by (simp add: b64url_def a_page_def trim_end_char_def dropWhile_append)



definition an_account :: "string \<Rightarrow> json" where
  "an_account name = JObj [(''handle'', JStr ''cid''), (''displayName'', JStr name)]"


theorem refused_handle_witness:
  "\<exists>resp w' msg. claim_handle_endpoint a_state (a_request ''sub_c'' ''ann'') (a_world roster_db) = (Inr resp, w') \<and>
     br_html (submit_handle (a_page\<lparr>pe_answer := (\<lambda>i q. answer_of resp)\<rparr>) ''Ann'' (a_tab\<lparr>br_screen := Settings_form (JObj [])\<rparr>)) =
       view_html (a_page\<lparr>pe_answer := (\<lambda>i q. answer_of resp)\<rparr>) (JObj []) (JObj []) [] (Some msg)"
proof -
  have "claim_outcome (st_ext a_state) ''usr_c'' cid ''ann'' 0 roster_db = (409, roster_db)"
    by (simp add: claim_outcome_def claim_spec_def handle_available_def reserved_for_other_def find_user_def
        tab_where_def roster_db_def empty_db_def tab_get_def row_simps)
  moreover have "find_user (\<lambda>r. ur_creo_sub r = Some ''sub_c'') roster_db = Some cid"
    by (simp add: find_user_def tab_where_def roster_db_def row_simps)
  moreover have "signed_in a_state (a_request ''sub_c'' ''ann'') = Some ''sub_c''"
    by (simp add: signed_in_def a_state_def a_request_def user_principal_def strip_prefix_def)
  moreover have "Option.bind (x_parse_json (st_ext a_state) (rq_body (a_request ''sub_c'' ''ann''))) decode_claim = Some (Some ''ann'')"
    by (simp add: a_state_def a_request_def decode_claim_def decode_struct_def dec_opt_string_def)
  moreover have "ur_usr_id cid = Some ''usr_c''" by (simp add: cid_def fresh_user_def)
  ultimately obtain resp w' where r: "claim_handle_endpoint a_state (a_request ''sub_c'' ''ann'') (a_world roster_db) = (Inr resp, w')"
      "rs_status resp = 409"
    using claim_endpoint_alone [of "a_world roster_db" a_state "a_request ''sub_c'' ''ann''" "''sub_c''" "''ann''" "''ann''" cid "''usr_c''"]
    by (auto simp: roster_db_inv canonical_examples)
  let ?E = "a_page\<lparr>pe_answer := (\<lambda>i q. answer_of resp)\<rparr>" and ?s = "a_tab\<lparr>br_screen := Settings_form (JObj [])\<rparr>"
  have p: "pattern_ok ''Ann''" "\<not> form_disabled ?E (JObj [])" "names_view ?E (br_names ?s) = Some []"
    "id_claims ?E [] = JObj []" "br_store ?s IDT = None"
    by (simp_all add: pattern_ok_def text_defs form_disabled_def truthy_def obj_get.simps names_view_def a_tab_def id_claims_def)
  show ?thesis
    using refused_handle_is_shown [OF r, of ?s "JObj []" "''Ann''" ?E "Call PUT ''/v1/me/handle'' (bearer ?s)
        (Some (JObj [(''handle'', JStr (to_ascii_lowercase ''Ann''))]))" "[]" "JObj []"] p r(1)
    by fastforce
qed

end
