(* ===== verification/Unison.thy ===== *)
theory Unison
  imports Resource_Store Auth
begin

text \<open>
  The Unison surface (\<open>crates/chronista-hub-server/src/unison_server.rs\<close>): the \<open>nodes\<close> channel
  with its two gates, the transient relay registry, the \<open>relay\<close> channel, and the channels of all
  connections as a step relation in which their requests, replies and closings interleave. The
  transport (QUIC, the channel and auth mechanism) is the unison library's: it delivers frames,
  accepts or refuses to send them, and closes.
\<close>

section \<open>Connections\<close>

text \<open>\<open>String::from_utf8\<close>: the well-formed byte sequences of the Unicode standard.\<close>

fun utf8_codes :: "nat list \<Rightarrow> bool" where
  "utf8_codes [] = True"
| "utf8_codes (a # cs) =
     (if a < 0x80 then utf8_codes cs
      else case cs of
        b # cs1 \<Rightarrow>
          if 0xC2 \<le> a \<and> a \<le> 0xDF then 0x80 \<le> b \<and> b \<le> 0xBF \<and> utf8_codes cs1
          else (case cs1 of
            c # cs2 \<Rightarrow>
              if 0xE0 \<le> a \<and> a \<le> 0xEF
              then (if a = 0xE0 then 0xA0 else 0x80) \<le> b \<and> b \<le> (if a = 0xED then 0x9F else 0xBF) \<and>
                   0x80 \<le> c \<and> c \<le> 0xBF \<and> utf8_codes cs2
              else (case cs2 of
                e # cs3 \<Rightarrow> 0xF0 \<le> a \<and> a \<le> 0xF4 \<and>
                   (if a = 0xF0 then 0x90 else 0x80) \<le> b \<and> b \<le> (if a = 0xF4 then 0x8F else 0xBF) \<and>
                   0x80 \<le> c \<and> c \<le> 0xBF \<and> 0x80 \<le> e \<and> e \<le> 0xBF \<and> utf8_codes cs3
              | [] \<Rightarrow> False)
          | [] \<Rightarrow> False)
      | [] \<Rightarrow> False)"

definition from_utf8 :: "string \<Rightarrow> string option" where
  "from_utf8 bytes = (if utf8_codes (map code_of bytes) then Some bytes else None)"

text \<open>
  What the library keeps as the principal of a connection: the one that the hub's policy gave,
  or a value of another type.
\<close>

datatype conn_principal = HubPrincipal principal | OtherPrincipal

definition connection_auth :: "verifier \<Rightarrow> string \<Rightarrow> conn_principal option" where
  "connection_auth ver cred =
     Option.bind (from_utf8 cred) (\<lambda>jwt. map_option HubPrincipal (verify_user_token ver jwt))"

definition principal_usr_id :: "conn_principal option \<Rightarrow> string option" where
  "principal_usr_id p = (case p of Some (HubPrincipal (User user_id _ _)) \<Rightarrow> Some user_id | _ \<Rightarrow> None)"

definition quoted :: "string \<Rightarrow> string" where
  "quoted s = CHR 0x27 # s @ [CHR 0x27]"

definition authorize_federation :: "conn_principal option \<Rightarrow> string \<Rightarrow> bool \<Rightarrow> error + unit" where
  "authorize_federation p required_scope auth_required =
     (case p of
        Some (HubPrincipal (User _ _ _)) \<Rightarrow> Inr ()
      | Some (HubPrincipal (App _ scopes)) \<Rightarrow>
          if required_scope \<in> set scopes then Inr ()
          else Inl (anyhow (''insufficient scope: '' @ quoted required_scope @ '' required''))
      | Some OtherPrincipal \<Rightarrow> Inl (anyhow ''unrecognized principal'')
      | None \<Rightarrow>
          if auth_required then Inl (anyhow (''authentication required (scope '' @ quoted required_scope @ '')''))
          else Inr ())"

section \<open>The nodes channel\<close>

definition parse_visibility :: "json \<Rightarrow> string option \<Rightarrow> error + visibility" where
  "parse_visibility payload owner =
     (case get_str payload ''visibility'' of
        Some v \<Rightarrow>
          if v = ''public'' then Inr Public
          else if v = ''private'' then Inr Private
          else if v = ''shared''
          then Inl (anyhow (''visibility '' @ quoted ''shared'' @ '' is not yet supported (audience/group model pending)''))
          else Inl (anyhow (''unknown visibility '' @ quoted v @ '' (expected '' @ quoted ''public'' @ '' or '' @ quoted ''private'' @ '')''))
      | None \<Rightarrow> if owner \<noteq> None then Inr Private else Inr Public)"

definition opt_default :: "'a \<Rightarrow> 'a option \<Rightarrow> 'a" where
  "opt_default a x = (case x of Some b \<Rightarrow> b | None \<Rightarrow> a)"

definition register_method :: "ext \<Rightarrow> conn_principal option \<Rightarrow> bool \<Rightarrow> json \<Rightarrow> json hub" where
  "register_method x p auth_required payload =
     bnd (check (authorize_federation p ''federation.register'' auth_required)) (\<lambda>_.
     case get_str payload ''handle'' of
       None \<Rightarrow> raise (anyhow (''field '' @ quoted ''handle'' @ '' required''))
     | Some handle \<Rightarrow>
         (let name = opt_default handle (get_str payload ''name'');
              node_id = get_str payload ''node_id'';
              endpoints = opt_default [] (map_option strings_of (Option.bind (get payload ''endpoints'') as_array));
              owner = principal_usr_id p
          in bnd (check (parse_visibility payload owner)) (\<lambda>vis.
             bnd (register_node x node_id handle name endpoints owner vis) (\<lambda>at.
             ret (JObj [(''node_id'', json_opt node_id), (''handle'', JStr handle), (''registered_at'', JStr at),
               (''endpoints'', json_strings endpoints), (''visibility'', JStr (visibility_str vis))])))))"

definition node_json :: "(string \<Rightarrow> bool) \<Rightarrow> resource \<Rightarrow> json" where
  "node_json live r =
     (let node_id = get_str (res_payload r) ''node_id''
      in JObj [(''node_id'', json_opt node_id), (''handle'', JStr (res_handle r)),
         (''name'', JStr (opt_default (res_handle r) (get_str (res_payload r) ''name''))),
         (''endpoints'', opt_default (JArr []) (get (res_payload r) ''endpoints'')),
         (''registered_at'', JStr (res_created_at r)), (''visibility'', JStr (visibility_str (res_visibility r))),
         (''connected'', JBool (case node_id of Some i \<Rightarrow> live i | None \<Rightarrow> False))])"

definition discover_method :: "conn_principal option \<Rightarrow> bool \<Rightarrow> (string \<Rightarrow> bool) \<Rightarrow> json hub" where
  "discover_method p auth_required live =
     bnd (check (authorize_federation p ''federation.read'' auth_required)) (\<lambda>_.
     bnd (list_nodes_visible_to (principal_usr_id p)) (\<lambda>nodes.
     ret (JObj [(''nodes'', JArr (map (node_json live) nodes))])))"

definition unregister_method :: "conn_principal option \<Rightarrow> bool \<Rightarrow> json \<Rightarrow> json hub" where
  "unregister_method p auth_required payload =
     bnd (check (authorize_federation p ''federation.register'' auth_required)) (\<lambda>_.
     (let node_id = get_str payload ''node_id''; handle = get_str payload ''handle''
      in if node_id = None \<and> handle = None
         then raise (anyhow (''field '' @ quoted ''node_id'' @ '' or '' @ quoted ''handle'' @ '' required''))
         else bnd (unregister_node node_id handle (principal_usr_id p)) (\<lambda>removed.
           ret (JObj [(''node_id'', json_opt node_id), (''handle'', json_opt handle), (''removed'', JInt (int removed))]))))"

definition handle_nodes ::
  "ext \<Rightarrow> conn_principal option \<Rightarrow> bool \<Rightarrow> string \<Rightarrow> json \<Rightarrow> (string \<Rightarrow> bool) \<Rightarrow> json hub" where
  "handle_nodes x p auth_required call payload live =
     (if call = ''Register'' then register_method x p auth_required payload
      else if call = ''Discover'' then discover_method p auth_required live
      else if call = ''Unregister'' then unregister_method p auth_required payload
      else raise (anyhow (''unknown method '' @ quoted call @ '' on channel '' @ quoted ''nodes'')))"

text \<open>The reply to a request: an error becomes a reply, and wakes the watchdog when it has to.\<close>

definition nodes_reply ::
  "ext \<Rightarrow> conn_principal option \<Rightarrow> bool \<Rightarrow> string \<Rightarrow> json \<Rightarrow> (string \<Rightarrow> bool) \<Rightarrow> json hub" where
  "nodes_reply x p auth_required call payload live =
     bnd (attempt (handle_nodes x p auth_required call payload live)) (\<lambda>r.
     case r of
       Inr reply \<Rightarrow> ret reply
     | Inl e \<Rightarrow>
         if is_unavailable e
         then bnd kick (\<lambda>_. ret (JObj [(''error'', JStr ''database unavailable'')]))
         else ret (JObj [(''error'', JStr (error_text e))]))"

section \<open>The relay registry\<close>

text \<open>From node id to the connection that serves it, and the nodes that a channel registered.\<close>

type_synonym relay_registry = "string \<rightharpoonup> nat"

definition sync_relay_registry ::
  "nat \<Rightarrow> string \<Rightarrow> json \<Rightarrow> relay_registry \<Rightarrow> string list \<Rightarrow> relay_registry \<times> string list" where
  "sync_relay_registry ctx call reply registry registered =
     (case get_str reply ''node_id'' of
        None \<Rightarrow> (registry, registered)
      | Some w \<Rightarrow>
          if call = ''Register''
          then (registry(w \<mapsto> ctx), if w \<in> set registered then registered else registered @ [w])
          else if call = ''Unregister''
          then (registry(w := None), filter (\<lambda>v. v \<noteq> w) registered)
          else (registry, registered))"

text \<open>The end of a channel: what it registered is removed.\<close>

definition drop_registered :: "string list \<Rightarrow> relay_registry \<Rightarrow> relay_registry" where
  "drop_registered registered registry = fold (\<lambda>w r. r(w := None)) registered registry"

lemma drop_registered: "drop_registered ws r n = (if n \<in> set ws then None else r n)"
  unfolding drop_registered_def by (induction ws arbitrary: r) auto

section \<open>The relay channel\<close>

datatype frame = Status string string | OpenFrom string | Payload json

text \<open>
  One relay: the first frame of the source (or none), whether the target's stream opens and the
  declaration is sent, and the further frames of the source with whether the target took each.
  The result is what the source and the target see, in order.
\<close>

fun forward :: "(json \<times> bool) list \<Rightarrow> frame list" where
  "forward [] = []"
| "forward ((m, sent) # ms) = (if sent then Payload m # forward ms else [])"

definition handle_relay ::
  "relay_registry \<Rightarrow> conn_principal option \<Rightarrow> bool \<Rightarrow> json option \<Rightarrow>
   (nat \<Rightarrow> string + bool) \<Rightarrow> (json \<times> bool) list \<Rightarrow> frame list \<times> (nat \<times> frame list) option" where
  "handle_relay registry p auth_required first open_stream frames =
     (if authorize_federation p ''federation.read'' auth_required \<noteq> Inr ()
      then ([Status ''error'' ''unauthorized''], None)
      else case first of
        None \<Rightarrow> ([], None)
      | Some pv \<Rightarrow>
          (let source = opt_default ''?'' (get_str pv ''from'')
           in case get_str pv ''to'' of
             None \<Rightarrow> ([Status ''error'' (''field '' @ quoted ''to'' @ '' required'')], None)
           | Some dest \<Rightarrow>
               (case registry dest of
                  None \<Rightarrow> ([Status ''offline'' dest], None)
                | Some ctx \<Rightarrow>
                    (case open_stream ctx of
                       Inl e \<Rightarrow> ([Status ''error'' (''open: '' @ e)], None)
                     | Inr declared \<Rightarrow>
                         if \<not> declared then ([Status ''error'' ''target unreachable''], None)
                         else ([Status ''established'' dest], Some (ctx, OpenFrom source # forward frames))))))"

section \<open>What the nodes channel keeps and shows\<close>

lemma keeps_handle_nodes:
  assumes "\<And>nid h nm eps v. keeps I (register_node x nid h nm eps (principal_usr_id p) v)"
    and "\<And>nid h. keeps I (unregister_node nid h (principal_usr_id p))"
  shows "keeps I (nodes_reply x p auth_required call payload live)"
  unfolding nodes_reply_def handle_nodes_def register_method_def discover_method_def unregister_method_def Let_def
  by (intro keeps assms)

lemma nodes_reply_total: "\<exists>reply w'. nodes_reply x p ar call payload live w = (Inr reply, w')"
  by (cases "handle_nodes x p ar call payload live w"; cases "fst (handle_nodes x p ar call payload live w)")
    (auto simp: nodes_reply_def bnd_steps)

text \<open>A principal that the gate of the channel lets through.\<close>

definition participates :: "conn_principal option \<Rightarrow> bool \<Rightarrow> string \<Rightarrow> bool" where
  "participates p auth_required scope \<longleftrightarrow>
     (case p of
        Some (HubPrincipal q) \<Rightarrow> is_user q \<or> scope \<in> set (principal_scopes q)
      | Some OtherPrincipal \<Rightarrow> False
      | None \<Rightarrow> \<not> auth_required)"

lemma authorize_iff: "authorize_federation p scope auth_required = Inr () \<longleftrightarrow> participates p auth_required scope"
  by (auto simp: authorize_federation_def participates_def split: option.split conn_principal.split principal.split)

definition method_scope :: "string \<Rightarrow> string" where
  "method_scope call = (if call = ''Discover'' then ''federation.read'' else ''federation.register'')"

lemma authorize_Inl:
  assumes "\<not> participates p auth_required scope"
  obtains e where "authorize_federation p scope auth_required = Inl e"
  using assms authorize_iff [of p scope auth_required] by (cases "authorize_federation p scope auth_required") auto

section \<open>Channels of all connections\<close>

text \<open>
  The state: the world, the principals of the connections, the open \<open>nodes\<close> channels and the
  relay registry. A channel handles one request after the other: between the reply of
  \<open>handle_nodes\<close> and the update of the relay registry, which is its own step, other channels run.
\<close>

record channel =
  ch_ctx :: nat
  ch_registered :: "string list"
  ch_pending :: "(string \<times> json) option"

record hub_net =
  hn_world :: world
  hn_principal :: "nat \<Rightarrow> conn_principal option"
  hn_channels :: "nat \<Rightarrow> channel option"
  hn_relay :: relay_registry

definition net_start :: "world \<Rightarrow> hub_net" where
  "net_start w = \<lparr>hn_world = w, hn_principal = (\<lambda>_. None), hn_channels = (\<lambda>_. None), hn_relay = (\<lambda>_. None)\<rparr>"

definition is_live :: "relay_registry \<Rightarrow> string \<Rightarrow> bool" where
  "is_live relay n \<longleftrightarrow> relay n \<noteq> None"

inductive channel_step :: "ext \<Rightarrow> verifier \<Rightarrow> bool \<Rightarrow> hub_net \<Rightarrow> hub_net \<Rightarrow> bool" for x ver ar where
  Open: "hn_channels s i = None \<Longrightarrow>
    channel_step x ver ar s (s\<lparr>hn_channels := (hn_channels s)(i \<mapsto> \<lparr>ch_ctx = c, ch_registered = [], ch_pending = None\<rparr>)\<rparr>)"
| Credential: "connection_auth ver cred = Some p \<Longrightarrow>
    channel_step x ver ar s (s\<lparr>hn_principal := (hn_principal s)(c \<mapsto> p)\<rparr>)"
| Request: "hn_channels s i = Some k \<Longrightarrow> ch_pending k = None \<Longrightarrow>
    nodes_reply x (hn_principal s (ch_ctx k)) ar call payload (is_live (hn_relay s)) (hn_world s) = (Inr reply, w') \<Longrightarrow>
    channel_step x ver ar s (s\<lparr>hn_world := w', hn_channels := (hn_channels s)(i \<mapsto> k\<lparr>ch_pending := Some (call, reply)\<rparr>)\<rparr>)"
| Sync: "hn_channels s i = Some k \<Longrightarrow> ch_pending k = Some (call, reply) \<Longrightarrow>
    sync_relay_registry (ch_ctx k) call reply (hn_relay s) (ch_registered k) = (relay', registered') \<Longrightarrow>
    channel_step x ver ar s (s\<lparr>hn_relay := relay',
      hn_channels := (hn_channels s)(i \<mapsto> k\<lparr>ch_registered := registered', ch_pending := None\<rparr>)\<rparr>)"
| Close: "hn_channels s i = Some k \<Longrightarrow> ch_pending k = None \<Longrightarrow>
    channel_step x ver ar s (s\<lparr>hn_relay := drop_registered (ch_registered k) (hn_relay s),
      hn_channels := (hn_channels s)(i := None)\<rparr>)"

text \<open>The rest of the program acts on the same world in between.\<close>

inductive net_step :: "ext \<Rightarrow> verifier \<Rightarrow> bool \<Rightarrow> hub_net \<Rightarrow> hub_net \<Rightarrow> bool" for x ver ar where
  Channel: "channel_step x ver ar s s' \<Longrightarrow> net_step x ver ar s s'"
| Elsewhere: "net_step x ver ar s (s\<lparr>hn_world := w'\<rparr>)"

inductive_cases net_stepE: "net_step x ver ar s s'"

lemmas net_steps = channel_step.intros [THEN net_step.Channel]

abbreviation net_run :: "ext \<Rightarrow> verifier \<Rightarrow> bool \<Rightarrow> hub_net \<Rightarrow> hub_net \<Rightarrow> bool" where
  "net_run x ver ar \<equiv> (net_step x ver ar)\<^sup>*\<^sup>*"

text \<open>Every relay entry belongs to an open channel of that connection that registered the node.\<close>

definition relay_backed :: "hub_net \<Rightarrow> bool" where
  "relay_backed s \<longleftrightarrow> (\<forall>n c. hn_relay s n = Some c \<longrightarrow>
     (\<exists>i k. hn_channels s i = Some k \<and> ch_ctx k = c \<and> n \<in> set (ch_registered k)))"

lemma relay_backedD:
  assumes "relay_backed s" and "hn_relay s n = Some c"
  obtains i k where "hn_channels s i = Some k" "ch_ctx k = c" "n \<in> set (ch_registered k)"
  using assms unfolding relay_backed_def by blast

text \<open>A channel that changes into one that registered at least the remaining nodes of the relay.\<close>

lemma relay_backed_update:
  assumes "relay_backed s" and "hn_channels s i = Some k" and "ch_ctx k' = ch_ctx k"
    and "\<And>n. relay' n = Some (ch_ctx k) \<Longrightarrow> n \<in> set (ch_registered k) \<Longrightarrow> n \<in> set (ch_registered k')"
    and "\<And>n c. relay' n = Some c \<Longrightarrow> hn_relay s n = Some c \<or> c = ch_ctx k \<and> n \<in> set (ch_registered k')"
  shows "relay_backed (s\<lparr>hn_world := w', hn_relay := relay', hn_channels := (hn_channels s)(i \<mapsto> k')\<rparr>)"
  unfolding relay_backed_def
proof (intro allI impI)
  fix n c
  assume "hn_relay (s\<lparr>hn_world := w', hn_relay := relay', hn_channels := (hn_channels s)(i \<mapsto> k')\<rparr>) n = Some c"
  then have r: "relay' n = Some c" by simp
  consider "hn_relay s n = Some c" | "c = ch_ctx k" "n \<in> set (ch_registered k')" using assms(5) [OF r] by blast
  then show "\<exists>j m. hn_channels (s\<lparr>hn_world := w', hn_relay := relay', hn_channels := (hn_channels s)(i \<mapsto> k')\<rparr>) j = Some m \<and>
      ch_ctx m = c \<and> n \<in> set (ch_registered m)"
  proof cases
    case 1
    obtain j m where j: "hn_channels s j = Some m" "ch_ctx m = c" "n \<in> set (ch_registered m)"
      by (rule relay_backedD [OF assms(1) 1])
    show ?thesis
    proof (cases "j = i")
      case True
      then show ?thesis using j assms(2,3,4) r by (intro exI [of _ i] exI [of _ k']) auto
    qed (use j in \<open>auto intro!: exI [of _ j]\<close>)
  qed (use assms(3) in \<open>auto intro!: exI [of _ i]\<close>)
qed

lemma sync_relay_registry_cases:
  assumes "sync_relay_registry ctx call reply relay reg = (relay', reg')"
  shows "relay' n = Some c \<Longrightarrow> relay n = Some c \<or> c = ctx \<and> n \<in> set reg'"
    and "relay' n = Some c \<Longrightarrow> n \<in> set reg \<Longrightarrow> n \<in> set reg'"
  using assms by (auto simp: sync_relay_registry_def split: option.splits if_splits)

lemma relay_backed_channel:
  assumes "channel_step x ver ar s s'" and "relay_backed s"
  shows "relay_backed s'"
  using assms
proof (cases rule: channel_step.cases)
  case (Open i c)
  show ?thesis
    unfolding relay_backed_def
  proof (intro allI impI)
    fix n c'
    assume "hn_relay s' n = Some c'"
    then have "hn_relay s n = Some c'" by (simp add: Open)
    then obtain j m where "hn_channels s j = Some m" "ch_ctx m = c'" "n \<in> set (ch_registered m)"
      by (rule relay_backedD [OF assms(2)])
    with Open(2) show "\<exists>j m. hn_channels s' j = Some m \<and> ch_ctx m = c' \<and> n \<in> set (ch_registered m)"
      by (intro exI [of _ j] exI [of _ m]) (auto simp: Open(1))
  qed
next
  case (Request i k call payload reply w')
  then show ?thesis
    using relay_backed_update [OF assms(2) Request(2), of "k\<lparr>ch_pending := Some (call, reply)\<rparr>" "hn_relay s" w'] by simp
next
  case (Sync i k call reply relay' registered')
  then show ?thesis
    using relay_backed_update [OF assms(2) Sync(2), of "k\<lparr>ch_registered := registered', ch_pending := None\<rparr>" relay' "hn_world s"]
      sync_relay_registry_cases [OF Sync(4)] by simp
next
  case (Close i k)
  show ?thesis
    unfolding relay_backed_def Close(1)
  proof (intro allI impI)
    fix n c
    assume "hn_relay (s\<lparr>hn_relay := drop_registered (ch_registered k) (hn_relay s), hn_channels := (hn_channels s)(i := None)\<rparr>) n = Some c"
    then have n: "n \<notin> set (ch_registered k)" "hn_relay s n = Some c" by (auto simp: drop_registered split: if_splits)
    obtain j m where "hn_channels s j = Some m" "ch_ctx m = c" "n \<in> set (ch_registered m)"
      by (rule relay_backedD [OF assms(2) n(2)])
    with n Close(2) show "\<exists>j m. hn_channels (s\<lparr>hn_relay := drop_registered (ch_registered k) (hn_relay s),
        hn_channels := (hn_channels s)(i := None)\<rparr>) j = Some m \<and> ch_ctx m = c \<and> n \<in> set (ch_registered m)"
      by (intro exI [of _ j] exI [of _ m]) auto
  qed
qed (auto simp: relay_backed_def)

lemma relay_backed_world [simp]: "relay_backed (s\<lparr>hn_world := w\<rparr>) = relay_backed s"
  by (simp add: relay_backed_def)

lemma relay_backed_step: "net_step x ver ar s s' \<Longrightarrow> relay_backed s \<Longrightarrow> relay_backed s'"
  by (erule net_stepE) (simp_all add: relay_backed_channel)

lemma relay_backed_run: "net_run x ver ar (net_start w) s \<Longrightarrow> relay_backed s"
proof (induction rule: rtranclp_induct)
  case base
  then show ?case by (simp add: net_start_def relay_backed_def)
qed (rule relay_backed_step)

section \<open>Properties\<close>

text \<open>
  C35: whatever a principal sends on the \<open>nodes\<close> channel, with whatever payload, gates and faults
  and under any interference that leaves the row alone, a node that another user owns is
  afterwards as it was.
\<close>

theorem nodes_channel_keeps_foreign_nodes:
  assumes "res_owner row = Some v" and "principal_usr_id p \<noteq> Some v"
  shows "keeps (\<lambda>d. tab_get (tb_resource d) rid = Some row) (nodes_reply x p auth_required call payload live)"
  by (intro keeps_handle_nodes foreign_registration_keeps [OF assms] foreign_unregistration_keeps [OF assms])

text \<open>
  discovery never shows a node to anyone who may not see it, under any interference and any
  faults: each entry of a successful reply is a node that is public or belongs to the asking
  user, and it is called connected only when the relay registry has it.
\<close>

theorem discovery_shows_only_visible:
  "returns (\<lambda>_. True) (handle_nodes x p auth_required ''Discover'' payload live)
     (\<lambda>reply. \<exists>rs. reply = JObj [(''nodes'', JArr (map (node_json live) rs))] \<and>
        list_all (\<lambda>r. res_type r = ''vp-node'' \<and>
          (res_visibility r = Public \<or> principal_usr_id p \<noteq> None \<and> res_owner r = principal_usr_id p)) rs)"
proof -
  let ?P = "\<lambda>r. res_type r = ''vp-node'' \<and> (res_visibility r = Public \<or> principal_usr_id p \<noteq> None \<and> res_owner r = principal_usr_id p)"
  have "returns (\<lambda>_. True) (list_nodes_visible_to (principal_usr_id p)) (list_all ?P)"
    unfolding list_nodes_visible_to_def
    by (rule returns_select) (auto simp: list_all_iff by_created_def set_tab_where node_visible_to_def split: option.splits)
  then have body: "returns (\<lambda>_. True) (bnd (list_nodes_visible_to (principal_usr_id p)) (\<lambda>nodes.
      ret (JObj [(''nodes'', JArr (map (node_json live) nodes))])))
      (\<lambda>reply. \<exists>rs. reply = JObj [(''nodes'', JArr (map (node_json live) rs))] \<and> list_all ?P rs)"
    by (rule returns_bnd) (auto intro!: returns_ret keeps simp del: ret_apply)
  have "handle_nodes x p auth_required ''Discover'' payload live = discover_method p auth_required live"
    by (simp add: handle_nodes_def)
  then show ?thesis
    unfolding discover_method_def by (simp only:) (rule returns_bnd [OF returns_True keeps_check body])
qed

lemma gate_messages:
  "\<not> is_unavailable (anyhow ''unrecognized principal'')"
  "\<not> is_unavailable (anyhow (''insufficient scope: '' @ quoted ''federation.read'' @ '' required''))"
  "\<not> is_unavailable (anyhow (''insufficient scope: '' @ quoted ''federation.register'' @ '' required''))"
  "\<not> is_unavailable (anyhow (''authentication required (scope '' @ quoted ''federation.read'' @ '')''))"
  "\<not> is_unavailable (anyhow (''authentication required (scope '' @ quoted ''federation.register'' @ '')''))"
  by code_simp+

lemma gate_error:
  assumes "authorize_federation p (method_scope call) auth_required = Inl e"
  shows "\<not> is_unavailable e"
  using assms gate_messages
  by (auto simp: authorize_federation_def method_scope_def split: option.splits conn_principal.splits principal.splits if_splits)

text \<open>
  The gate of the \<open>nodes\<close> channel: who is neither a user nor an application with the scope of
  the method, and where authentication is required also who has not authenticated, gets an
  error and changes nothing at all.
\<close>

lemma refused_reply:
  assumes "\<not> participates p auth_required (method_scope call)"
    and "call \<in> {''Register'', ''Discover'', ''Unregister''}"
  shows "\<exists>msg. nodes_reply x p auth_required call payload live w = (Inr (JObj [(''error'', JStr msg)]), w)"
proof -
  obtain e where e: "authorize_federation p (method_scope call) auth_required = Inl e"
    by (rule authorize_Inl [OF assms(1)])
  have "handle_nodes x p auth_required call payload live w = (Inl e, w)"
    using assms(2) e
    by (auto simp: handle_nodes_def register_method_def discover_method_def unregister_method_def method_scope_def)
  then show ?thesis
    using gate_error [OF e] by (simp add: nodes_reply_def bnd_steps)
qed

text \<open>
  an outage can be feigned: the text of an error decides whether the database counts as
  unreachable, and the name of an unknown method is part of that text, so a method called like
  one of the markers is answered as an outage and wakes the watchdog, with no query made.
\<close>

theorem method_name_feigns_outage:
  "nodes_reply x p auth_required ''Connection refused'' payload live w =
     (Inr (JObj [(''error'', JStr ''database unavailable'')]), w\<lparr>w_kicked := True\<rparr>)"
proof -
  have "is_unavailable (anyhow (''unknown method '' @ quoted ''Connection refused'' @ '' on channel '' @ quoted ''nodes''))"
    by code_simp
  moreover have "handle_nodes x p auth_required ''Connection refused'' payload live w =
      (Inl (anyhow (''unknown method '' @ quoted ''Connection refused'' @ '' on channel '' @ quoted ''nodes'')), w)"
    by (simp add: handle_nodes_def)
  ultimately show ?thesis by (simp add: nodes_reply_def bnd_steps)
qed

text \<open>
  C36: what is relayed reaches the right connection and only that: in every state that the channels
  of all connections can get into, a relay delivers only for a participant, only to the
  connection that the relay registry has for the addressed node, that connection has an open
  channel that registered the node, and what it receives is the declaration of the source and
  then the source's frames, in order and unchanged, up to some point.
\<close>

theorem relay_reaches_registered_channel:
  assumes "net_run x ver ar (net_start w) s"
    and "handle_relay (hn_relay s) p auth_required first open_stream frames = (out, Some (c, seen))"
  shows "participates p auth_required ''federation.read'' \<and>
    (\<exists>pv dest i k source n. first = Some pv \<and> get_str pv ''to'' = Some dest \<and> hn_relay s dest = Some c \<and>
       hn_channels s i = Some k \<and> ch_ctx k = c \<and> dest \<in> set (ch_registered k) \<and>
       seen = OpenFrom source # map Payload (take n (map fst frames)))"
proof -
  have fwd: "\<exists>n. forward frames = map Payload (take n (map fst frames))"
  proof (induction frames rule: forward.induct)
    case (2 m sent ms)
    then obtain n where "forward ms = map Payload (take n (map fst ms))" if sent by blast
    then show ?case by (intro exI [of _ "if sent then Suc n else 0"]) simp
  qed simp
  obtain pv dest source where r: "authorize_federation p ''federation.read'' auth_required = Inr ()" "first = Some pv"
    "get_str pv ''to'' = Some dest" "hn_relay s dest = Some c" "seen = OpenFrom source # forward frames"
    using assms(2) by (auto simp: handle_relay_def Let_def split: if_splits option.splits sum.splits)
  then show ?thesis
    using relay_backedD [OF relay_backed_run [OF assms(1)] r(4)] fwd by (auto simp: authorize_iff) blast
qed

section \<open>Runs that lose a relay entry\<close>

lemma request_sync_run:
  assumes "hn_channels s i = Some k" and "ch_pending k = None"
    and "nodes_reply x (hn_principal s (ch_ctx k)) ar call payload (is_live (hn_relay s)) (hn_world s) = (Inr reply, w')"
    and "sync_relay_registry (ch_ctx k) call reply (hn_relay s) (ch_registered k) = (relay', reg')"
  shows "net_run x ver ar s (s\<lparr>hn_world := w', hn_relay := relay', hn_channels := (hn_channels s)(i \<mapsto> k\<lparr>ch_registered := reg'\<rparr>)\<rparr>)"
proof -
  let ?s1 = "s\<lparr>hn_world := w', hn_channels := (hn_channels s)(i \<mapsto> k\<lparr>ch_pending := Some (call, reply)\<rparr>)\<rparr>"
  let ?k2 = "k\<lparr>ch_pending := Some (call, reply), ch_registered := reg', ch_pending := None\<rparr>"
  have 1: "net_step x ver ar s ?s1" by (rule net_steps(3) [OF assms(1,2,3)])
  have 2: "net_step x ver ar ?s1 (?s1\<lparr>hn_relay := relay', hn_channels := (hn_channels ?s1)(i \<mapsto> ?k2)\<rparr>)"
    using net_steps(4) [of ?s1 i "k\<lparr>ch_pending := Some (call, reply)\<rparr>" call reply relay' reg' x ver ar] assms(4) by simp
  have "?k2 = k\<lparr>ch_registered := reg'\<rparr>" using assms(2) by (cases k) simp
  moreover have "net_run x ver ar s (?s1\<lparr>hn_relay := relay', hn_channels := (hn_channels ?s1)(i \<mapsto> ?k2)\<rparr>)"
    using 2 by (rule converse_rtranclp_into_rtranclp [where r = "net_step x ver ar", OF 1 r_into_rtranclp])
  ultimately show ?thesis by simp
qed

definition any_user :: verifier where
  "any_user = \<lparr>verify_user_token = (\<lambda>t. Some (User t None [])), verify_app_token = (\<lambda>_. None)\<rparr>"

definition user_conn :: "string \<Rightarrow> conn_principal" where
  "user_conn u = HubPrincipal (User u None [])"

definition node_request :: "string \<Rightarrow> json" where
  "node_request n = JObj [(''handle'', JStr ''h''), (''node_id'', JStr n)]"

definition open_channel :: "nat \<Rightarrow> string list \<Rightarrow> channel" where
  "open_channel c ns = \<lparr>ch_ctx = c, ch_registered = ns, ch_pending = None\<rparr>"

text \<open>The connections 0 and 1 of two users, each with an open channel.\<close>

definition two_users :: "string \<Rightarrow> string \<Rightarrow> hub_net" where
  "two_users u v = \<lparr>hn_world = a_world empty_db, hn_principal = [0 \<mapsto> user_conn u, 1 \<mapsto> user_conn v],
     hn_channels = [0 \<mapsto> open_channel 0 [], 1 \<mapsto> open_channel 1 []], hn_relay = (\<lambda>_. None)\<rparr>"

lemma two_users_reachable:
  assumes "from_utf8 u = Some u" and "from_utf8 v = Some v"
  shows "net_run x any_user ar (net_start (a_world empty_db)) (two_users u v)"
proof -
  let ?s0 = "net_start (a_world empty_db)"
  let ?s1 = "?s0\<lparr>hn_principal := (hn_principal ?s0)(0 \<mapsto> user_conn u)\<rparr>"
  let ?s2 = "?s1\<lparr>hn_principal := (hn_principal ?s1)(1 \<mapsto> user_conn v)\<rparr>"
  let ?s3 = "?s2\<lparr>hn_channels := (hn_channels ?s2)(0 \<mapsto> open_channel 0 [])\<rparr>"
  let ?s4 = "?s3\<lparr>hn_channels := (hn_channels ?s3)(1 \<mapsto> open_channel 1 [])\<rparr>"
  have auth: "connection_auth any_user u = Some (user_conn u)" "connection_auth any_user v = Some (user_conn v)"
    using assms by (simp_all add: connection_auth_def any_user_def user_conn_def)
  have "net_step x any_user ar ?s0 ?s1" by (rule net_steps(2)) (rule auth)
  moreover have "net_step x any_user ar ?s1 ?s2" by (rule net_steps(2)) (rule auth)
  moreover have "net_step x any_user ar ?s2 ?s3" unfolding open_channel_def by (rule net_steps(1)) (simp add: net_start_def)
  moreover have "net_step x any_user ar ?s3 ?s4" unfolding open_channel_def by (rule net_steps(1)) (simp add: net_start_def)
  moreover have "?s4 = two_users u v" by (simp add: net_start_def two_users_def)
  ultimately show ?thesis by (simp add: rtranclp.rtrancl_into_rtrancl)
qed

text \<open>Registering a node without a visibility, for a user, in a world where the node is free or the user's.\<close>

definition registered_row :: "string \<Rightarrow> string \<Rightarrow> resource" where
  "registered_row u n = node_row (node_rid n) (Some n) ''h'' ''h'' [] (Some u) Private (x_time_str an_ext 0)"

lemma node_request_fields:
  "get_str (node_request n) ''handle'' = Some ''h''" "get_str (node_request n) ''node_id'' = Some n"
  "get_str (node_request n) ''name'' = None" "get_str (node_request n) ''visibility'' = None"
  "get (node_request n) ''endpoints'' = None"
  by (simp_all add: node_request_def get_str_def obj_get.simps)

lemma register_alone:
  assumes "case tab_get (tb_resource d) (node_rid n) of None \<Rightarrow> True | Some r \<Rightarrow> res_owner r = Some u"
  shows "register_node an_ext (Some n) ''h'' ''h'' [] (Some u) Private (a_world d) =
    (Inr (x_time_str an_ext 0), a_world (d\<lparr>tb_resource := tab_put (node_rid n) (registered_row u n) (tb_resource d)\<rparr>))"
  using assms
  by (cases "tab_get (tb_resource d) (node_rid n)")
    (simp_all add: register_node_def Let_def quiet owner_matches_def registered_row_def)

definition node_reply :: "string \<Rightarrow> json" where
  "node_reply n = JObj [(''node_id'', JStr n), (''handle'', JStr ''h''), (''registered_at'', JStr (x_time_str an_ext 0)),
     (''endpoints'', json_strings []), (''visibility'', JStr ''private'')]"

lemma register_example:
  assumes "case tab_get (tb_resource d) (node_rid n) of None \<Rightarrow> True | Some r \<Rightarrow> res_owner r = Some u"
  shows "nodes_reply an_ext (Some (user_conn u)) ar ''Register'' (node_request n) live (a_world d) =
    (Inr (node_reply n), a_world (d\<lparr>tb_resource := tab_put (node_rid n) (registered_row u n) (tb_resource d)\<rparr>))"
proof -
  have "handle_nodes an_ext (Some (user_conn u)) ar ''Register'' (node_request n) live (a_world d) =
    (Inr (node_reply n), a_world (d\<lparr>tb_resource := tab_put (node_rid n) (registered_row u n) (tb_resource d)\<rparr>))"
    by (simp add: handle_nodes_def register_method_def authorize_federation_def user_conn_def opt_default_def
      parse_visibility_def principal_usr_id_def node_request_fields register_alone [OF assms] node_reply_def
      json_opt_def visibility_str_def)
  then show ?thesis by (simp add: nodes_reply_def bnd_steps)
qed

lemma sync_register:
  "sync_relay_registry c ''Register'' (node_reply n) relay [] = (relay(n \<mapsto> c), [n])"
  by (simp add: sync_relay_registry_def node_reply_def get_str_def obj_get.simps)

lemma open_channel_simps [simp]:
  "ch_ctx (open_channel c ns) = c" "ch_registered (open_channel c ns) = ns" "ch_pending (open_channel c ns) = None"
  "(open_channel c ns)\<lparr>ch_registered := ms\<rparr> = open_channel c ms"
  by (simp_all add: open_channel_def)

lemma utf8_examples: "from_utf8 ''usr_a'' = Some ''usr_a''" "from_utf8 ''usr_b'' = Some ''usr_b''"
  by code_simp+

text \<open>
  a stale connection takes the relay entry of its successor with it: when a client connects
  anew and registers its node before its old channel ends, the end of the old channel removes the
  entry although the new channel is open and has registered the node; discovery then calls the
  node disconnected and a relay to it is refused as offline.
\<close>

theorem late_close_cuts_new_connection:
  "\<exists>s k. net_run an_ext any_user True (net_start (a_world empty_db)) s \<and>
     hn_channels s 1 = Some k \<and> ch_registered k = [''w1''] \<and> ch_pending k = None \<and>
     tab_get (tb_resource (w_db (hn_world s))) (node_rid ''w1'') = Some (registered_row ''usr_a'' ''w1'') \<and>
     hn_relay s ''w1'' = None"
proof -
  let ?s0 = "two_users ''usr_a'' ''usr_a''"
  let ?row = "registered_row ''usr_a'' ''w1''"
  let ?d = "empty_db\<lparr>tb_resource := tab_put (node_rid ''w1'') ?row (tb_resource empty_db)\<rparr>"
  let ?s1 = "?s0\<lparr>hn_world := a_world ?d, hn_relay := [''w1'' \<mapsto> 0], hn_channels := (hn_channels ?s0)(0 \<mapsto> open_channel 0 [''w1''])\<rparr>"
  let ?d2 = "?d\<lparr>tb_resource := tab_put (node_rid ''w1'') ?row (tb_resource ?d)\<rparr>"
  let ?s2 = "?s1\<lparr>hn_world := a_world ?d2, hn_relay := [''w1'' \<mapsto> 1], hn_channels := (hn_channels ?s1)(1 \<mapsto> open_channel 1 [''w1''])\<rparr>"
  let ?s3 = "?s2\<lparr>hn_relay := drop_registered [''w1''] (hn_relay ?s2), hn_channels := (hn_channels ?s2)(0 := None)\<rparr>"
  note run = request_sync_run [where x = an_ext and ver = any_user and ar = True and call = "''Register''" and payload = "node_request ''w1''"
      and reply = "node_reply ''w1''"]
  have 1: "net_run an_ext any_user True ?s0 ?s1"
    using run [of ?s0 0 "open_channel 0 []" "a_world ?d" "[''w1'' \<mapsto> 0]" "[''w1'']"]
    by (simp add: two_users_def register_example sync_register empty_db_def tab_get_def)
  have 2: "net_run an_ext any_user True ?s1 ?s2"
    using run [of ?s1 1 "open_channel 1 []" "a_world ?d2" "[''w1'' \<mapsto> 1]" "[''w1'']"]
    by (simp add: two_users_def register_example sync_register tab.get_put registered_row_def)
  have 3: "net_step an_ext any_user True ?s2 ?s3"
    using net_steps(5) [of ?s2 0 "open_channel 0 [''w1'']" an_ext any_user True] by (simp add: two_users_def)
  have "net_run an_ext any_user True (net_start (a_world empty_db)) ?s3"
    using two_users_reachable [OF utf8_examples(1) utf8_examples(1)] 1 2 3
    by (meson rtranclp.rtrancl_into_rtrancl rtranclp_trans)
  moreover have "hn_channels ?s3 1 = Some (open_channel 1 [''w1''])" by (simp add: two_users_def)
  moreover have "hn_relay ?s3 ''w1'' = None" by (simp add: drop_registered)
  moreover have "tab_get (tb_resource (w_db (hn_world ?s3))) (node_rid ''w1'') = Some ?row" by (simp add: tab.get_put)
  ultimately show ?thesis by (intro exI [of _ ?s3] exI [of _ "open_channel 1 [''w1'']"]) simp
qed

text \<open>The state in which \<open>usr_a\<close> has registered \<open>w1\<close>.\<close>

definition one_node :: hub_net where
  "one_node = (two_users ''usr_a'' ''usr_b'')\<lparr>
     hn_world := a_world (empty_db\<lparr>tb_resource := [(node_rid ''w1'', registered_row ''usr_a'' ''w1'')]\<rparr>),
     hn_relay := [''w1'' \<mapsto> 0], hn_channels := [0 \<mapsto> open_channel 0 [''w1''], 1 \<mapsto> open_channel 1 []]\<rparr>"

lemma one_node_reachable: "net_run an_ext any_user True (net_start (a_world empty_db)) one_node"
proof -
  have "net_run an_ext any_user True (two_users ''usr_a'' ''usr_b'') one_node"
    using request_sync_run [where s = "two_users ''usr_a'' ''usr_b''" and i = 0 and k = "open_channel 0 []" and
        x = an_ext and ver = any_user and ar = True and call = "''Register''" and payload = "node_request ''w1''"
        and reply = "node_reply ''w1''" and relay' = "[''w1'' \<mapsto> 0]" and reg' = "[''w1'']"]
    by (simp add: two_users_def one_node_def register_example sync_register empty_db_def tab_get_def tab_put_def fun_upd_twist)
  then show ?thesis using two_users_reachable [OF utf8_examples] by (meson rtranclp_trans)
qed

text \<open>
  a user can cut another user's node off: an \<open>Unregister\<close> of a foreign node removes nothing
  from the database, as its owner guard demands, and yet the reply names the node, so its relay
  entry goes while its connection is open and has it registered.
\<close>

theorem foreign_unregister_cuts_relay:
  "\<exists>s k. net_run an_ext any_user True (net_start (a_world empty_db)) s \<and>
     hn_principal s 1 = Some (user_conn ''usr_b'') \<and> hn_channels s 0 = Some k \<and> ch_registered k = [''w1''] \<and>
     tab_get (tb_resource (w_db (hn_world s))) (node_rid ''w1'') = Some (registered_row ''usr_a'' ''w1'') \<and>
     hn_relay one_node ''w1'' = Some 0 \<and> net_run an_ext any_user True one_node s \<and> hn_relay s ''w1'' = None"
proof -
  let ?reply = "JObj [(''node_id'', JStr ''w1''), (''handle'', JStr ''h''), (''removed'', JInt 0)]"
  let ?s = "one_node\<lparr>hn_world := hn_world one_node, hn_relay := (hn_relay one_node)(''w1'' := None),
     hn_channels := (hn_channels one_node)(1 \<mapsto> open_channel 1 [])\<rparr>"
  have row: "tab_get (tb_resource (w_db (hn_world one_node))) (node_rid ''w1'') = Some (registered_row ''usr_a'' ''w1'')"
    by (simp add: one_node_def tab_get_def)
  have "handle_nodes an_ext (Some (user_conn ''usr_b'')) True ''Unregister'' (node_request ''w1'') live (hn_world one_node) =
      (Inr ?reply, hn_world one_node)" for live
    using row
    by (simp add: handle_nodes_def unregister_method_def authorize_federation_def user_conn_def node_request_fields
      unregister_node_def principal_usr_id_def owner_matches_def registered_row_def json_opt_def one_node_def quiet)
  then have "nodes_reply an_ext (Some (user_conn ''usr_b'')) True ''Unregister'' (node_request ''w1'') live (hn_world one_node) =
      (Inr ?reply, hn_world one_node)" for live
    by (simp add: nodes_reply_def bnd_steps)
  moreover have "sync_relay_registry 1 ''Unregister'' ?reply (hn_relay one_node) [] = ((hn_relay one_node)(''w1'' := None), [])"
    by (simp add: sync_relay_registry_def get_str_def obj_get.simps)
  ultimately have "net_run an_ext any_user True one_node ?s"
    using request_sync_run [of one_node 1 "open_channel 1 []" an_ext True "''Unregister''" "node_request ''w1''" ?reply
        "hn_world one_node" "(hn_relay one_node)(''w1'' := None)" "[]" any_user]
    by (simp add: one_node_def two_users_def)
  then show ?thesis
    using rtranclp_trans [OF one_node_reachable] row
    by (intro exI [of _ ?s] exI [of _ "open_channel 0 [''w1'']"]) (simp add: one_node_def two_users_def)
qed

section \<open>Concrete instances\<close>

theorem nodes_channel_witness:
  "keeps (\<lambda>d. tab_get (tb_resource d) (node_rid ''w1'') = Some (registered_row ''usr_a'' ''w1''))
     (nodes_reply an_ext (Some (user_conn ''usr_b'')) True ''Unregister'' (node_request ''w1'') (\<lambda>_. True))"
  by (rule nodes_channel_keeps_foreign_nodes [where v = "''usr_a''"])
    (simp_all add: registered_row_def principal_usr_id_def user_conn_def)

theorem relay_reaches_witness:
  "\<exists>i k. hn_channels one_node i = Some k \<and> ch_ctx k = 0 \<and> ''w1'' \<in> set (ch_registered k) \<and>
     handle_relay (hn_relay one_node) (Some (user_conn ''usr_b'')) True (Some (JObj [(''to'', JStr ''w1'')])) (\<lambda>_. Inr True)
       [(JInt 1, True), (JInt 2, False)] =
     ([Status ''established'' ''w1''], Some (0, [OpenFrom ''?'', Payload (JInt 1)]))"
proof -
  have r: "handle_relay (hn_relay one_node) (Some (user_conn ''usr_b'')) True (Some (JObj [(''to'', JStr ''w1'')])) (\<lambda>_. Inr True)
       [(JInt 1, True), (JInt 2, False)] =
     ([Status ''established'' ''w1''], Some (0, [OpenFrom ''?'', Payload (JInt 1)]))"
    by (simp add: handle_relay_def authorize_federation_def user_conn_def one_node_def get_str_def obj_get.simps opt_default_def)
  then show ?thesis
    using relay_reaches_registered_channel [OF one_node_reachable r] by (auto simp: get_str_def obj_get.simps)
qed

end
