(* ===== verification/Db_Watch.thy ===== *)
theory Db_Watch
  imports Hub_World
begin

text \<open>
  The connection to the database and its watchdog (\<open>crates/chronista-hub-server/src/db.rs\<close>): the
  health record, the check with its rebuild of the connection, run by any number of tasks at a
  time, the watchdog that checks on a tick or on a kick, and the migrations at the start.
  Opening a connection and pinging are the SDK's: their outcomes come from outside.
\<close>

section \<open>Health\<close>

record db_health =
  dh_ok :: bool
  dh_checked_at :: "int option"
  dh_last_error :: "string option"
  dh_last_error_at :: "int option"
  dh_reconnects :: "64 word"

definition initial_health :: db_health where
  "initial_health = \<lparr>dh_ok = True, dh_checked_at = None, dh_last_error = None, dh_last_error_at = None, dh_reconnects = 0\<rparr>"

definition record_health :: "int \<Rightarrow> error + unit \<Rightarrow> db_health \<Rightarrow> db_health" where
  "record_health now result h =
     (let h = h\<lparr>dh_checked_at := Some now\<rparr>
      in case result of
           Inr _ \<Rightarrow> h\<lparr>dh_ok := True\<rparr>
         | Inl e \<Rightarrow> h\<lparr>dh_ok := False,
             dh_last_error := Some (case kind_of e of Some k \<Rightarrow> k | None \<Rightarrow> ''error''),
             dh_last_error_at := dh_checked_at h\<rparr>)"

definition is_remote :: "string \<Rightarrow> bool" where
  "is_remote url \<longleftrightarrow> list_ex (\<lambda>p. prefix p url) [''ws://'', ''wss://'', ''http://'', ''https://'']"

definition PING_TIMEOUT_S :: nat where "PING_TIMEOUT_S = 5"
definition CONNECT_TIMEOUT_S :: nat where "CONNECT_TIMEOUT_S = 10"
definition MIN_CHECK_GAP_S :: nat where "MIN_CHECK_GAP_S = 1"

text \<open>
  What becomes of a call with a time limit: its result, or that the time is over (\<open>None\<close>).
\<close>

definition ping_result :: "(error + unit) option \<Rightarrow> error + unit" where
  "ping_result r = (case r of Some res \<Rightarrow> res
     | None \<Rightarrow> Inl (anyhow (''db ping timed out after '' @ show_nat PING_TIMEOUT_S @ ''s'')))"

definition open_result :: "(error + unit) option \<Rightarrow> error + unit" where
  "open_result r = (case r of Some res \<Rightarrow> res
     | None \<Rightarrow> Inl (anyhow (''db reconnect timed out after '' @ show_nat CONNECT_TIMEOUT_S @ ''s'')))"

section \<open>Checks\<close>

text \<open>
  A task that checks: pinging, waiting for the lock after a failed ping, opening a new connection
  with the lock held, then storing it (\<open>Swapped\<close>), counting it (\<open>Counted\<close>), and pinging again.
  The generation that the task saw at its start goes with it.
\<close>

datatype phase = Idle | Pinging "64 word" | WaitLock "64 word" | Opening "64 word" | Swapped "64 word" | Counted | Repinging

text \<open>The shared state: connections are numbered as they are opened.\<close>

record db_state =
  ds_url :: string
  ds_conn :: nat
  ds_generation :: "64 word"
  ds_health :: db_health
  ds_lock :: "nat option"
  ds_phase :: "nat \<Rightarrow> phase"

definition connected :: "string \<Rightarrow> db_state" where
  "connected url = \<lparr>ds_url = url, ds_conn = 0, ds_generation = 0, ds_health = initial_health, ds_lock = None,
     ds_phase = (\<lambda>_. Idle)\<rparr>"

abbreviation enter :: "nat \<Rightarrow> phase \<Rightarrow> db_state \<Rightarrow> db_state" where
  "enter i p s \<equiv> s\<lparr>ds_phase := (ds_phase s)(i := p)\<rparr>"

definition finish :: "nat \<Rightarrow> int \<Rightarrow> error + unit \<Rightarrow> db_state \<Rightarrow> db_state" where
  "finish i now r s = enter i Idle s\<lparr>ds_health := record_health now r (ds_health s)\<rparr>"

inductive check_step :: "db_state \<Rightarrow> db_state \<Rightarrow> bool" where
  Begin: "ds_phase s i = Idle \<Longrightarrow> check_step s (enter i (Pinging (ds_generation s)) s)"
| Ping_ok: "ds_phase s i = Pinging g \<Longrightarrow> ping_result r = Inr () \<Longrightarrow> check_step s (finish i now (Inr ()) s)"
| Ping_embedded: "ds_phase s i = Pinging g \<Longrightarrow> ping_result r = Inl e \<Longrightarrow> \<not> is_remote (ds_url s) \<Longrightarrow>
    check_step s (finish i now (Inl e) s)"
| Ping_failed: "ds_phase s i = Pinging g \<Longrightarrow> ping_result r = Inl e \<Longrightarrow> is_remote (ds_url s) \<Longrightarrow>
    check_step s (enter i (WaitLock g) s)"
| Lock_stale: "ds_phase s i = WaitLock g \<Longrightarrow> ds_lock s = None \<Longrightarrow> ds_generation s \<noteq> g \<Longrightarrow>
    check_step s (enter i Repinging s)"
| Lock_fresh: "ds_phase s i = WaitLock g \<Longrightarrow> ds_lock s = None \<Longrightarrow> ds_generation s = g \<Longrightarrow>
    check_step s (enter i (Opening g) s\<lparr>ds_lock := Some i\<rparr>)"
| Open_failed: "ds_phase s i = Opening g \<Longrightarrow> open_result r = Inl e \<Longrightarrow>
    check_step s (finish i now (Inl e) s\<lparr>ds_lock := None\<rparr>)"
| Open_ok: "ds_phase s i = Opening g \<Longrightarrow> open_result r = Inr () \<Longrightarrow>
    check_step s (enter i (Swapped g) s\<lparr>ds_conn := Suc (ds_conn s)\<rparr>)"
| Count: "ds_phase s i = Swapped g \<Longrightarrow> check_step s (enter i Counted s\<lparr>ds_generation := ds_generation s + 1\<rparr>)"
| Report: "ds_phase s i = Counted \<Longrightarrow>
    check_step s (enter i Repinging s\<lparr>ds_health := (ds_health s)\<lparr>dh_reconnects := dh_reconnects (ds_health s) + 1\<rparr>, ds_lock := None\<rparr>)"
| Reping: "ds_phase s i = Repinging \<Longrightarrow> check_step s (finish i now (ping_result r) s)"

inductive_cases check_stepE: "check_step s s'"

lemma record_health_simps [simp]:
  "dh_reconnects (record_health now r h) = dh_reconnects h" "dh_checked_at (record_health now r h) = Some now"
  "dh_ok (record_health now r h) \<longleftrightarrow> r = Inr ()"
  by (auto simp: record_health_def Let_def split: sum.split)

text \<open>
  The lock is held exactly by the task that rebuilds; while it opens, nobody else has rebuilt
  since its ping; the connection, the generation and the count of reconnects move together.
\<close>

definition rebuilding :: "phase \<Rightarrow> bool" where
  "rebuilding p \<longleftrightarrow> (case p of Opening _ \<Rightarrow> True | Swapped _ \<Rightarrow> True | Counted \<Rightarrow> True | _ \<Rightarrow> False)"

definition holder_phase :: "db_state \<Rightarrow> phase" where
  "holder_phase s = (case ds_lock s of None \<Rightarrow> Idle | Some i \<Rightarrow> ds_phase s i)"

definition uncounted :: "phase \<Rightarrow> 64 word" where
  "uncounted p = (case p of Swapped _ \<Rightarrow> 1 | _ \<Rightarrow> 0)"

definition unreported :: "phase \<Rightarrow> 64 word" where
  "unreported p = (case p of Counted \<Rightarrow> 1 | _ \<Rightarrow> 0)"

definition pinging :: "phase \<Rightarrow> bool" where
  "pinging p \<longleftrightarrow> (case p of Idle \<Rightarrow> True | Pinging _ \<Rightarrow> True | _ \<Rightarrow> False)"

definition check_inv :: "db_state \<Rightarrow> bool" where
  "check_inv s \<longleftrightarrow>
     (\<forall>i. rebuilding (ds_phase s i) \<longleftrightarrow> ds_lock s = Some i) \<and>
     (\<forall>g. holder_phase s = Opening g \<or> holder_phase s = Swapped g \<longrightarrow> ds_generation s = g) \<and>
     (is_remote (ds_url s) \<or> ds_conn s = 0 \<and> (\<forall>i. pinging (ds_phase s i))) \<and>
     word_of_nat (ds_conn s) = ds_generation s + uncounted (holder_phase s) \<and>
     ds_generation s = dh_reconnects (ds_health s) + unreported (holder_phase s)"

lemma phase_simps [simp]:
  "\<not> rebuilding Idle" "\<not> rebuilding (Pinging g)" "\<not> rebuilding (WaitLock g)" "\<not> rebuilding Repinging"
  "rebuilding (Opening g)" "rebuilding (Swapped g)" "rebuilding Counted"
  "uncounted Idle = 0" "uncounted (Opening g) = 0" "uncounted (Swapped g) = 1" "uncounted Counted = 0"
  "unreported Idle = 0" "unreported (Opening g) = 0" "unreported (Swapped g) = 0" "unreported Counted = 1"
  "pinging Idle" "pinging (Pinging g)" "\<not> pinging (WaitLock g)" "\<not> pinging (Opening g)" "\<not> pinging (Swapped g)"
  "\<not> pinging Counted" "\<not> pinging Repinging"
  by (simp_all add: rebuilding_def uncounted_def unreported_def pinging_def)

lemma check_inv_lock:
  assumes "check_inv s" and "ds_phase s i = p"
  shows "rebuilding p \<Longrightarrow> ds_lock s = Some i \<and> holder_phase s = p" "\<not> rebuilding p \<Longrightarrow> ds_lock s \<noteq> Some i"
  using assms by (auto simp: check_inv_def holder_phase_def)

lemma check_inv_remote: "check_inv s \<Longrightarrow> \<not> pinging (ds_phase s i) \<Longrightarrow> is_remote (ds_url s)"
  by (auto simp: check_inv_def)

text \<open>A step of a task that does not hold the lock and does not take it leaves the holder's part alone.\<close>

lemma check_inv_bystander:
  assumes "check_inv s" and "\<not> rebuilding (ds_phase s i)" and "\<not> rebuilding p"
    and "is_remote (ds_url s) \<or> pinging p" and "dh_reconnects h = dh_reconnects (ds_health s)"
  shows "check_inv (enter i p s\<lparr>ds_health := h\<rparr>)"
proof -
  have lock: "ds_lock s \<noteq> Some i" by (rule check_inv_lock(2) [OF assms(1) refl assms(2)])
  then have holder: "holder_phase (enter i p s\<lparr>ds_health := h\<rparr>) = holder_phase s"
    by (auto simp: holder_phase_def split: option.split)
  show ?thesis
    using assms lock unfolding check_inv_def holder by auto
qed

lemma check_inv_step:
  assumes "check_step s s'" and "check_inv s"
  shows "check_inv s'"
  using assms(1)
proof (cases rule: check_step.cases)
  case (Begin i)
  then show ?thesis using check_inv_bystander [OF assms(2), of i "Pinging (ds_generation s)" "ds_health s"] by simp
next
  case (Ping_ok i g r now)
  then show ?thesis using check_inv_bystander [OF assms(2), of i Idle] by (simp add: finish_def)
next
  case (Ping_embedded i g r e now)
  then show ?thesis using check_inv_bystander [OF assms(2), of i Idle] by (simp add: finish_def)
next
  case (Ping_failed i g r e)
  then show ?thesis using check_inv_bystander [OF assms(2), of i "WaitLock g" "ds_health s"] by simp
next
  case (Lock_stale i g)
  then have "is_remote (ds_url s)" using check_inv_remote [OF assms(2), of i] by simp
  then show ?thesis using Lock_stale check_inv_bystander [OF assms(2), of i Repinging "ds_health s"] by simp
next
  case (Lock_fresh i g)
  have "is_remote (ds_url s)" using check_inv_remote [OF assms(2), of i] Lock_fresh by simp
  then show ?thesis using assms(2) Lock_fresh by (auto simp: check_inv_def holder_phase_def)
next
  case (Open_failed i g r e now)
  have "is_remote (ds_url s)" using check_inv_remote [OF assms(2), of i] Open_failed by simp
  then show ?thesis
    using Open_failed assms(2) check_inv_lock [OF assms(2) Open_failed(2)]
    by (auto simp: check_inv_def holder_phase_def finish_def)
next
  case (Open_ok i g r)
  then have "is_remote (ds_url s)" using check_inv_remote [OF assms(2), of i] by simp
  then show ?thesis
    using Open_ok assms(2) check_inv_lock [OF assms(2) Open_ok(2)] by (auto simp: check_inv_def holder_phase_def)
next
  case (Count i g)
  have "is_remote (ds_url s)" using check_inv_remote [OF assms(2), of i] Count by simp
  then show ?thesis
    using Count assms(2) check_inv_lock [OF assms(2) Count(2)] by (auto simp: check_inv_def holder_phase_def)
next
  case (Report i)
  have "is_remote (ds_url s)" using check_inv_remote [OF assms(2), of i] Report by simp
  then show ?thesis
    using Report assms(2) check_inv_lock [OF assms(2) Report(2)] by (auto simp: check_inv_def holder_phase_def)
next
  case (Reping i r now)
  then have "is_remote (ds_url s)" using check_inv_remote [OF assms(2), of i] by simp
  then show ?thesis using Reping check_inv_bystander [OF assms(2), of i Idle] by (simp add: finish_def)
qed

lemma check_inv_connected: "check_inv (connected url)"
  by (simp add: check_inv_def connected_def holder_phase_def initial_health_def)

lemma check_inv_run: "check_step\<^sup>*\<^sup>* (connected url) s \<Longrightarrow> check_inv s"
  by (induction rule: rtranclp_induct) (auto intro: check_inv_connected check_inv_step)

section \<open>A check on its own\<close>

text \<open>
  \<open>Db::check\<close> by a task that nobody disturbs: a ping; where it fails and the database is remote,
  a new connection and another ping. The arguments are the outcomes of the three calls.
\<close>

definition check_once ::
  "string \<Rightarrow> (error + unit) option \<Rightarrow> (error + unit) option \<Rightarrow> (error + unit) option \<Rightarrow> error + unit" where
  "check_once url first reopened second =
     (case ping_result first of
        Inr _ \<Rightarrow> Inr ()
      | Inl e \<Rightarrow>
          if is_remote url
          then (case open_result reopened of Inr _ \<Rightarrow> ping_result second | Inl re \<Rightarrow> Inl re)
          else Inl e)"

text \<open>Whether such a check opens a new connection.\<close>

definition reopens :: "string \<Rightarrow> (error + unit) option \<Rightarrow> (error + unit) option \<Rightarrow> bool" where
  "reopens url first reopened \<longleftrightarrow> is_remote url \<and> ping_result first \<noteq> Inr () \<and> open_result reopened = Inr ()"

text \<open>The whole check as one function of the shared state.\<close>

definition checked ::
  "nat \<Rightarrow> int \<Rightarrow> (error + unit) option \<Rightarrow> (error + unit) option \<Rightarrow> (error + unit) option \<Rightarrow> db_state \<Rightarrow> db_state" where
  "checked i now first reopened second s =
     finish i now (check_once (ds_url s) first reopened second)
       (if reopens (ds_url s) first reopened
        then s\<lparr>ds_conn := Suc (ds_conn s), ds_generation := ds_generation s + 1,
          ds_health := (ds_health s)\<lparr>dh_reconnects := dh_reconnects (ds_health s) + 1\<rparr>\<rparr>
        else s)"

text \<open>Steps while the task \<open>i\<close> is at its check.\<close>

definition working :: "nat \<Rightarrow> db_state \<Rightarrow> db_state \<Rightarrow> bool" where
  "working i s s' \<longleftrightarrow> check_step s s' \<and> ds_phase s i \<noteq> Idle"

lemma working_runs: "(working i)\<^sup>*\<^sup>* s s' \<Longrightarrow> check_step\<^sup>*\<^sup>* s s'"
  by (erule rtranclp_mono [THEN predicate2D, rotated]) (auto simp: working_def)

lemma begun_run:
  assumes "ds_phase s i = Idle" and "(working i)\<^sup>*\<^sup>* (enter i (Pinging (ds_generation s)) s) s'"
  shows "check_step\<^sup>*\<^sup>* s s'"
  using Begin [OF assms(1)] working_runs [OF assms(2)] by (rule converse_rtranclp_into_rtranclp)

lemma failed_ping_works:
  assumes "ping_result first = Inl e" and "is_remote (ds_url s)"
  shows "(working i)\<^sup>*\<^sup>* (enter i (Pinging (ds_generation s)) s) (enter i (WaitLock (ds_generation s)) s)"
proof -
  let ?s = "enter i (Pinging (ds_generation s)) s"
  have "check_step ?s (enter i (WaitLock (ds_generation s)) ?s)"
    by (rule Ping_failed [OF _ assms(1)]) (simp_all add: assms(2))
  then have "working i ?s (enter i (WaitLock (ds_generation s)) s)" by (simp add: working_def)
  then show ?thesis by (rule r_into_rtranclp)
qed

lemma failed_ping_waits:
  assumes "ds_phase s i = Idle" and "ping_result first = Inl e" and "is_remote (ds_url s)"
  shows "check_step\<^sup>*\<^sup>* s (enter i (WaitLock (ds_generation s)) s)"
  using assms(1) failed_ping_works [OF assms(2,3)] by (rule begun_run)

text \<open>A rebuild of the connection by a task that waits for the lock.\<close>

lemma rebuild_works:
  assumes "ds_phase s i = WaitLock (ds_generation s)" and "ds_lock s = None" and "open_result reopened = Inr ()"
  shows "(working i)\<^sup>*\<^sup>* s (enter i Repinging s\<lparr>ds_conn := Suc (ds_conn s), ds_generation := ds_generation s + 1,
    ds_health := (ds_health s)\<lparr>dh_reconnects := dh_reconnects (ds_health s) + 1\<rparr>\<rparr>)"
proof -
  let ?s2 = "enter i (Opening (ds_generation s)) s\<lparr>ds_lock := Some i\<rparr>"
  let ?s3 = "enter i (Swapped (ds_generation s)) ?s2\<lparr>ds_conn := Suc (ds_conn s)\<rparr>"
  let ?s4 = "enter i Counted ?s3\<lparr>ds_generation := ds_generation s + 1\<rparr>"
  let ?s5 = "enter i Repinging ?s4\<lparr>ds_health := (ds_health s)\<lparr>dh_reconnects := dh_reconnects (ds_health s) + 1\<rparr>, ds_lock := None\<rparr>"
  have "working i s ?s2" using Lock_fresh [of s i "ds_generation s"] assms(1,2) by (simp add: working_def)
  moreover have "working i ?s2 ?s3"
    using Open_ok [of ?s2 i "ds_generation s" reopened] assms(3) by (simp add: working_def)
  moreover have "working i ?s3 ?s4" using Count [of ?s3 i "ds_generation s"] by (simp add: working_def)
  moreover have "working i ?s4 ?s5" using Report [of ?s4 i] by (simp add: working_def)
  moreover have "?s5 = enter i Repinging s\<lparr>ds_conn := Suc (ds_conn s), ds_generation := ds_generation s + 1,
    ds_health := (ds_health s)\<lparr>dh_reconnects := dh_reconnects (ds_health s) + 1\<rparr>\<rparr>"
    using assms(2) by (cases s) simp
  ultimately show ?thesis by (metis (no_types, lifting) converse_rtranclp_into_rtranclp rtranclp.rtrancl_refl)
qed

lemma lone_check_works:
  assumes lock: "ds_lock s = None"
  shows "(working i)\<^sup>*\<^sup>* (enter i (Pinging (ds_generation s)) s) (checked i now first reopened second s)"
proof (cases "ping_result first")
  case (Inr u)
  let ?s = "enter i (Pinging (ds_generation s)) s"
  have "check_step ?s (finish i now (Inr ()) ?s)" by (rule Ping_ok [where r = first]) (simp_all add: Inr)
  then have "working i ?s (checked i now first reopened second s)"
    by (simp add: working_def checked_def check_once_def reopens_def finish_def Inr)
  then show ?thesis by (rule r_into_rtranclp)
next
  case (Inl e)
  show ?thesis
  proof (cases "is_remote (ds_url s)")
    case False
    let ?s = "enter i (Pinging (ds_generation s)) s"
    have "check_step ?s (finish i now (Inl e) ?s)" by (rule Ping_embedded [OF _ Inl]) (simp_all add: False)
    then have "working i ?s (checked i now first reopened second s)"
      using False by (simp add: working_def checked_def check_once_def reopens_def finish_def Inl)
    then show ?thesis by (rule r_into_rtranclp)
  next
    case True
    let ?s1 = "enter i (WaitLock (ds_generation s)) s"
    have s1: "(working i)\<^sup>*\<^sup>* (enter i (Pinging (ds_generation s)) s) ?s1" by (rule failed_ping_works [OF Inl True])
    show ?thesis
    proof (cases "open_result reopened")
      case (Inl re)
      let ?s2 = "enter i (Opening (ds_generation s)) s\<lparr>ds_lock := Some i\<rparr>"
      have "working i ?s1 ?s2" using Lock_fresh [of ?s1 i "ds_generation s"] lock by (simp add: working_def)
      moreover have "check_step ?s2 (finish i now (Inl re) ?s2\<lparr>ds_lock := None\<rparr>)" by (rule Open_failed [OF _ Inl]) simp
      moreover have "finish i now (Inl re) ?s2\<lparr>ds_lock := None\<rparr> = checked i now first reopened second s"
        using lock \<open>ping_result first = Inl e\<close> True
        by (cases s) (simp add: checked_def check_once_def reopens_def finish_def Inl)
      ultimately have "working i ?s1 ?s2" "working i ?s2 (checked i now first reopened second s)"
        by (simp_all add: working_def)
      with s1 show ?thesis by (metis rtranclp.rtrancl_into_rtrancl)
    next
      case (Inr u)
      let ?s5 = "enter i Repinging s\<lparr>ds_conn := Suc (ds_conn s), ds_generation := ds_generation s + 1,
        ds_health := (ds_health s)\<lparr>dh_reconnects := dh_reconnects (ds_health s) + 1\<rparr>\<rparr>"
      have "(working i)\<^sup>*\<^sup>* ?s1 ?s5" using rebuild_works [of ?s1 i reopened] lock Inr by simp
      moreover have "check_step ?s5 (finish i now (ping_result second) ?s5)" by (rule Reping) simp
      then have "working i ?s5 (checked i now first reopened second s)"
        using \<open>ping_result first = Inl e\<close> True
        by (simp add: working_def checked_def check_once_def reopens_def finish_def Inr)
      ultimately show ?thesis using s1 by (metis (no_types, lifting) rtranclp.rtrancl_into_rtrancl rtranclp_trans)
    qed
  qed
qed

lemma lone_check_runs:
  assumes "ds_phase s i = Idle" and "ds_lock s = None"
  shows "check_step\<^sup>*\<^sup>* s (checked i now first reopened second s)"
  using assms(1) lone_check_works [OF assms(2)] by (rule begun_run)

lemma checked_simps [simp]:
  "ds_url (checked i now first reopened second s) = ds_url s" "ds_lock (checked i now first reopened second s) = ds_lock s"
  "ds_phase (checked i now first reopened second s) = (ds_phase s)(i := Idle)"
  "dh_ok (ds_health (checked i now first reopened second s)) \<longleftrightarrow> check_once (ds_url s) first reopened second = Inr ()"
  by (simp_all add: checked_def finish_def)

section \<open>The watchdog\<close>

text \<open>
  The spawned loop: waiting, checking, and a pause. \<open>Notify\<close> keeps one permit. The ticker's due
  tick and the permit are taken one at a time (\<open>select!\<close>); ticks that were missed are skipped.
\<close>

datatype watch_phase = Waiting | Checking | Pausing

record watchdog =
  wd_phase :: watch_phase
  wd_permit :: bool
  wd_tick_due :: bool
  wd_checks :: nat

datatype watch_event = Kick | Tick | Wake_tick | Wake_kick | Check_done | Pause_over

fun watch_step :: "watch_event \<Rightarrow> watchdog \<Rightarrow> watchdog option" where
  "watch_step Kick w = Some (w\<lparr>wd_permit := True\<rparr>)"
| "watch_step Tick w = Some (w\<lparr>wd_tick_due := True\<rparr>)"
| "watch_step Wake_tick w =
     (if wd_phase w = Waiting \<and> wd_tick_due w
      then Some (w\<lparr>wd_phase := Checking, wd_tick_due := False, wd_checks := Suc (wd_checks w)\<rparr>) else None)"
| "watch_step Wake_kick w =
     (if wd_phase w = Waiting \<and> wd_permit w
      then Some (w\<lparr>wd_phase := Checking, wd_permit := False, wd_checks := Suc (wd_checks w)\<rparr>) else None)"
| "watch_step Check_done w = (if wd_phase w = Checking then Some (w\<lparr>wd_phase := Pausing\<rparr>) else None)"
| "watch_step Pause_over w = (if wd_phase w = Pausing then Some (w\<lparr>wd_phase := Waiting\<rparr>) else None)"

fun watch_run :: "watch_event list \<Rightarrow> watchdog \<Rightarrow> watchdog option" where
  "watch_run [] w = Some w"
| "watch_run (e # es) w = Option.bind (watch_step e w) (watch_run es)"

fun_cases watch_stepE: "watch_step e w = Some w'"

definition is_wake :: "watch_event \<Rightarrow> bool" where
  "is_wake e \<longleftrightarrow> e = Wake_tick \<or> e = Wake_kick"

lemma watch_step_permit:
  assumes "watch_step e w = Some w'" and "wd_permit w" and "e \<noteq> Wake_kick"
  shows "wd_permit w'"
  using assms by (cases e) (auto split: if_splits)

lemma watch_run_permit:
  "watch_run es w = Some w' \<Longrightarrow> wd_permit w \<Longrightarrow> Wake_kick \<notin> set es \<Longrightarrow> wd_permit w'"
  by (induction es arbitrary: w) (auto simp: bind_eq_Some_conv dest: watch_step_permit)

text \<open>Between two kicks of the same wait no check starts for the second: kicks are counted once.\<close>

definition signals :: "watchdog \<Rightarrow> nat" where
  "signals w = (if wd_permit w then 1 else 0) + (if wd_tick_due w then 1 else 0)"

lemma watch_step_checks:
  assumes "watch_step e w = Some w'"
  shows "wd_checks w' + signals w' \<le> wd_checks w + signals w + (if e = Kick \<or> e = Tick then 1 else 0)"
    and "e \<noteq> Kick \<and> e \<noteq> Tick \<Longrightarrow> wd_checks w' + signals w' = wd_checks w + signals w"
  using assms by (cases e; auto simp: signals_def split: if_splits)+

lemma watch_quiet_run:
  "watch_run es w = Some w' \<Longrightarrow> set es \<inter> {Kick, Tick} = {} \<Longrightarrow> wd_checks w' + signals w' = wd_checks w + signals w"
proof (induction es arbitrary: w)
  case (Cons e es)
  then show ?case using watch_step_checks(2) [of e w] by (auto simp: bind_eq_Some_conv)
qed simp

lemma kicks_once: "watch_run (replicate (Suc n) Kick) w = Some (w\<lparr>wd_permit := True\<rparr>)"
  by (induction n arbitrary: w) simp_all

section \<open>Migrations\<close>

text \<open>
  The migration directory and what a file's statements do to the database come from outside.
\<close>

record migration_dir =
  md_list :: "error + string list"
  md_read :: "string \<Rightarrow> error + string"
  md_exec :: "string \<Rightarrow> nat \<Rightarrow> db \<Rightarrow> (error + unit) \<times> db"

definition SURQL :: string where
  "SURQL = ''.surql''"

text \<open>\<open>file.trim_end_matches(".surql")\<close>: every occurrence at the end goes.\<close>

function trim_surql :: "string \<Rightarrow> string" where
  "trim_surql s = (if suffix SURQL s then trim_surql (take (length s - 6) s) else s)"
  by auto
termination
  by (relation "measure length") (auto simp: suffix_def SURQL_def)

declare trim_surql.simps [simp del]

definition applied_migrations :: "string list hub" where
  "applied_migrations =
     bnd (attempt (select (\<lambda>t d. tb_migrations d))) (\<lambda>r. ret (case r of Inr names \<Rightarrow> names | Inl _ \<Rightarrow> []))"

fun apply_migrations :: "migration_dir \<Rightarrow> string list \<Rightarrow> string list \<Rightarrow> string list \<Rightarrow> string list hub" where
  "apply_migrations M applied [] now = ret now"
| "apply_migrations M applied (f # fs) now =
     (let name = trim_surql f
      in if name \<in> set applied then apply_migrations M applied fs now
         else case md_read M f of
           Inl e \<Rightarrow> raise (anyhow (''read migration '' @ f @ '': '' @ error_text e))
         | Inr surql \<Rightarrow>
             bnd (attempt (query (md_exec M surql))) (\<lambda>r.
             case r of
               Inl e \<Rightarrow> raise (anyhow (''migration '' @ name @ '' failed: '' @ error_text e))
             | Inr (Inl e) \<Rightarrow> raise (anyhow (''migration '' @ name @ '' returned errors: '' @ error_text e))
             | Inr (Inr _) \<Rightarrow>
                 bnd (run (\<lambda>t d. (Inr (), d\<lparr>tb_migrations := tb_migrations d @ [name]\<rparr>))) (\<lambda>_.
                 apply_migrations M applied fs (now @ [name]))))"

definition run_pending_migrations :: "migration_dir \<Rightarrow> string list hub" where
  "run_pending_migrations M =
     bnd applied_migrations (\<lambda>applied.
     case md_list M of
       Inl e \<Rightarrow> raise (anyhow (''read migrations dir: '' @ error_text e))
     | Inr names \<Rightarrow> apply_migrations M applied (sort (filter (suffix SURQL) names)) [])"

text \<open>The names that a run has to apply.\<close>

definition pending_names :: "string list \<Rightarrow> string list \<Rightarrow> string list" where
  "pending_names applied files = filter (\<lambda>n. n \<notin> set applied) (map trim_surql files)"

lemma pending_names_simps [simp]:
  "pending_names applied [] = []"
  "pending_names applied (f # fs) = (if trim_surql f \<in> set applied then [] else [trim_surql f]) @ pending_names applied fs"
  by (simp_all add: pending_names_def)

lemma apply_migrations_alone:
  assumes "apply_migrations M applied fs now w = (r, w')" and "alone w"
    and exec: "\<And>text t d. tb_migrations (snd (md_exec M text t d)) = tb_migrations d"
  shows "alone w' \<and> (\<exists>k. tb_migrations (w_db w') = tb_migrations (w_db w) @ take k (pending_names applied fs) \<and>
    (\<forall>names. r = Inr names \<longrightarrow> length (pending_names applied fs) \<le> k \<and> names = now @ pending_names applied fs))"
  using assms(1,2)
proof (induction fs arbitrary: now w)
  case (Cons f fs)
  show ?case
  proof (cases "trim_surql f \<in> set applied")
    case True
    then show ?thesis using Cons by simp
  next
    case False
    let ?n = "trim_surql f"
    show ?thesis
    proof (cases "md_read M f")
      case (Inl e)
      then show ?thesis using Cons.prems False by (auto intro!: exI [of _ 0])
    next
      case (Inr surql)
      obtain q d where q: "md_exec M surql (w_now w) (w_db w) = (q, d)" by fastforce
      have d: "tb_migrations d = tb_migrations (w_db w)" using exec [of surql "w_now w" "w_db w"] q by simp
      show ?thesis
      proof (cases q)
        case (Inl e)
        then show ?thesis using Cons.prems False Inr q d by (auto simp: Let_def quiet intro!: exI [of _ 0])
      next
        case (Inr u)
        let ?w = "w\<lparr>w_db := d\<lparr>tb_migrations := tb_migrations d @ [?n]\<rparr>\<rparr>"
        have "apply_migrations M applied fs (now @ [?n]) ?w = (r, w')"
          using Cons.prems False \<open>md_read M f = Inr surql\<close> q Inr by (simp add: Let_def quiet)
        from Cons.IH [OF this] Cons.prems(2) obtain k where k: "alone w'"
          "tb_migrations (w_db w') = tb_migrations d @ ?n # take k (pending_names applied fs)"
          "\<And>names. r = Inr names \<Longrightarrow> length (pending_names applied fs) \<le> k \<and> names = now @ ?n # pending_names applied fs"
          by auto
        then show ?thesis using False d by (intro conjI exI [of _ "Suc k"]) auto
      qed
    qed
  qed
qed auto

lemma apply_nothing: "pending_names applied fs = [] \<Longrightarrow> apply_migrations M applied fs now w = (Inr now, w)"
  by (induction fs arbitrary: now) (auto split: if_splits)

lemma pending_none: "set (map trim_surql fs) \<subseteq> set applied \<Longrightarrow> pending_names applied fs = []"
  by (auto simp: pending_names_def filter_empty_conv)

lemma run_pending_alone:
  assumes "alone w" and "md_list M = Inr files"
  shows "run_pending_migrations M w =
    apply_migrations M (tb_migrations (w_db w)) (sort (filter (suffix SURQL) files)) [] w"
  using assms by (simp add: run_pending_migrations_def applied_migrations_def quiet)

section \<open>Properties\<close>

text \<open>
  However many tasks check at the same time, the connection is rebuilt by at most one of them
  at a time, and only when nobody has rebuilt it since its own ping; an embedded database is
  never reopened; and whenever nobody is rebuilding, the generation counts the connections and
  so do the reconnects that \<open>/health\<close> reports.
\<close>

theorem connection_rebuilt_once:
  assumes "check_step\<^sup>*\<^sup>* (connected url) s"
  shows "(\<forall>i j. rebuilding (ds_phase s i) \<and> rebuilding (ds_phase s j) \<longrightarrow> i = j) \<and>
    (\<forall>i g. ds_phase s i = Opening g \<longrightarrow> ds_generation s = g) \<and>
    (\<not> is_remote (ds_url s) \<longrightarrow> ds_conn s = 0) \<and>
    (ds_lock s = None \<longrightarrow> ds_generation s = word_of_nat (ds_conn s) \<and> dh_reconnects (ds_health s) = ds_generation s)"
proof -
  have inv: "check_inv s" by (rule check_inv_run [OF assms])
  have "ds_generation s = g" if "ds_phase s i = Opening g" for i g
    using inv check_inv_lock(1) [OF inv that] by (auto simp: check_inv_def)
  then show ?thesis using inv by (auto simp: check_inv_def holder_phase_def)
qed

text \<open>
  A check that nobody disturbs is a run of the interleaved ones with a result that can be told: the
  database counts as reachable afterwards exactly when the first ping worked or, with a remote
  database, a new connection could be opened and the second ping worked; the generation grows by
  one exactly when a connection was opened.
\<close>

theorem lone_check_is_a_run:
  assumes "ds_phase s i = Idle" and "ds_lock s = None"
  shows "check_step\<^sup>*\<^sup>* s (checked i now first reopened second s) \<and>
    (dh_ok (ds_health (checked i now first reopened second s)) \<longleftrightarrow>
       ping_result first = Inr () \<or>
       is_remote (ds_url s) \<and> open_result reopened = Inr () \<and> ping_result second = Inr ()) \<and>
    ds_generation (checked i now first reopened second s) =
      ds_generation s + (if reopens (ds_url s) first reopened then 1 else 0)"
  using lone_check_runs [OF assms]
  by (auto simp: checked_def check_once_def reopens_def finish_def split: sum.splits)

text \<open>
  Kicks are never lost and never pile up: after any number of kicks, at least one, the next
  wait ends in a check; and without a new tick or kick at most the check owed to the kicks and the
  one owed to a due tick are run, however long the watchdog goes on.
\<close>

theorem kicks_lead_to_one_check:
  "\<exists>w'. watch_run (replicate (Suc n) Kick) w = Some w' \<and> wd_permit w' \<and> wd_checks w' = wd_checks w \<and>
     (\<forall>es w''. watch_run es w' = Some w'' \<and> Wake_kick \<notin> set es \<and> wd_phase w'' = Waiting \<longrightarrow>
        watch_step Wake_kick w'' \<noteq> None) \<and>
     (\<forall>es w''. watch_run es w' = Some w'' \<and> set es \<inter> {Kick, Tick} = {} \<longrightarrow>
        wd_checks w'' \<le> wd_checks w + 1 + (if wd_tick_due w then 1 else 0))"
proof -
  let ?w = "w\<lparr>wd_permit := True\<rparr>"
  have "wd_checks w'' \<le> wd_checks w + 1 + (if wd_tick_due w then 1 else 0)"
    if "watch_run es ?w = Some w''" "set es \<inter> {Kick, Tick} = {}" for es w''
    using watch_quiet_run [OF that] by (simp add: signals_def)
  moreover have "wd_permit w''" if "watch_run es ?w = Some w''" "Wake_kick \<notin> set es" for es w''
    using watch_run_permit [OF that(1) _ that(2)] by simp
  ultimately show ?thesis
    using kicks_once [of n w] by (intro exI [of _ ?w]) (auto simp del: replicate_Suc)
qed

lemma run_pending_result:
  assumes "alone w" and "md_list M = Inr files" and "run_pending_migrations M w = (r, w')"
    and "\<forall>text t d. tb_migrations (snd (md_exec M text t d)) = tb_migrations d"
  shows "(\<exists>k. tb_migrations (w_db w') = tb_migrations (w_db w) @
        take k (pending_names (tb_migrations (w_db w)) (sort (filter (suffix SURQL) files)))) \<and>
    (\<forall>names. r = Inr names \<longrightarrow>
        names = pending_names (tb_migrations (w_db w)) (sort (filter (suffix SURQL) files)) \<and>
        tb_migrations (w_db w') = tb_migrations (w_db w) @ names \<and> run_pending_migrations M w' = (Inr [], w'))"
proof -
  let ?fs = "sort (filter (suffix SURQL) files)" and ?done = "tb_migrations (w_db w)"
  have run: "apply_migrations M ?done ?fs [] w = (r, w')" using run_pending_alone [OF assms(1,2)] assms(3) by simp
  have exec: "\<And>text t d. tb_migrations (snd (md_exec M text t d)) = tb_migrations d" using assms(4) by blast
  obtain k where k: "alone w'" "tb_migrations (w_db w') = ?done @ take k (pending_names ?done ?fs)"
    "\<And>names. r = Inr names \<Longrightarrow> length (pending_names ?done ?fs) \<le> k \<and> names = pending_names ?done ?fs"
    using apply_migrations_alone [OF run assms(1) exec] by auto
  have "run_pending_migrations M w' = (Inr [], w')" if "r = Inr names" for names
  proof -
    have "tb_migrations (w_db w') = ?done @ pending_names ?done ?fs" using k(2) k(3) [OF that] by simp
    then have "set (map trim_surql ?fs) \<subseteq> set (tb_migrations (w_db w'))" by (auto simp: pending_names_def)
    from pending_none [OF this] show ?thesis by (simp add: run_pending_alone [OF k(1) assms(2)] apply_nothing)
  qed
  then show ?thesis using k by auto
qed

text \<open>
  migrations are applied in the order of their file names, each is recorded right after it ran,
  a failing one ends the run with everything before it recorded, and after a complete run another
  run applies nothing. The statements of a migration leave the record of migrations alone.
\<close>

theorem migrations_applied_in_order:
  assumes "alone w" and "md_list M = Inr files" and "run_pending_migrations M w = (r, w')"
    and "\<forall>text t d. tb_migrations (snd (md_exec M text t d)) = tb_migrations d"
  shows "(\<exists>k. tb_migrations (w_db w') = tb_migrations (w_db w) @
        take k (pending_names (tb_migrations (w_db w)) (sort (filter (suffix SURQL) files)))) \<and>
    (\<forall>names. r = Inr names \<longrightarrow>
        names = pending_names (tb_migrations (w_db w)) (sort (filter (suffix SURQL) files)) \<and>
        tb_migrations (w_db w') = tb_migrations (w_db w) @ names \<and> run_pending_migrations M w' = (Inr [], w'))"
  using assms by (rule run_pending_result)

section \<open>Concrete instances\<close>

text \<open>Two tasks find the same dead connection: the first rebuilds it, the second finds it rebuilt.\<close>

definition both_failed :: db_state where
  "both_failed = (connected ''ws://db'')\<lparr>ds_phase := ((\<lambda>_. Idle)(0 := WaitLock 0))(1 := WaitLock 0)\<rparr>"

definition one_rebuilt :: db_state where
  "one_rebuilt = both_failed\<lparr>ds_conn := 1, ds_generation := 1, ds_health := initial_health\<lparr>dh_reconnects := 1\<rparr>,
     ds_phase := ((\<lambda>_. Idle)(0 := Repinging))(1 := Repinging)\<rparr>"

lemma ping_times_out:
  assumes "ds_phase s i = Idle" and "is_remote (ds_url s)"
  shows "check_step\<^sup>*\<^sup>* s (enter i (WaitLock (ds_generation s)) s)"
  using failed_ping_waits [OF assms(1) _ assms(2), of None] by (simp add: ping_result_def)

lemma both_failed_reachable: "check_step\<^sup>*\<^sup>* (connected ''ws://db'') both_failed"
proof -
  let ?s1 = "enter 0 (WaitLock 0) (connected ''ws://db'')"
  have remote: "is_remote ''ws://db''" by (simp add: is_remote_def)
  have "check_step\<^sup>*\<^sup>* (connected ''ws://db'') ?s1"
    using ping_times_out [of "connected ''ws://db''" 0] remote by (simp add: connected_def)
  moreover have "check_step\<^sup>*\<^sup>* ?s1 both_failed"
    using ping_times_out [of ?s1 1] remote by (simp add: connected_def both_failed_def)
  ultimately show ?thesis by (rule rtranclp_trans)
qed

lemma one_rebuilt_reachable: "check_step\<^sup>*\<^sup>* both_failed one_rebuilt"
proof -
  let ?s1 = "enter 0 (Opening 0) both_failed\<lparr>ds_lock := Some 0\<rparr>"
  let ?s2 = "enter 0 (Swapped 0) ?s1\<lparr>ds_conn := Suc (ds_conn ?s1)\<rparr>"
  let ?s3 = "enter 0 Counted ?s2\<lparr>ds_generation := ds_generation ?s2 + 1\<rparr>"
  let ?s4 = "enter 0 Repinging ?s3\<lparr>ds_health := (ds_health ?s3)\<lparr>dh_reconnects := dh_reconnects (ds_health ?s3) + 1\<rparr>, ds_lock := None\<rparr>"
  let ?s5 = "enter 1 Repinging ?s4"
  have "check_step both_failed ?s1" by (rule Lock_fresh) (simp_all add: both_failed_def connected_def)
  moreover have "check_step ?s1 ?s2" by (rule Open_ok [where r = "Some (Inr ())"]) (simp_all add: open_result_def)
  moreover have "check_step ?s2 ?s3" by (rule Count) simp
  moreover have "check_step ?s3 ?s4" by (rule Report) simp
  moreover have "check_step ?s4 ?s5"
    by (rule Lock_stale [where g = 0]) (simp_all add: both_failed_def connected_def)
  moreover have "?s5 = one_rebuilt"
    by (simp add: one_rebuilt_def both_failed_def connected_def initial_health_def fun_eq_iff)
  ultimately show ?thesis by (metis (no_types, lifting) converse_rtranclp_into_rtranclp rtranclp.rtrancl_refl)
qed

theorem connection_rebuilt_witness:
  "check_step\<^sup>*\<^sup>* (connected ''ws://db'') one_rebuilt \<and> ds_conn one_rebuilt = 1 \<and>
   ds_generation one_rebuilt = word_of_nat (ds_conn one_rebuilt)"
  using connection_rebuilt_once [OF rtranclp_trans [OF both_failed_reachable one_rebuilt_reachable]]
    rtranclp_trans [OF both_failed_reachable one_rebuilt_reachable]
  by (simp add: one_rebuilt_def both_failed_def connected_def)

definition resting :: watchdog where
  "resting = \<lparr>wd_phase = Pausing, wd_permit = False, wd_tick_due = False, wd_checks = 0\<rparr>"

theorem kicks_witness:
  "\<exists>w' w''. watch_run [Kick, Kick] resting = Some w' \<and> watch_run [Pause_over] w' = Some w'' \<and>
     watch_step Wake_kick w'' \<noteq> None \<and> wd_checks w'' \<le> 1"
proof -
  obtain w' where w': "watch_run (replicate (Suc 1) Kick) resting = Some w'"
    "\<And>es w''. watch_run es w' = Some w'' \<Longrightarrow> Wake_kick \<notin> set es \<Longrightarrow> wd_phase w'' = Waiting \<Longrightarrow> watch_step Wake_kick w'' \<noteq> None"
    "\<And>es w''. watch_run es w' = Some w'' \<Longrightarrow> set es \<inter> {Kick, Tick} = {} \<Longrightarrow>
       wd_checks w'' \<le> wd_checks resting + 1 + (if wd_tick_due resting then 1 else 0)"
    using kicks_lead_to_one_check [of 1 resting] by metis
  then have e: "w' = resting\<lparr>wd_permit := True\<rparr>" by simp
  then have r: "watch_run [Pause_over] w' = Some (resting\<lparr>wd_permit := True, wd_phase := Waiting\<rparr>)"
    by (simp add: resting_def)
  have "watch_run [Kick, Kick] resting = Some w'" by (simp add: e)
  moreover have "watch_step Wake_kick (resting\<lparr>wd_permit := True, wd_phase := Waiting\<rparr>) \<noteq> None"
    by (rule w'(2) [OF r]) simp_all
  moreover have "wd_checks (resting\<lparr>wd_permit := True, wd_phase := Waiting\<rparr>) \<le> 1"
    using w'(3) [OF r] by (simp add: resting_def)
  ultimately show ?thesis using r by blast
qed

definition two_migrations :: migration_dir where
  "two_migrations = \<lparr>md_list = Inr [''002_app.surql'', ''README.md'', ''001_event.surql''],
     md_read = (\<lambda>f. Inr f), md_exec = (\<lambda>text t d. (Inr (), d))\<rparr>"

lemma two_migrations_run:
  obtains w' where "run_pending_migrations two_migrations (a_world (empty_db\<lparr>tb_migrations := [''001_event'']\<rparr>)) = (Inr [''002_app''], w')"
proof -
  have files: "sort (filter (suffix SURQL) [''002_app.surql'', ''README.md'', ''001_event.surql'']) = [''001_event.surql'', ''002_app.surql'']"
    by code_simp
  have trims: "trim_surql ''001_event.surql'' = ''001_event''" "trim_surql ''002_app.surql'' = ''002_app''"
    by code_simp+
  show thesis
    using that run_pending_alone [of "a_world (empty_db\<lparr>tb_migrations := [''001_event'']\<rparr>)" two_migrations] files trims
    by (simp add: two_migrations_def Let_def quiet)
qed

theorem migrations_witness:
  "\<exists>w'. run_pending_migrations two_migrations (a_world (empty_db\<lparr>tb_migrations := [''001_event'']\<rparr>)) = (Inr [''002_app''], w') \<and>
     run_pending_migrations two_migrations w' = (Inr [], w')"
proof -
  obtain w' where r: "run_pending_migrations two_migrations (a_world (empty_db\<lparr>tb_migrations := [''001_event'']\<rparr>)) = (Inr [''002_app''], w')"
    by (rule two_migrations_run)
  then show ?thesis
    using migrations_applied_in_order [OF alone_a_world _ r] by (auto simp: two_migrations_def)
qed

theorem lone_check_witness:
  "check_step\<^sup>*\<^sup>* (connected ''ws://db'') (checked 0 7 None (Some (Inr ())) (Some (Inr ())) (connected ''ws://db'')) \<and>
   dh_ok (ds_health (checked 0 7 None (Some (Inr ())) (Some (Inr ())) (connected ''ws://db'')))"
  using lone_check_is_a_run [of "connected ''ws://db''" 0 7 None "Some (Inr ())" "Some (Inr ())"]
  by (simp add: connected_def is_remote_def ping_result_def open_result_def)

end
