(* ===== verification/Hub_Serve.thy ===== *)
theory Hub_Serve
  imports Pages Unison Db_Watch
begin

text \<open>
  The service as a whole: health (\<open>crates/chronista-hub-server/src/app.rs\<close>), every endpoint behind
  the router, the guard and the error answers, and the contract of a database invariant: what
  each single write of the program must preserve, so that all that HTTP requests, the consumer
  and the nodes channel do preserves it.
\<close>

section \<open>Health\<close>

definition json_opt_int :: "int option \<Rightarrow> json" where
  "json_opt_int n = (case n of None \<Rightarrow> JNull | Some n \<Rightarrow> JInt n)"

definition db_health_json :: "db_health \<Rightarrow> json" where
  "db_health_json h = JObj [(''ok'', JBool (dh_ok h)), (''checkedAt'', json_opt_int (dh_checked_at h)),
     (''lastError'', json_opt (dh_last_error h)), (''lastErrorAt'', json_opt_int (dh_last_error_at h)),
     (''reconnects'', JInt (uint (dh_reconnects h)))]"

definition root_endpoint :: "app_state \<Rightarrow> response hub" where
  "root_endpoint st = ret (json_response 200 [(''service'', JStr (st_service st)), (''version'', JStr (st_version st))])"

definition health_body :: "app_state \<Rightarrow> db_health \<Rightarrow> string \<Rightarrow> nat \<Rightarrow> response hub" where
  "health_body st h status code = bnd clock_ms (\<lambda>ts.
     ret (json_response code [(''status'', JStr status), (''service'', JStr (st_service st)),
       (''version'', JStr (st_version st)), (''timestamp'', JInt ts), (''db'', db_health_json h)]))"

definition health :: "app_state \<Rightarrow> db_health \<Rightarrow> response hub" where
  "health st h = health_body st h ''ok'' 200"

definition health_deep :: "app_state \<Rightarrow> db_health \<Rightarrow> response hub" where
  "health_deep st h = (if dh_ok h then health_body st h ''ok'' 200 else health_body st h ''degraded'' 503)"

section \<open>Serving a request\<close>

text \<open>
  What a request sees of the server: its state, the health record at that moment, the script of
  the settings page.
\<close>

record server =
  sv_app :: app_state
  sv_health :: db_health
  sv_js :: string

definition bare :: "nat \<Rightarrow> response" where
  "bare status = \<lparr>rs_status = status, rs_headers = [], rs_body = NoBody, rs_db_unavailable = False\<rparr>"

definition with_query :: "request \<Rightarrow> (tree_query \<Rightarrow> response hub) \<Rightarrow> response hub" where
  "with_query rq f = (case decode_tree_query rq of None \<Rightarrow> ret query_rejection | Some q \<Rightarrow> f q)"

fun handle_request :: "server \<Rightarrow> endpoint \<Rightarrow> request \<Rightarrow> response hub" where
  "handle_request sv Root rq = root_endpoint (sv_app sv)"
| "handle_request sv Health rq = health (sv_app sv) (sv_health sv)"
| "handle_request sv HealthDeep rq = health_deep (sv_app sv) (sv_health sv)"
| "handle_request sv Start rq = start (sv_app sv) rq"
| "handle_request sv Settings rq = settings_page (sv_app sv) (sv_js sv)"
| "handle_request sv (TreeByHandle h) rq = with_query rq (tree_by_handle h)"
| "handle_request sv (TreeByPath h p) rq = with_query rq (tree_by_path h p)"
| "handle_request sv (ResourceById i) rq = resource_by_id i"
| "handle_request sv ListApps rq = list_apps"
| "handle_request sv Me rq = me (sv_app sv) rq"
| "handle_request sv PatchMe rq = patch_me (sv_app sv) rq"
| "handle_request sv ClaimHandle rq = claim_handle_endpoint (sv_app sv) rq"
| "handle_request sv (UserByHandle h) rq = user_by_handle (sv_app sv) h"
| "handle_request sv MyPublishers rq = my_publishers (sv_app sv) rq"
| "handle_request sv (PublicationsOf h) rq = publications_of (sv_app sv) h"
| "handle_request sv (PutPublication h s) rq = put_publication_endpoint (sv_app sv) h s rq"
| "handle_request sv (DeletePublication h s) rq = delete_publication_endpoint (sv_app sv) h s rq"
| "handle_request sv (AppManifest a) rq = app_manifest_endpoint a"
| "handle_request sv PostEvents rq = post_events (sv_app sv) rq"
| "handle_request sv (PutApp a) rq = put_app_endpoint (sv_app sv) a rq"
| "handle_request sv (ListTokens a) rq = list_tokens_endpoint (sv_app sv) a rq"
| "handle_request sv (IssueToken a) rq = issue_token_endpoint (sv_app sv) a rq"
| "handle_request sv (RotateToken a) rq = rotate_token_endpoint (sv_app sv) a rq"
| "handle_request sv (RevokeToken a i) rq = revoke_token_endpoint (sv_app sv) a i rq"
| "handle_request sv (Profile at) rq = profile (sv_app sv) at"
| "handle_request sv (ProfileSlash at) rq = profile_slash at"
| "handle_request sv (Publication at s) rq = publication_page (sv_app sv) at s"
| "handle_request sv (PublicationSlash at s) rq = publication_slash at s"
| "handle_request sv MethodNotAllowed rq = ret (bare 405)"
| "handle_request sv NotFound rq = ret (bare 404)"

text \<open>A HEAD request gets the answer of the GET without its body.\<close>

definition serve ::
  "(nat \<Rightarrow> response hub \<Rightarrow> response option hub) \<Rightarrow> server \<Rightarrow> meth \<Rightarrow> string list \<Rightarrow> request \<Rightarrow> response hub" where
  "serve timeout sv m path rq =
     bnd (guard_db timeout m (respond (handle_request sv (route m path) rq))) (\<lambda>r.
     ret (if m = HEAD then r\<lparr>rs_body := NoBody\<rparr> else r))"

section \<open>What the pages and the frame keep\<close>

lemma keeps_pages [keeps]:
  "keeps I (start st rq)" "keeps I (settings_page st js)" "keeps I (profile st at)" "keeps I (profile_slash at)"
  "keeps I (publication_page st at s)" "keeps I (publication_slash at s)"
  "keeps I (root_endpoint st)" "keeps I (health st h)" "keeps I (health_deep st h)"
  unfolding start_def settings_page_def profile_def profile_slash_def publication_page_def publication_slash_def
    moved_page_def root_endpoint_def health_def health_deep_def health_body_def
  by (intro keeps | simp split: option.split)+

lemma keeps_with_query [keeps]: "(\<And>q. keeps I (f q)) \<Longrightarrow> keeps I (with_query rq f)"
  unfolding with_query_def by (intro keeps)

text \<open>\<open>limits timeout\<close>: running a step with a time limit does nothing that the step does not do.\<close>

definition limits :: "(nat \<Rightarrow> response hub \<Rightarrow> response option hub) \<Rightarrow> (db \<Rightarrow> bool) \<Rightarrow> bool" where
  "limits timeout I \<longleftrightarrow> (\<forall>n m. keeps I m \<longrightarrow> keeps I (timeout n m))"

lemma keeps_guard:
  assumes "limits timeout I" and "keeps I m"
  shows "keeps I (guard_db timeout meth m)"
  unfolding guard_db_def using assms by (intro keeps) (simp add: limits_def)

lemma serve_keeps:
  assumes "limits timeout I" and "keeps I (handle_request sv (route m path) rq)"
  shows "keeps I (serve timeout sv m path rq)"
  unfolding serve_def using assms by (intro keeps keeps_guard)

section \<open>Who can reach which write\<close>

definition admin_only :: "endpoint \<Rightarrow> bool" where
  "admin_only e \<longleftrightarrow> (case e of PutApp _ \<Rightarrow> True | ListTokens _ \<Rightarrow> True | IssueToken _ \<Rightarrow> True | RotateToken _ \<Rightarrow> True
     | RevokeToken _ _ \<Rightarrow> True | _ \<Rightarrow> False)"

text \<open>The endpoints that may write, the two reads among them that enter a newcomer in the roster.\<close>

definition may_write :: "endpoint \<Rightarrow> bool" where
  "may_write e \<longleftrightarrow> (case e of Me \<Rightarrow> True | PatchMe \<Rightarrow> True | ClaimHandle \<Rightarrow> True | MyPublishers \<Rightarrow> True
     | PutPublication _ _ \<Rightarrow> True | DeletePublication _ _ \<Rightarrow> True | PostEvents \<Rightarrow> True | PutApp _ \<Rightarrow> True
     | IssueToken _ \<Rightarrow> True | RotateToken _ \<Rightarrow> True | RevokeToken _ _ \<Rightarrow> True | _ \<Rightarrow> False)"

lemma admin_gate:
  assumes "admin_only e" and "check_admin (sv_app sv) rq = Some resp"
  shows "handle_request sv e rq = ret resp"
  using assms
  by (cases e) (simp_all add: admin_only_def put_app_endpoint_def list_tokens_endpoint_def issue_token_endpoint_def
      rotate_token_endpoint_def revoke_token_endpoint_def)

lemma handle_reads: "\<not> may_write e \<Longrightarrow> keeps I (handle_request sv e rq)"
  by (cases e) (simp_all add: may_write_def keeps del: ret_apply)

section \<open>The contract of an invariant\<close>

text \<open>Each assumption is one write of the program; what the code has checked before it is its premise.\<close>

locale public_invariant =
  fixes I :: "db \<Rightarrow> bool"
  assumes user_created: "I d \<Longrightarrow> I (snd (create_user u s d))"
    and handle_claimed: "canonical_handle h = Some h \<Longrightarrow> I d \<Longrightarrow> I (snd (claim_update u h d))"
    and handle_renamed: "canonical_handle h = Some h \<Longrightarrow> I d \<Longrightarrow> I (snd (rename_tx u old h t d))"
    and name_changed: "I d \<Longrightarrow> I (d\<lparr>tb_user := tab_update u
      (\<lambda>r. if ur_account_type r = ''user'' then r\<lparr>ur_display_name := n\<rparr> else r) (tb_user d)\<rparr>)"
    and event_logged: "validate_envelope v = Inr ev \<Longrightarrow> I d \<Longrightarrow> I (snd (create_event (new_event_row ev now) d))"
    and publication_put: "canonical_slug (pb_slug p) = Some (pb_slug p) \<Longrightarrow> I d \<Longrightarrow> I (snd (upsert_publication p a t d))"
    and publication_removed: "I d \<Longrightarrow> I (d\<lparr>tb_publication := tab_del k (tb_publication d)\<rparr>)"
begin

lemma user_handlers:
  "keeps I (me st rq)" "keeps I (patch_me st rq)" "keeps I (claim_handle_endpoint st rq)" "keeps I (my_publishers st rq)"
  by (auto intro!: user_endpoints_keep keeps_my_publishers keeps_ensure keeps_claim keeps_rename keeps_display
      user_created handle_claimed handle_renamed name_changed)

lemma publication_handlers:
  "keeps I (put_publication_endpoint st h s rq)" "keeps I (delete_publication_endpoint st h s rq)"
  by (auto intro!: keeps_put_publication_endpoint keeps_delete_publication_endpoint keeps_put_publication
      keeps_delete_publication publication_put publication_removed)

lemma event_handler: "keeps I (post_events st rq)"
  by (auto intro!: keeps_post_events keeps_append event_logged)

lemma public_handlers: "\<not> admin_only e \<Longrightarrow> keeps I (handle_request sv e rq)"
  by (cases e)
    (simp_all add: keeps user_handlers publication_handlers event_handler admin_only_def del: ret_apply)

lemma locked_handlers:
  assumes "check_admin (sv_app sv) rq \<noteq> None"
  shows "keeps I (handle_request sv e rq)"
proof (cases "admin_only e")
  case True
  then show ?thesis using assms admin_gate by (auto simp: keeps simp del: ret_apply)
qed (rule public_handlers)

end

locale http_invariant = public_invariant +
  assumes app_registered: "app_entry_ok e \<Longrightarrow> I d \<Longrightarrow>
      I (d\<lparr>tb_app := tab_put (ae_app_id e) (app_content old_row e) (tb_app d)\<rparr>)"
    and token_created: "I d \<Longrightarrow> I (d\<lparr>tb_token := snd (create_token row (tb_token d))\<rparr>)"
    and tokens_rotated: "I d \<Longrightarrow> I (snd (rotate_tx hash app scopes note t d))"
    and tokens_revoked: "I d \<Longrightarrow> I (d\<lparr>tb_token := revoke_tokens app i t (tb_token d)\<rparr>)"
begin

lemma admin_handlers:
  "keeps I (put_app_endpoint st a rq)" "keeps I (issue_token_endpoint st a rq)"
  "keeps I (rotate_token_endpoint st a rq)" "keeps I (revoke_token_endpoint st a i rq)"
  by (auto intro!: keeps_put_app_endpoint keeps_put_app keeps_issue_endpoint keeps_issue
      keeps_rotate_endpoint keeps_rotate keeps_revoke_endpoint keeps_revoke
      app_registered token_created tokens_rotated tokens_revoked)

lemma handle_keeps: "keeps I (handle_request sv e rq)"
proof (cases "admin_only e")
  case True
  then show ?thesis by (cases e) (simp_all add: keeps admin_handlers admin_only_def)
qed (rule public_handlers)

end

text \<open>The writes of the consumer and of the nodes channel.\<close>

locale hub_invariant = http_invariant +
  assumes resource_applied: "I d \<Longrightarrow> I (d\<lparr>tb_resource := tab_put (res_id r) r (tb_resource d)\<rparr>)"
    and resource_removed: "I d \<Longrightarrow> I (d\<lparr>tb_resource := tab_del i (tb_resource d)\<rparr>)"
    and event_processed: "I d \<Longrightarrow> I (d\<lparr>tb_event := tab_update i (processed_row now) (tb_event d)\<rparr>)"
    and failure_recorded: "I d \<Longrightarrow> I (d\<lparr>tb_event := tab_update i (dead_letter MAX_RETRIES t)
      (tab_update i (count_failure err) (tb_event d))\<rparr>)"
begin

lemma consumer_keeps: "keeps I (consumer_loop ss)"
  by (intro keeps_consumer_loop keeps_tick keeps_apply_event keeps_mark keeps_record_failure
      event_processed failure_recorded)
    (auto simp: change_of_def intro!: resource_applied resource_removed)

lemma nodes_keeps: "keeps I (nodes_reply x p ar method payload live)"
  by (intro keeps_handle_nodes keeps_register keeps_unregister) (auto intro: resource_applied resource_removed)

end

end
