(* ===== verification/Hub_Invariants.thy ===== *)
theory Hub_Invariants
  imports Hub_Serve
begin

text \<open>
  The invariants of the tables, each shown to satisfy the contract of an invariant, and the
  invariant of the whole database as their conjunction.
\<close>

section \<open>Which table a write touches\<close>

lemma touches_user:
  assumes "\<And>t. I (d\<lparr>tb_user := t\<rparr>)"
  shows "I (snd (create_user u s d))" "I (snd (claim_update u h d))"
  using assms assms [of "tb_user d"] by (simp_all add: create_user_def claim_update_def split: option.split)

lemma touches_rename:
  assumes "\<And>t t'. I (d\<lparr>tb_user := t, tb_reserve := t'\<rparr>)"
  shows "I (snd (rename_tx u old h t d))"
  using assms assms [of "tb_reserve d" "tb_user d"] by (simp add: rename_tx_def split: option.split)

lemma touches_event:
  assumes "\<And>t. I (d\<lparr>tb_event := t\<rparr>)"
  shows "I (snd (create_event row d))"
  using assms assms [of "tb_event d"] by (simp add: create_event_def Let_def)

lemma touches_publication:
  assumes "\<And>t. I (d\<lparr>tb_publication := t\<rparr>)"
  shows "I (snd (upsert_publication p a t d))"
  using assms assms [of "tb_publication d"] by (simp add: upsert_publication_def Let_def)

lemma touches_token:
  assumes "\<And>t. I (d\<lparr>tb_token := t\<rparr>)"
  shows "I (snd (rotate_tx hash app scopes note t d))"
  using assms assms [of "tb_token d"] by (simp add: rotate_tx_def Let_def split: prod.split sum.split)

lemmas touches = touches_user touches_rename touches_event touches_publication touches_token

section \<open>Which tables an invariant reads\<close>

lemma roster_canonical_frame [simp]:
  "roster_canonical (d\<lparr>tb_resource := r\<rparr>) = roster_canonical d" "roster_canonical (d\<lparr>tb_event := e\<rparr>) = roster_canonical d"
  "roster_canonical (d\<lparr>tb_app := a\<rparr>) = roster_canonical d" "roster_canonical (d\<lparr>tb_publication := p\<rparr>) = roster_canonical d"
  "roster_canonical (d\<lparr>tb_token := t\<rparr>) = roster_canonical d"
  by (simp_all add: roster_canonical_def roster_inv_def)

lemma publication_inv_frame [simp]:
  "publication_inv (d\<lparr>tb_resource := r\<rparr>) = publication_inv d" "publication_inv (d\<lparr>tb_event := e\<rparr>) = publication_inv d"
  "publication_inv (d\<lparr>tb_app := a\<rparr>) = publication_inv d" "publication_inv (d\<lparr>tb_user := u\<rparr>) = publication_inv d"
  "publication_inv (d\<lparr>tb_reserve := v\<rparr>) = publication_inv d" "publication_inv (d\<lparr>tb_token := t\<rparr>) = publication_inv d"
  by (simp_all add: publication_inv_def)

lemma app_roster_ok_frame [simp]:
  "app_roster_ok (d\<lparr>tb_resource := r\<rparr>) = app_roster_ok d" "app_roster_ok (d\<lparr>tb_event := e\<rparr>) = app_roster_ok d"
  "app_roster_ok (d\<lparr>tb_publication := p\<rparr>) = app_roster_ok d" "app_roster_ok (d\<lparr>tb_user := u\<rparr>) = app_roster_ok d"
  "app_roster_ok (d\<lparr>tb_reserve := v\<rparr>) = app_roster_ok d" "app_roster_ok (d\<lparr>tb_token := t\<rparr>) = app_roster_ok d"
  by (simp_all add: app_roster_ok_def app_inv_def)

lemma token_inv_frame [simp]:
  "token_inv (d\<lparr>tb_resource := r\<rparr>) = token_inv d" "token_inv (d\<lparr>tb_event := e\<rparr>) = token_inv d"
  "token_inv (d\<lparr>tb_publication := p\<rparr>) = token_inv d" "token_inv (d\<lparr>tb_user := u\<rparr>) = token_inv d"
  "token_inv (d\<lparr>tb_reserve := v\<rparr>) = token_inv d" "token_inv (d\<lparr>tb_app := a\<rparr>) = token_inv d"
  by (simp_all add: token_inv_def)

lemma event_inv_frame [simp]:
  "event_inv (d\<lparr>tb_resource := r\<rparr>) = event_inv d" "event_inv (d\<lparr>tb_token := t\<rparr>) = event_inv d"
  "event_inv (d\<lparr>tb_publication := p\<rparr>) = event_inv d" "event_inv (d\<lparr>tb_user := u\<rparr>) = event_inv d"
  "event_inv (d\<lparr>tb_reserve := v\<rparr>) = event_inv d" "event_inv (d\<lparr>tb_app := a\<rparr>) = event_inv d"
  by (simp_all add: event_inv_def)

lemma resource_inv_frame [simp]:
  "resource_inv (d\<lparr>tb_event := e\<rparr>) = resource_inv d" "resource_inv (d\<lparr>tb_token := t\<rparr>) = resource_inv d"
  "resource_inv (d\<lparr>tb_publication := p\<rparr>) = resource_inv d" "resource_inv (d\<lparr>tb_user := u\<rparr>) = resource_inv d"
  "resource_inv (d\<lparr>tb_reserve := v\<rparr>) = resource_inv d" "resource_inv (d\<lparr>tb_app := a\<rparr>) = resource_inv d"
  by (simp_all add: resource_inv_def)

section \<open>Each invariant satisfies the contract\<close>

interpretation roster: hub_invariant roster_canonical
  by unfold_locales (auto intro: roster_canonical_writes roster_canonical_display touches)

interpretation publications: hub_invariant publication_inv
  by unfold_locales (auto intro: publication_inv_upsert publication_inv_del touches)

interpretation apps: hub_invariant app_roster_ok
  by unfold_locales (auto intro: app_roster_ok_put touches)

lemma token_writes_ok:
  "token_inv d \<Longrightarrow> token_inv (d\<lparr>tb_token := snd (create_token row (tb_token d))\<rparr>)"
  "token_inv d \<Longrightarrow> token_inv (d\<lparr>tb_token := revoke_tokens app i t (tb_token d)\<rparr>)"
  by (simp_all add: token_inv_def create_token_ok token_table_ok_revoke)

interpretation tokens: hub_invariant token_inv
  by unfold_locales (auto intro: token_writes_ok rotate_tx_inv touches)

interpretation events: hub_invariant event_inv
  by unfold_locales (auto intro: event_inv_create event_inv_update event_inv_failure touches)

interpretation resources: hub_invariant resource_inv
  by unfold_locales (auto intro: resource_inv_put resource_inv_del touches)

section \<open>The invariant of the whole database\<close>

lemmas public_contract = public_invariant.user_created public_invariant.handle_claimed public_invariant.handle_renamed
  public_invariant.name_changed public_invariant.event_logged public_invariant.publication_put
  public_invariant.publication_removed

lemmas http_contract = http_invariant.app_registered http_invariant.token_created http_invariant.tokens_rotated
  http_invariant.tokens_revoked

lemmas hub_contract = hub_invariant.resource_applied hub_invariant.resource_removed hub_invariant.event_processed
  hub_invariant.failure_recorded

lemma hub_invariant_conj:
  assumes "hub_invariant I" and "hub_invariant J"
  shows "hub_invariant (\<lambda>d. I d \<and> J d)"
proof -
  note h = assms [THEN hub_invariant.axioms(1)]
  note p = h [THEN http_invariant.axioms(1)]
  show ?thesis
    by unfold_locales
      (blast intro: public_contract [OF p(1)] public_contract [OF p(2)] http_contract [OF h(1)] http_contract [OF h(2)]
        hub_contract [OF assms(1)] hub_contract [OF assms(2)])+
qed

definition hub_inv :: "db \<Rightarrow> bool" where
  "hub_inv d \<longleftrightarrow> roster_canonical d \<and> publication_inv d \<and> app_roster_ok d \<and> token_inv d \<and> event_inv d \<and>
     resource_inv d"

interpretation hub: hub_invariant hub_inv
  unfolding hub_inv_def [abs_def]
  by (intro hub_invariant_conj roster.hub_invariant_axioms publications.hub_invariant_axioms
      apps.hub_invariant_axioms tokens.hub_invariant_axioms events.hub_invariant_axioms
      resources.hub_invariant_axioms)

lemma hub_inv_empty: "hub_inv empty_db"
proof -
  have "app_roster_ok empty_db" "resource_inv empty_db"
    by (simp_all add: app_roster_ok_def app_inv_def resource_inv_def empty_db_def)
  moreover have "roster_canonical empty_db"
    using roster_inv_empty by (simp add: roster_canonical_def empty_db_def)
  ultimately show ?thesis
    by (simp add: hub_inv_def publication_inv_empty token_inv_empty event_inv_empty)
qed

end
