(* ===== verification/Hub_Access.thy ===== *)
theory Hub_Access
  imports Hub_Invariants
begin

text \<open>
  Who can change what: which requests write nothing at all, which cannot touch the applications
  and their tokens, and that nobody changes another user's row.
\<close>

section \<open>Requests that write nothing\<close>

definition harmless :: "endpoint \<Rightarrow> bool" where
  "harmless e \<longleftrightarrow> \<not> may_write e \<or> e = Me \<or> e = MyPublishers"

lemma harmless_on:
  "read_only m \<Longrightarrow> list_all (\<lambda>(m', e). m' = GET \<longrightarrow> harmless e) table \<Longrightarrow> harmless (on m table)"
  by (auto simp: on_def read_only_def list_all_iff harmless_def may_write_def split: option.split dest!: map_of_SomeD)

lemma harmless_route:
  assumes "read_only m"
  shows "harmless (route m path)"
proof -
  note choice = if_split [of harmless, THEN iffD2]
  have "harmless NotFound" by (simp add: harmless_def may_write_def)
  then show ?thesis
    unfolding route_def
    by (intro choice harmless_on [OF assms] conjI impI allI | split list.split
        | simp (no_asm) add: harmless_def may_write_def)+
qed

text \<open>A request without credentials: no bearer, no application token, not the administration key.\<close>

definition anonymous :: "server \<Rightarrow> request \<Rightarrow> bool" where
  "anonymous sv rq \<longleftrightarrow> rq_authorization rq = None \<and> rq_app_token rq = None \<and> check_admin (sv_app sv) rq \<noteq> None"

lemma authenticate_nobody: "authenticate x ver s None None accept req = ret (Inl Unauthorized)"
  by (rule ext) (simp add: authenticate_def user_principal_def)

lemma nobody_signed_in: "rq_authorization rq = None \<Longrightarrow> with_user st rq f = ret unauthorized"
  by (rule ext) (simp add: with_user_def or_return_def require_user_def authenticate_nobody)

lemma nobody_is_app: "rq_authorization rq = None \<Longrightarrow> rq_app_token rq = None \<Longrightarrow> require_app st rq s = ret (Inl unauthorized)"
  by (rule ext) (simp add: require_app_def authenticate_nobody)

lemma anonymous_keeps:
  assumes "anonymous sv rq"
  shows "keeps I (handle_request sv e rq)"
proof (cases "admin_only e \<or> \<not> may_write e")
  case True
  then show ?thesis
    using assms admin_gate [of e sv rq] handle_reads [of e] by (auto simp: anonymous_def keeps simp del: ret_apply)
next
  case False
  then show ?thesis
    using assms
    by (cases e) (auto simp: anonymous_def admin_only_def may_write_def me_def patch_me_def claim_handle_endpoint_def
        my_publishers_def nobody_signed_in put_publication_endpoint_def delete_publication_endpoint_def nobody_is_app
        or_return_def post_events_def authenticate_nobody simp del: ret_apply intro!: keeps split: option.split)
qed

section \<open>The applications and their tokens\<close>

interpretation locked: public_invariant "\<lambda>d. tb_app d = a \<and> tb_token d = t" for a t
  by unfold_locales (auto simp: create_user_def claim_update_def rename_tx_def create_event_def upsert_publication_def
      Let_def split: option.splits)

section \<open>A user's own row\<close>

definition row_kept :: "string \<Rightarrow> user_row \<Rightarrow> db \<Rightarrow> bool" where
  "row_kept v row d \<longleftrightarrow> roster_inv d \<and> tab_get (tb_user d) v = Some row"

lemma row_kept_frame [simp]:
  "row_kept v row (d\<lparr>tb_resource := r\<rparr>) = row_kept v row d" "row_kept v row (d\<lparr>tb_event := e\<rparr>) = row_kept v row d"
  "row_kept v row (d\<lparr>tb_app := a\<rparr>) = row_kept v row d" "row_kept v row (d\<lparr>tb_publication := p\<rparr>) = row_kept v row d"
  "row_kept v row (d\<lparr>tb_token := t\<rparr>) = row_kept v row d"
  by (simp_all add: row_kept_def roster_inv_def)

lemma row_kept_writes:
  "row_kept v row d \<Longrightarrow> row_kept v row (snd (create_user u s d))"
  "u \<noteq> v \<Longrightarrow> row_kept v row d \<Longrightarrow> row_kept v row (snd (claim_update u h d))"
  "u \<noteq> v \<Longrightarrow> row_kept v row d \<Longrightarrow> row_kept v row (snd (rename_tx u old h t d))"
  "u \<noteq> v \<Longrightarrow> row_kept v row d \<Longrightarrow> row_kept v row (d\<lparr>tb_user := tab_update u
      (\<lambda>r. if ur_account_type r = ''user'' then r\<lparr>ur_display_name := n\<rparr> else r) (tb_user d)\<rparr>)"
  using roster_inv_create [of d u s] roster_inv_claim [of d u h] roster_inv_rename [of d u old h t] roster_inv_display [of d u n]
  by (auto simp: row_kept_def create_user_def claim_update_def rename_tx_def tab.get_put tab_get_update split: option.splits if_splits)

text \<open>The answer of a first contact is the row of another user when another subject asks.\<close>

lemma other_user:
  assumes "ur_creo_sub row = Some s" and "ur_usr_id row = Some v" and "v \<noteq> []" and "sub \<noteq> s"
  shows "returns (row_kept v row) (ensure_user x sub) (\<lambda>e. ue_usr_id e \<noteq> v)"
proof (rule ensure_user_returns)
  fix d r
  assume I: "row_kept v row d" and "find_user (\<lambda>r. ur_creo_sub r = Some sub) d = Some r"
  then obtain k where r: "ur_creo_sub r = Some sub" "(k, r) \<in> set (tb_user d)"
    by (auto dest: find_user_Some)
  have inv: "roster_inv d" and row: "tab_get (tb_user d) v = Some row" using I by (simp_all add: row_kept_def)
  have "k \<noteq> v"
    using r row inv assms(1,4) tab_ok_unique [of "tb_user d" v r row] by (auto simp: roster_inv_def tab_get_set)
  moreover have "ur_usr_id r = Some k \<or> ur_usr_id r = None"
    using inv r(2) by (auto simp: roster_inv_def user_row_ok_def dest: rows_okD)
  ultimately show "ue_usr_id (user_of x r) \<noteq> v" using assms(3) by (auto simp: user_of_def)
qed (rule row_kept_writes(1))

lemma with_user_signed_in:
  assumes "\<And>sub. signed_in st rq = Some sub \<Longrightarrow> keeps I (f sub)"
  shows "keeps I (with_user st rq f)"
proof (cases "signed_in st rq")
  case None
  then have "with_user st rq f = ret unauthorized" by (intro ext) (simp add: with_user_eq)
  then show ?thesis by (simp add: keeps_ret del: ret_apply)
next
  case (Some sub)
  then have "with_user st rq f = f sub" by (intro ext) (simp add: with_user_eq)
  then show ?thesis using assms [OF Some] by simp
qed

lemma foreign_user_handlers:
  assumes "ur_creo_sub row = Some s" and "ur_usr_id row = Some v" and "v \<noteq> []" and "signed_in st rq \<noteq> Some s"
  shows "keeps (row_kept v row) (me st rq)" "keeps (row_kept v row) (my_publishers st rq)"
    "keeps (row_kept v row) (patch_me st rq)" "keeps (row_kept v row) (claim_handle_endpoint st rq)"
proof -
  have other: "returns (row_kept v row) (ensure_user x sub) (\<lambda>e. ue_usr_id e \<noteq> v)" if "signed_in st rq = Some sub" for x sub
    by (rule other_user [OF assms(1-3)]) (use that assms(4) in simp)
  have ensure: "keeps (row_kept v row) (ensure_user x sub)" for x sub by (intro keeps_ensure row_kept_writes)
  note steps = keeps keeps_bnd_returns [OF other ensure] ensure keeps_claim keeps_rename keeps_display row_kept_writes
  show "keeps (row_kept v row) (me st rq)" "keeps (row_kept v row) (my_publishers st rq)"
    unfolding me_def my_publishers_def by (intro with_user_signed_in steps)+
  show "keeps (row_kept v row) (patch_me st rq)"
    unfolding patch_me_def Let_def by (intro with_user_signed_in keeps_option keeps_ret keeps_bnd_returns [OF other ensure] steps)
  show "keeps (row_kept v row) (claim_handle_endpoint st rq)"
    unfolding claim_handle_endpoint_def by (intro with_user_signed_in keeps_option keeps_ret keeps_bnd_returns [OF other ensure] steps)
qed

lemma other_handlers_keep_row:
  "keeps (row_kept v row) (put_publication_endpoint st h p rq)" "keeps (row_kept v row) (delete_publication_endpoint st h p rq)"
  "keeps (row_kept v row) (post_events st rq)" "keeps (row_kept v row) (put_app_endpoint st a rq)"
  "keeps (row_kept v row) (issue_token_endpoint st a rq)" "keeps (row_kept v row) (rotate_token_endpoint st a rq)"
  "keeps (row_kept v row) (revoke_token_endpoint st a i rq)"
  by (intro keeps_put_publication_endpoint keeps_delete_publication_endpoint keeps_put_publication
      keeps_delete_publication keeps_post_events keeps_append keeps_put_app_endpoint keeps_put_app
      keeps_issue_endpoint keeps_issue keeps_rotate_endpoint keeps_rotate keeps_revoke_endpoint keeps_revoke
      touches [where I = "row_kept v row"]; simp)+

lemma foreign_row_kept:
  assumes "ur_creo_sub row = Some s" and "ur_usr_id row = Some v" and "v \<noteq> []" and "signed_in (sv_app sv) rq \<noteq> Some s"
  shows "keeps (row_kept v row) (handle_request sv e rq)"
proof (cases "may_write e")
  case True
  then show ?thesis
    using foreign_user_handlers [OF assms] by (cases e) (simp_all add: may_write_def other_handlers_keep_row)
qed (rule handle_reads)

end
