(* ===== verification/Hub_Flows.thy ===== *)
theory Hub_Flows
  imports Hub_Access
begin

text \<open>
  Ways through several components: an event from its acceptance to the tree, a publication from
  its registration to the readable link, an application token from its revocation to the requests
  that use it, and an error from the database to the answer.
\<close>

section \<open>From an event to the tree\<close>

lemma insort_last: "list_all (\<lambda>y. f y \<le> f x) (a # ys) \<Longrightarrow> insort_key f a (ys @ [x]) = insort_key f a ys @ [x]"
  by (induction ys) auto

lemma sort_key_last:
  assumes "list_all (\<lambda>y. f y \<le> f x) ys"
  shows "sort_key f (ys @ [x]) = sort_key f ys @ [x]"
  using assms
proof (induction ys)
  case (Cons a ys)
  have "list_all (\<lambda>y. f y \<le> f x) (a # sort_key f ys)" using Cons.prems by (simp add: list_all_iff)
  then show ?case using Cons by (simp add: insort_last)
qed simp

text \<open>The clock has not gone back: what is pending was received by now.\<close>

definition received_by_now :: "world \<Rightarrow> bool" where
  "received_by_now w \<longleftrightarrow> list_all (\<lambda>r. er_received_at r \<le> now_ms (w_now w)) (pending_rows (tb_event (w_db w)))"

definition logged :: "event_envelope \<Rightarrow> world \<Rightarrow> world" where
  "logged ev w = w\<lparr>w_db := (w_db w)\<lparr>tb_event := tb_event (w_db w) @
     [(ev_event_id ev, new_event_row ev (now_ms (w_now w)))]\<rparr>\<rparr>"

lemma logged_simps [simp]:
  "alone (logged ev w) = alone w" "tb_resource (w_db (logged ev w)) = tb_resource (w_db w)"
  "tb_event (w_db (logged ev w)) = tb_event (w_db w) @ [(ev_event_id ev, new_event_row ev (now_ms (w_now w)))]"
  by (simp_all add: logged_def)

lemma backlog_logged:
  assumes "received_by_now w"
  shows "backlog (logged ev w) = backlog w @ [ev]"
proof -
  have "list_all (\<lambda>r. er_received_at r \<le> now_ms (w_now w)) (filter is_pending (tab_rows (tb_event (w_db w))))"
    using assms by (simp add: received_by_now_def pending_rows_def list_all_iff tab_where_def tab_rows_def)
  then show ?thesis
    by (simp add: backlog_def pending_rows_def tab_where_def tab_rows_def is_pending_def sort_key_last)
qed

lemma append_accepted:
  assumes "alone w" and "append_event ev w = (Inr a, w')" and "ap_accepted a"
  shows "w' = logged ev w"
  using assms
  by (auto simp: append_event_def has_idempotency_def has_event_id_def quiet create_event_def Let_def logged_def
      tab_put_fresh split: if_splits)

lemma ingest_accepted:
  assumes "alone w" and "ingest st body w = (Inr resp, w')" and "rs_status resp = 202"
  obtains v ev where "x_parse_json (st_ext st) body = Some v" "validate_envelope v = Inr ev" "w' = logged ev w"
proof -
  obtain v ev where *: "x_parse_json (st_ext st) body = Some v" "validate_envelope v = Inr ev"
    using assms(2,3) by (auto simp: ingest_def split: option.splits sum.splits)
  then obtain a where "append_event ev w = (Inr a, w')" "ap_accepted a"
    using assms(2,3) by (auto simp: ingest_def bnd_eq_Inr split: if_splits)
  with * show thesis using append_accepted [OF assms(1)] that by blast
qed

lemma post_events_accepted:
  assumes "alone w" and "post_events st rq w = (Inr resp, w')" and "rs_status resp = 202"
  shows "ingest st (rq_body rq) w = (Inr resp, w')"
proof -
  have failed: "rs_status (auth_error_response e) \<noteq> 202" for e
    by (cases e) (simp_all add: auth_error_response_def)
  from assms(2) show ?thesis
    unfolding post_events_def
  proof (rule bnd_readsE [OF _ reads_authenticate assms(1)])
    fix auth :: "auth_error + principal"
    assume "(case auth of Inl e \<Rightarrow> ret (auth_error_response e) | Inr _ \<Rightarrow> ingest st (rq_body rq)) w = (Inr resp, w')"
    then show ?thesis using assms(3) failed by (cases auth) auto
  qed
qed

lemma resource_by_id_alone:
  assumes "alone w" and "resource_inv (w_db w)"
  shows "resource_by_id i w = (Inr (case opt_filter VP_NODE_REST_GUARD (tab_get (tb_resource (w_db w)) i) of
     Some r \<Rightarrow> ok_json 200 (resource_json r) | None \<Rightarrow> not_found), w)"
  using assms first_where_key [of "tb_resource (w_db w)" res_id i VP_NODE_REST_GUARD]
  by (simp add: resource_by_id_def get_resource_by_id_def quiet resource_inv_def split: option.split)

lemma project_last:
  "tab_get (project (evs @ [ev]) t) (res_id (ev_resource ev)) =
     (if ev_kind ev = ResourceDeleted then None else Some (ev_resource ev))"
  by (simp add: change_of_def)

lemma accepted_event_applied:
  assumes "alone w" and "hub_inv (w_db w)" and "received_by_now w" and "length (backlog w) < 100 * n"
    and "post_events st rq w = (Inr resp, w1)" and "rs_status resp = 202"
    and "consumer_loop (replicate n Ticked) w1 = (Inr (), w2)"
  obtains v ev where "x_parse_json (st_ext st) (rq_body rq) = Some v" "validate_envelope v = Inr ev"
    "tab_get (tb_resource (w_db w2)) (res_id (ev_resource ev)) =
       (if ev_kind ev = ResourceDeleted then None else Some (ev_resource ev))"
    "resource_inv (w_db w2)" "alone w2"
proof -
  obtain v ev where ev: "x_parse_json (st_ext st) (rq_body rq) = Some v" "validate_envelope v = Inr ev"
    and w1: "w1 = logged ev w"
    by (rule ingest_accepted [OF assms(1) post_events_accepted [OF assms(1,5,6)] assms(6)])
  have inv1: "stable hub_inv w1"
    using keepsD [OF hub.event_handler stable_alone [of w hub_inv, OF assms(1,2)], of st rq] assms(5) by simp
  have inv2: "stable hub_inv w2"
    using keepsD [OF hub.consumer_keeps inv1, of "replicate n Ticked"] assms(7) by simp
  have "event_inv (w_db w1)" using inv1 by (simp add: stable_def hub_inv_def)
  then have w2: "w2 = after_work (take (100 * n) (backlog w1)) w1"
    using consumer_backlog [of w1 n] assms(1,7) by (simp add: w1)
  have "take (100 * n) (backlog w1) = backlog w @ [ev]"
    using assms(4) by (simp add: w1 backlog_logged [OF assms(3)])
  then have "tab_get (tb_resource (w_db w2)) (res_id (ev_resource ev)) =
     (if ev_kind ev = ResourceDeleted then None else Some (ev_resource ev))"
    by (simp only: w2 after_work_simps project_last)
  moreover have "resource_inv (w_db w2)" "alone w2"
    using inv2 assms(1) by (simp_all add: stable_def hub_inv_def w2 w1)
  ultimately show thesis using ev that by blast
qed

lemma accepted_event_shown:
  assumes "alone w" and "hub_inv (w_db w)" and "received_by_now w" and "length (backlog w) < 100 * n"
    and "post_events st rq w = (Inr resp, w1)" and "rs_status resp = 202"
    and "consumer_loop (replicate n Ticked) w1 = (Inr (), w2)"
  shows "\<exists>v ev. x_parse_json (st_ext st) (rq_body rq) = Some v \<and> validate_envelope v = Inr ev \<and>
    resource_by_id (res_id (ev_resource ev)) w2 =
      (Inr (if ev_kind ev = ResourceDeleted \<or> \<not> rest_visible (ev_resource ev) then not_found
            else ok_json 200 (resource_json (ev_resource ev))), w2)"
proof (rule accepted_event_applied [OF assms])
  fix v ev
  assume "x_parse_json (st_ext st) (rq_body rq) = Some v" "validate_envelope v = Inr ev"
    "tab_get (tb_resource (w_db w2)) (res_id (ev_resource ev)) =
       (if ev_kind ev = ResourceDeleted then None else Some (ev_resource ev))"
    "resource_inv (w_db w2)" "alone w2"
  then show ?thesis by (auto simp: resource_by_id_alone opt_filter_def guard_visible)
qed

text \<open>
  The owner guard of the node registry does not cover events. A signed-in user needs no scope for
  them, and an event for the id of somebody else's node replaces its row by one without an owner, or
  removes it.
\<close>

theorem event_passes_owner_guard:
  assumes "alone w" and "hub_inv (w_db w)" and "received_by_now w" and "length (backlog w) < 100 * n"
    and "post_events st rq w = (Inr resp, w1)" and "rs_status resp = 202"
    and "consumer_loop (replicate n Ticked) w1 = (Inr (), w2)"
    and node: "\<And>v ev. x_parse_json (st_ext st) (rq_body rq) = Some v \<Longrightarrow> validate_envelope v = Inr ev \<Longrightarrow>
      tab_get (tb_resource (w_db w)) (res_id (ev_resource ev)) = Some row \<and> res_owner row = Some owner"
  shows "\<exists>i. tab_get (tb_resource (w_db w)) i = Some row \<and> res_owner row = Some owner \<and>
    (case tab_get (tb_resource (w_db w2)) i of None \<Rightarrow> True | Some row' \<Rightarrow> res_owner row' = None)"
proof (rule accepted_event_applied [OF assms(1-7)])
  fix v ev
  assume ev: "x_parse_json (st_ext st) (rq_body rq) = Some v" "validate_envelope v = Inr ev"
    and "tab_get (tb_resource (w_db w2)) (res_id (ev_resource ev)) =
       (if ev_kind ev = ResourceDeleted then None else Some (ev_resource ev))"
  moreover have "res_owner (ev_resource ev) = None" using ev(2) by (simp add: validate_envelope_iff)
  ultimately show ?thesis using node [OF ev] by (intro exI [of _ "res_id (ev_resource ev)"]) simp
qed

section \<open>From a registration to the readable link\<close>

lemma find_user_frame: "find_user P (d\<lparr>tb_publication := p\<rparr>) = find_user P d"
  by (simp add: find_user_def)

lemma directory_frame [simp]:
  "directory_lookup x (d\<lparr>tb_publication := p\<rparr>) = directory_lookup x d"
  "directory_moved x t (d\<lparr>tb_publication := p\<rparr>) = directory_moved x t d"
  by (intro ext; simp add: directory_lookup_def directory_moved_def find_user_frame live_reserve_def
      cong: option.case_cong)+

text \<open>Under its present handle a publisher is found at once.\<close>

lemma publisher_here:
  assumes "roster_canonical d" and "publisher_at x t d handle = Some publisher"
  obtains name where "ue_handle publisher = Some name" "canonical_handle name = Some name"
    "directory.resolve x t d name = Here publisher" "public_of publisher \<noteq> None"
proof -
  obtain h where res: "opt_filter (\<lambda>u. public_of u \<noteq> None)
      (case directory.resolve x t d h of Here u \<Rightarrow> Some u | Moved_to u \<Rightarrow> Some u | Gone \<Rightarrow> None) = Some publisher"
    using assms(2) by (auto simp: publisher_at_def bind_eq_Some_conv)
  then have pub: "public_of publisher \<noteq> None"
    and at: "directory.resolve x t d h = Here publisher \<or> directory.resolve x t d h = Moved_to publisher"
    by (auto simp: opt_filter_eq_Some split: resolution.splits)
  obtain name where name: "ue_handle publisher = Some name"
    using pub by (auto simp: public_of_eq_Some)
  have inv: "roster_inv d" using assms(1) by (simp add: roster_canonical_def)
  have here: "directory.resolve x t d name = Here publisher"
    using at
  proof
    assume "directory.resolve x t d h = Here publisher"
    then show ?thesis using name directory.lookup_handle [OF inv, of x h publisher] by (simp add: directory.here_iff)
  next
    assume "directory.resolve x t d h = Moved_to publisher"
    then show ?thesis using directory.one_hop [OF inv, of x t h publisher t] name by auto
  qed
  then obtain k r where "publisher = user_of x r" "(k, r) \<in> set (tb_user d)"
    using directory.here_iff by (auto simp: directory_lookup_def dest!: find_user_Some)
  then have "canonical_handle name = Some name"
    using assms(1) name by (auto simp: roster_canonical_def canonical_rows_def user_of_def dest!: rows_okD)
  with name here pub show thesis using that by blast
qed

lemma registered_link:
  assumes "alone w" and "publication_inv (w_db w)" and "roster_canonical (w_db w)"
    and "put_publication_endpoint st handle slug rq w = (Inr resp, w')" and "succeeded resp"
  shows "\<exists>publisher name s p. publisher_at (st_ext st) (w_now w) (w_db w) handle = Some publisher \<and>
    ue_handle publisher = Some name \<and> canonical_slug slug = Some s \<and>
    rs_body resp = JsonBody (publication_view name p) \<and> pb_slug p = s \<and>
    publication_page st (''@'' @ name) s w' = (Inr (leads_to (pb_url p)), w')"
proof -
  obtain app_id req publisher actor where pub: "publisher_at (st_ext st) (w_now w) (w_db w) handle = Some publisher"
    and g: "write_publication st app_id slug req (publisher, actor) w = (Inr resp, w')"
    by (rule put_publication_done [OF assms(1,4,5)])
  obtain name where name: "ue_handle publisher = Some name" "canonical_handle name = Some name"
    "directory.resolve (st_ext st) (w_now w) (w_db w) name = Here publisher" "public_of publisher \<noteq> None"
    by (rule publisher_here [OF assms(3) pub])
  show ?thesis
  proof (rule write_publication_inversion [OF assms(1,2) g disjI2 [OF assms(5)]])
    fix s app url title d row created
    assume s: "canonical_slug slug = Some s"
      and d: "d = snd (upsert_publication \<lparr>pb_publisher = ue_usr_id publisher, pb_slug = s, pb_url = url,
         pb_title = title, pb_app_id = app_id, pb_updated_at = None\<rparr> actor (w_now w) (w_db w))"
      and w': "w' = w\<lparr>w_db := d\<rparr>" and inv: "publication_inv d"
      and row: "tab_get (tb_publication d) (ue_usr_id publisher, s) = Some row" "pr_url row = url"
      and resp: "resp = ok_json (if created then 201 else 200) (publication_view
         (case ue_handle publisher of Some h \<Rightarrow> h | None \<Rightarrow> []) (publication_of (st_ext st) row))"
    have "directory.resolve (st_ext st) (w_now w) d name = Here publisher"
      using name(3) by (simp add: d upsert_publication_def Let_def directory.here_iff)
    moreover have "canonical_slug s = Some s" using canonical_slug_ident [OF s] by (simp add: canonical_slug_fixed)
    moreover have "pr_slug row = s"
      using rows_ok_get [OF _ row(1), of publication_row_ok] inv by (simp add: publication_inv_def publication_row_ok_def)
    ultimately have "publication_page st (''@'' @ name) s w' = (Inr (leads_to (pr_url row)), w')"
      using publication_page_canonical [of w' name s st] assms(1) inv name(2,4) row
      by (auto simp: w' link_answer_def split: option.splits)
    then show ?thesis
      using pub name s \<open>pr_slug row = s\<close> by (auto simp: resp ok_json_def publication_of_def)
  qed
qed

section \<open>Revocation\<close>

definition dead_in :: "string \<Rightarrow> (string, token_row) table \<Rightarrow> bool" where
  "dead_in i tab \<longleftrightarrow> (case tab_get tab i of Some r \<Rightarrow> tr_revoked_at r \<noteq> None | None \<Rightarrow> False)"

lemma dead_in_writes:
  "dead_in i tab \<Longrightarrow> dead_in i (snd (create_token row tab))"
  "dead_in i tab \<Longrightarrow> dead_in i (shorten_tokens app t tab)"
  "dead_in i tab \<Longrightarrow> dead_in i (revoke_tokens app j t tab)"
  by (auto simp: dead_in_def create_token_def tab.get_put shorten_tokens_def tab_get_update_where get_revoke_tokens
      split: option.splits)

lemma rotate_tx_table:
  obtains "tb_token (snd (rotate_tx hash app scopes nt t d)) = tb_token d"
  | row where "tb_token (snd (rotate_tx hash app scopes nt t d)) = snd (create_token row (shorten_tokens app t (tb_token d)))"
proof -
  let ?row = "new_token_row hash app (if scopes = [] then inherited_scopes app t (tb_token d) else scopes) nt t DEFAULT_TTL_DAYS"
  show thesis
    using that(1) that(2) [of ?row]
    by (cases "create_token ?row (shorten_tokens app t (tb_token d))"; cases "fst (create_token ?row (shorten_tokens app t (tb_token d)))")
      (auto simp: rotate_tx_def Let_def)
qed

definition token_dead :: "string \<Rightarrow> db \<Rightarrow> bool" where
  "token_dead i d \<longleftrightarrow> token_inv d \<and> dead_in i (tb_token d)"

lemma token_dead_frame [simp]:
  "token_dead i (d\<lparr>tb_resource := r\<rparr>) = token_dead i d" "token_dead i (d\<lparr>tb_event := e\<rparr>) = token_dead i d"
  "token_dead i (d\<lparr>tb_publication := p\<rparr>) = token_dead i d" "token_dead i (d\<lparr>tb_user := u\<rparr>) = token_dead i d"
  "token_dead i (d\<lparr>tb_reserve := v\<rparr>) = token_dead i d" "token_dead i (d\<lparr>tb_app := a\<rparr>) = token_dead i d"
  by (simp_all add: token_dead_def)

lemma token_dead_writes:
  "token_dead i d \<Longrightarrow> token_dead i (d\<lparr>tb_token := snd (create_token row (tb_token d))\<rparr>)"
  "token_dead i d \<Longrightarrow> token_dead i (snd (rotate_tx hash app scopes text t d))"
  "token_dead i d \<Longrightarrow> token_dead i (d\<lparr>tb_token := revoke_tokens app j t (tb_token d)\<rparr>)"
proof -
  show "token_dead i d \<Longrightarrow> token_dead i (d\<lparr>tb_token := snd (create_token row (tb_token d))\<rparr>)"
    "token_dead i d \<Longrightarrow> token_dead i (d\<lparr>tb_token := revoke_tokens app j t (tb_token d)\<rparr>)"
    using token_writes_ok [of d] by (simp_all add: token_dead_def dead_in_writes)
  assume "token_dead i d"
  then have d: "token_inv d" "dead_in i (tb_token d)" by (simp_all add: token_dead_def)
  have "dead_in i (tb_token (snd (rotate_tx hash app scopes text t d)))"
    using rotate_tx_table [of hash app scopes "text" t d] by (metis d(2) dead_in_writes(1,2))
  then show "token_dead i (snd (rotate_tx hash app scopes text t d))"
    using rotate_tx_inv [OF d(1)] by (simp add: token_dead_def)
qed

interpretation dead_token: hub_invariant "token_dead i" for i
  by unfold_locales (auto intro: token_dead_writes touches)

lemma dead_token_refused:
  assumes "token_verifier ver" and "prefix TOKEN_PREFIX tok"
  shows "returns (token_dead (hash_token x tok)) (authenticate x ver True None (Some tok) accept required)
    (\<lambda>r. r = Inl Unauthorized \<or> r = Inl AuthUnavailable)"
proof -
  let ?I = "token_dead (hash_token x tok)"
  have none: "verify_app_token ver tok = None" using assms token_verifier.hub_token_rejected by blast
  have "returns ?I (verify_token x tok) (\<lambda>r. r = None)"
    unfolding verify_token_def Let_def
    by (intro returns_if returns_ret returns_select)
      (auto simp: token_dead_def dead_in_def token_inv_def token_grant_eq opt_filter_def token_active_def
        split: option.splits)
  from returns_attempt [OF this]
  have stored: "returns ?I (bnd (attempt (verify_token x tok)) (\<lambda>r. case r of
      Inr p \<Rightarrow> ret (Inr p) | Inl err \<Rightarrow> ret (if is_unavailable err then Inl AuthUnavailable else Inr None)))
     (\<lambda>r. r = Inr None \<or> r = Inl AuthUnavailable)"
    by (rule returns_bnd) (auto intro!: keeps returns_ret split: sum.splits simp del: ret_apply)
  have app: "returns ?I (check_app_token x ver True tok required) (\<lambda>r. r = Inr None \<or> r = Inl AuthUnavailable)"
    unfolding check_app_token_def if_True
    by (rule returns_bnd [OF stored]) (auto intro!: keeps returns_ret simp: none simp del: ret_apply)
  have start: "returns ?I (if AppKind \<in> set accept then check_app_token x ver True tok required else ret (Inr None))
      (\<lambda>r. r = Inr None \<or> r = Inl AuthUnavailable)"
    by (intro returns_if app returns_ret) simp
  show ?thesis
    unfolding authenticate_def option.case
    by (rule returns_bnd [OF start])
      (auto intro!: keeps returns_ret simp: user_principal_def simp del: ret_apply)
qed

lemma revoked_now:
  assumes "alone w" and "token_inv (w_db w)"
    and "revoke_token_endpoint st app i rq w = (Inr resp, w')" and "rs_status resp = 200"
  shows "token_dead i (w_db w')"
proof -
  have "check_admin st rq = None"
    using assms(3,4) by (auto simp: revoke_token_endpoint_def check_admin_def Let_def split: option.splits if_splits)
  then have found: "tab_where (revocable app i) (tb_token (w_db w)) \<noteq> []"
    and w': "w' = w\<lparr>w_db := (w_db w)\<lparr>tb_token := revoke_tokens app i (w_now w) (tb_token (w_db w))\<rparr>\<rparr>"
    using assms(1,3,4) by (auto simp: revoke_token_endpoint_def revoke_token_def quiet split: if_splits)
  have ok: "token_table_ok (tb_token (w_db w))" using assms(2) by (simp add: token_inv_def)
  obtain k r where "(k, r) \<in> set (tb_token (w_db w))" "revocable app i r"
    using found by (auto simp: tab_where_def filter_empty_conv)
  then have "tab_get (tb_token (w_db w)) i = Some r" "revocable app i r"
    using ok token_hash_key [OF ok, of k r] by (auto simp: token_table_ok_def tab_get_set revocable_def)
  then show ?thesis
    using token_writes_ok(2) [OF assms(2)] by (simp add: w' token_dead_def dead_in_def get_revoke_tokens)
qed

section \<open>From an error to the answer\<close>

text \<open>What a limit makes of a step that is done in time, and of one that is not.\<close>

definition in_time :: "(nat \<Rightarrow> response hub \<Rightarrow> response option hub) \<Rightarrow> response hub \<Rightarrow> world \<Rightarrow> bool" where
  "in_time timeout m w \<longleftrightarrow> timeout REQUEST_TIMEOUT_S m w = bnd m (\<lambda>r. ret (Some r)) w"

lemma serve_in_time:
  assumes "in_time timeout (respond (handle_request sv (route m path) rq)) w"
    and "handle_request sv (route m path) rq w = (r, w1)"
  shows "serve timeout sv m path rq w =
    (Inr ((case r of Inr resp \<Rightarrow> resp | Inl e \<Rightarrow> app_error_response e)
       \<lparr>rs_body := (if m = HEAD then NoBody else rs_body (case r of Inr resp \<Rightarrow> resp | Inl e \<Rightarrow> app_error_response e))\<rparr>),
     if rs_db_unavailable (case r of Inr resp \<Rightarrow> resp | Inl e \<Rightarrow> app_error_response e) then w1\<lparr>w_kicked := True\<rparr> else w1)"
  using assms by (cases r) (simp_all add: serve_def guard_db_def in_time_def respond_def bnd_steps bnd_assoc bnd_def kick_def attempt_def)

section \<open>For concrete instances\<close>

text \<open>Running without a limit of time, for the instances of the theorems.\<close>

definition no_limit :: "nat \<Rightarrow> response hub \<Rightarrow> response option hub" where
  "no_limit n m = bnd m (\<lambda>r. ret (Some r))"

lemma no_limit_ok: "limits no_limit I" "in_time no_limit m w"
  by (auto simp: limits_def no_limit_def in_time_def intro: keeps)

definition no_credentials :: request where
  "no_credentials = \<lparr>rq_authorization = None, rq_app_token = None, rq_admin_key = None, rq_query = [], rq_body = []\<rparr>"

lemma no_credentials_refused: "check_admin a_state no_credentials \<noteq> None"
  by (simp add: check_admin_def a_state_def no_credentials_def an_ext_def)

definition a_server :: server where
  "a_server = \<lparr>sv_app = a_state, sv_health = initial_health, sv_js = []\<rparr>"

definition refused_connection :: error where
  "refused_connection = [Sdk \<lparr>sdk_is_connection = True, sdk_session_not_found = False, sdk_auth_expired = False, sdk_message = []\<rparr>]"

lemma refused_connection_unavailable: "is_unavailable refused_connection"
  by (simp add: refused_connection_def is_unavailable_def kind_of_def typed_kind_def)

end
