(* ===== verification/Settings_Live.thy ===== *)
theory Settings_Live
  imports Settings_Safety Hub_Flows
begin

text \<open>
  The settings page against the hub itself: the requests that the script of the page
  (\<open>crates/chronista-hub-server/src/settings.rs\<close>) makes are served by the hub's own endpoints
  (\<open>app.rs\<close>), so that what the user sees and does in the tab is what the database holds and becomes.
\<close>

section \<open>Requests of the tab as requests to the hub\<close>

text \<open>
  \<open>fetch\<close> to the hub: the path by its segments (none of those that the page makes needs decoding when
  the handle in it is canonical), the bearer text, and the body as \<open>JSON.stringify\<close> prints it.
\<close>

definition hub_request_of :: "ext \<Rightarrow> string \<Rightarrow> json option \<Rightarrow> request" where
  "hub_request_of x b body = \<lparr>rq_authorization = Some b, rq_app_token = None, rq_admin_key = None, rq_query = [],
     rq_body = (case body of Some v \<Rightarrow> x_json_text x v | None \<Rightarrow> [])\<rparr>"

definition hub_answer ::
  "(nat \<Rightarrow> response hub \<Rightarrow> response option hub) \<Rightarrow> server \<Rightarrow> ext \<Rightarrow> sent \<Rightarrow> world \<Rightarrow> answer \<times> world" where
  "hub_answer timeout sv x q w =
     (case q of
        Call m path b body \<Rightarrow>
          (case serve timeout sv m (tl (split_on (CHR ''/'') path)) (hub_request_of x b body) w of
             (Inr resp, w') \<Rightarrow> (answer_of resp, w')
           | (Inl e, w') \<Rightarrow> (Failed_fetch [], w'))
      | _ \<Rightarrow> (Failed_fetch [], w))"

lemma hub_answer_call:
  assumes "\<And>m. in_time timeout m w"
    and "handle_request sv (route m (tl (split_on (CHR ''/'') path))) (hub_request_of x b body) w = (Inr resp, w')"
    and "m \<noteq> HEAD" and "\<not> rs_db_unavailable resp"
  shows "hub_answer timeout sv x (Call m path b body) w = (answer_of resp, w')"
  using serve_in_time [OF assms(1,2)] assms(3,4) by (simp add: hub_answer_def)

lemma split_segments:
  assumes "ps \<noteq> []" and "list_all (\<lambda>p. CHR ''/'' \<notin> set p) ps" and "path = CHR ''/'' # join_with (CHR ''/'') ps"
  shows "tl (split_on (CHR ''/'') path) = ps"
  using split_join [OF assms(1,2)] by (simp add: assms(3))

lemma own_paths:
  "tl (split_on (CHR ''/'') ''/v1/me'') = [''v1'', ''me'']"
  "tl (split_on (CHR ''/'') ''/v1/me/handle'') = [''v1'', ''me'', ''handle'']"
  "tl (split_on (CHR ''/'') ''/v1/me/publishers'') = [''v1'', ''me'', ''publishers'']"
  by (rule split_segments; simp)+

lemma own_routes:
  "route GET [''v1'', ''me''] = Me" "route PATCH [''v1'', ''me''] = PatchMe" "route PUT [''v1'', ''me'', ''handle''] = ClaimHandle"
  "route GET [''v1'', ''me'', ''publishers''] = MyPublishers"
  "route GET [''v1'', ''users'', h, ''publications''] = (if h = [] then NotFound else PublicationsOf h)"
  by (simp_all add: route_def on_def)

section \<open>What the hub answers\<close>

text \<open>The own row as the hub prints it.\<close>

definition account_json :: "ext \<Rightarrow> nat \<Rightarrow> db \<Rightarrow> user_entry \<Rightarrow> json" where
  "account_json x t d u =
     JObj [(''usrId'', JStr (ue_usr_id u)), (''handle'', json_opt (ue_handle u)), (''displayName'', json_opt (ue_display_name u)),
       (''canonicalPath'', json_opt (canonical_path u)), (''creoSub'', json_opt (ue_creo_sub u)),
       (''handleChangedAt'', json_opt (ue_handle_changed_at u)),
       (''reservedHandle'', case map_option (reserve_of x) (live_reserve (\<lambda>r. rr_usr_id r = ue_usr_id u) t d) of None \<Rightarrow> JNull
          | Some r \<Rightarrow> JObj [(''handle'', JStr (hr_handle r)), (''expiresAt'', JStr (hr_expires_at r))])]"

lemma account_json_fields:
  "get (account_json x t d u) ''handle'' = Some (json_opt (ue_handle u))"
  "get (account_json x t d u) ''displayName'' = Some (json_opt (ue_display_name u))" "account_json x t d u \<noteq> JNull"
  by (simp_all add: account_json_def obj_get.simps)

lemma me_response_eq:
  "alone w \<Longrightarrow> me_response st status u w = (Inr (ok_json status (account_json (st_ext st) (w_now w) (w_db w) u)), w)"
  by (simp add: me_response_def me_json_def get_reserve_of_def bnd_assoc quiet account_json_def)

text \<open>The names of a user: its own, and those of the organisations for which it may publish, with its role.\<close>

definition org_entry :: "ext \<Rightarrow> db \<Rightarrow> member_row \<Rightarrow> (user_entry \<times> string) option" where
  "org_entry x d r = map_option (\<lambda>u. (user_of x u, mr_role r)) (opt_filter (\<lambda>u. ur_account_type u = ''organization'' \<and> ur_handle u \<noteq> None)
     (find_user (\<lambda>u. ur_usr_id u = Some (mr_org_user r)) d))"

definition org_name :: "user_entry \<times> string \<Rightarrow> (public_user \<times> json) option" where
  "org_name = (\<lambda>(org, role). if role_can_publish role then map_option (\<lambda>p. (p, JStr role)) (public_of org) else None)"

definition names_of :: "ext \<Rightarrow> db \<Rightarrow> user_row \<Rightarrow> (public_user \<times> json) list" where
  "names_of x d r =
     (case public_of (user_of x r) of Some p \<Rightarrow> [(p, JNull)] | None \<Rightarrow> []) @
     List.map_filter org_name (List.map_filter (org_entry x d)
       (sort_key mr_joined_at (filter (\<lambda>m. mr_member_user m = ue_usr_id (user_of x r)) (tb_member d))))"

abbreviation name_json :: "public_user \<times> json \<Rightarrow> json" where
  "name_json \<equiv> \<lambda>(p, role). publisher_json p role"

lemma org_publishers_names: "org_publishers orgs = map name_json (List.map_filter org_name orgs)"
  by (induction orgs rule: org_publishers.induct) (auto simp: List.map_filter_simps org_name_def split: option.split)

lemma my_publishers_alone:
  assumes "alone w" and "signed_in st rq = Some sub" and "find_user (\<lambda>r. ur_creo_sub r = Some sub) (w_db w) = Some r"
  shows "my_publishers st rq w =
    (Inr (json_response 200 [(''publishers'', JArr (map name_json (names_of (st_ext st) (w_db w) r)))]), w)"
proof -
  have "(case p of Some p \<Rightarrow> [publisher_json p JNull] | None \<Rightarrow> []) = map name_json (case p of Some p \<Rightarrow> [(p, JNull)] | None \<Rightarrow> [])" for p
    by (cases p) simp_all
  then show ?thesis
    using ensure_user_alone [OF assms(1,3)]
    by (simp add: my_publishers_def with_user_eq assms orgs_of_def quiet collect_orgs_alone org_entry_def [abs_def] names_of_def org_publishers_names bnd_assoc)
qed

text \<open>Each of them is found under its handle, and its publications are listed there.\<close>

lemma names_found:
  assumes "roster_canonical d" and "find_user P d = Some r" and "(p, role) \<in> set (names_of x d r)"
  obtains u where "directory_lookup x d (pu_handle p) = Some u" "public_of u = Some p" "canonical_handle (pu_handle p) = Some (pu_handle p)"
proof -
  obtain k g where g: "(k, g) \<in> set (tb_user d)" "public_of (user_of x g) = Some p"
  proof -
    consider "public_of (user_of x r) = Some p"
      | m e where "org_entry x d m = Some e" "org_name e = Some (p, role)"
      using assms(3) by (auto simp: names_of_def List.map_filter_def split: option.splits)
    then show thesis
    proof cases
      case 1
      then show thesis using assms(2) that by (auto dest!: find_user_Some)
    next
      case (2 m e)
      then show thesis
        using that by (auto simp: org_entry_def org_name_def opt_filter_eq_Some split: if_splits prod.splits dest!: find_user_Some)
    qed
  qed
  have h: "ur_handle g = Some (pu_handle p)" using g(2) by (auto simp: public_of_eq_Some user_of_def)
  have "find_user (\<lambda>r. ur_handle r = Some (pu_handle p)) d = Some g"
    using assms(1) by (intro find_by_handle [OF _ g(1) h]) (simp add: roster_canonical_def)
  then have "directory_lookup x d (pu_handle p) = Some (user_of x g)" by (simp add: directory_lookup_def)
  moreover have "canonical_handle (pu_handle p) = Some (pu_handle p)"
    using assms(1) g(1) h by (auto simp: roster_canonical_def canonical_rows_def dest!: rows_okD)
  ultimately show thesis using that g(2) by blast
qed

definition publications_in :: "ext \<Rightarrow> db \<Rightarrow> public_user \<Rightarrow> json list" where
  "publications_in x d p = map (\<lambda>q. publication_view (pu_handle p) (publication_of x q))
     (sort_key pr_slug (tab_where (\<lambda>q. pr_publisher q = pu_usr_id p) (tb_publication d)))"

lemma publications_of_alone:
  assumes "alone w" and "roster_canonical (w_db w)" and "find_user P (w_db w) = Some r"
    and "(p, role) \<in> set (names_of (st_ext st) (w_db w) r)"
  shows "publications_of st (CHR ''@'' # pu_handle p) w =
    (Inr (json_response 200 [(''handle'', JStr (pu_handle p)), (''publications'', JArr (publications_in (st_ext st) (w_db w) p))]), w)"
proof -
  obtain u where u: "directory_lookup (st_ext st) (w_db w) (pu_handle p) = Some u" "public_of u = Some p"
    "canonical_handle (pu_handle p) = Some (pu_handle p)" by (rule names_found [OF assms(2-4)])
  have "ue_usr_id u = pu_usr_id p" using u(2) by (cases p) (auto simp: public_of_eq_Some)
  then show ?thesis
    using u by (simp add: publications_of_def strip_handle_def strip_prefix_def resolve_alone [OF assms(1)]
      list_publications_def quiet assms(1) publications_in_def)
qed

text \<open>
  A hub that serves the owner of a bearer text, alone and in time: the world, the server, and the row.
\<close>

definition serves_owner ::
  "(nat \<Rightarrow> response hub \<Rightarrow> response option hub) \<Rightarrow> server \<Rightarrow> ext \<Rightarrow> string \<Rightarrow> string \<Rightarrow> user_row \<Rightarrow> world \<Rightarrow> bool" where
  "serves_owner timeout sv x b sub r w \<longleftrightarrow>
     alone w \<and> roster_canonical (w_db w) \<and> (\<forall>m v. in_time timeout m v) \<and>
     signed_in (sv_app sv) (hub_request_of x b None) = Some sub \<and>
     find_user (\<lambda>u. ur_creo_sub u = Some sub) (w_db w) = Some r \<and> ur_usr_id r \<noteq> None"

abbreviation server_ext :: "server \<Rightarrow> ext" where
  "server_ext sv \<equiv> st_ext (sv_app sv)"

lemma serves_owner_signed_in:
  assumes "serves_owner timeout sv x b sub r w"
  shows "signed_in (sv_app sv) (hub_request_of x b body) = Some sub"
proof -
  have "signed_in (sv_app sv) (hub_request_of x b body) = signed_in (sv_app sv) (hub_request_of x b None)"
    by (simp add: signed_in_def hub_request_of_def)
  then show ?thesis using assms by (simp add: serves_owner_def)
qed

definition own_account :: "server \<Rightarrow> user_row \<Rightarrow> world \<Rightarrow> json" where
  "own_account sv r w = account_json (server_ext sv) (w_now w) (w_db w) (user_of (server_ext sv) r)"

definition own_names :: "server \<Rightarrow> user_row \<Rightarrow> world \<Rightarrow> (public_user \<times> json) list" where
  "own_names sv r w = names_of (server_ext sv) (w_db w) r"

lemma hub_reads_account:
  assumes "serves_owner timeout sv x b sub r w"
  shows "hub_answer timeout sv x (Call GET ''/v1/me'' b None) w = (Status_body 200 (Inr (own_account sv r w)), w)"
proof -
  have "handle_request sv (route GET (tl (split_on (CHR ''/'') ''/v1/me''))) (hub_request_of x b None) w =
      (Inr (ok_json 200 (own_account sv r w)), w)"
    using assms ensure_user_alone [of w sub r]
    by (simp only: own_paths own_routes) (simp add: serves_owner_def me_def with_user_eq me_response_eq own_account_def)
  then have "hub_answer timeout sv x (Call GET ''/v1/me'' b None) w = (answer_of (ok_json 200 (own_account sv r w)), w)"
    by (rule hub_answer_call [rotated]) (use assms in \<open>simp_all add: serves_owner_def ok_json_def\<close>)
  then show ?thesis by (simp add: answer_of_def ok_json_def)
qed

lemma hub_reads_names:
  assumes "serves_owner timeout sv x b sub r w"
  shows "hub_answer timeout sv x (Call GET ''/v1/me/publishers'' b None) w =
    (Status_body 200 (Inr (JObj [(''publishers'', JArr (map name_json (own_names sv r w)))])), w)"
proof -
  let ?resp = "json_response 200 [(''publishers'', JArr (map name_json (own_names sv r w)))]"
  have "handle_request sv (route GET (tl (split_on (CHR ''/'') ''/v1/me/publishers''))) (hub_request_of x b None) w = (Inr ?resp, w)"
    using assms my_publishers_alone [of w "sv_app sv" "hub_request_of x b None" sub r]
    by (simp only: own_paths own_routes) (simp add: serves_owner_def own_names_def)
  then have "hub_answer timeout sv x (Call GET ''/v1/me/publishers'' b None) w = (answer_of ?resp, w)"
    by (rule hub_answer_call [rotated]) (use assms in \<open>simp_all add: serves_owner_def\<close>)
  then show ?thesis by (simp add: answer_of_def)
qed

text \<open>The path of the publications of a name has the canonical handle of that name in it as it is.\<close>

lemma ident_plain: "ident_char c \<Longrightarrow> uri_plain c"
  by (auto simp: ident_char_def uri_plain_def)

lemma encode_ident: "list_all ident_char h \<Longrightarrow> encode_uri_component h = h"
  by (induction h) (auto simp: encode_uri_component_def ident_plain)

lemma ident_no_slash: "list_all ident_char h \<Longrightarrow> CHR ''/'' \<notin> set h"
  by (auto simp: list_all_iff ident_char_def text_defs)

lemma canonical_chars: "canonical_handle h = Some h \<Longrightarrow> list_all ident_char h \<and> h \<noteq> []"
  by (auto simp: canonical_handle_fixed ident_word_def split: list.splits)

lemma publications_path_segments:
  assumes "canonical_handle (pu_handle p) = Some (pu_handle p)"
  shows "tl (split_on (CHR ''/'') (publications_path E (publisher_json p role))) =
    [''v1'', ''users'', CHR ''@'' # pu_handle p, ''publications'']"
proof -
  have "publications_path E (publisher_json p role) = ''/v1/users/@'' @ pu_handle p @ ''/publications''"
    using canonical_chars [OF assms] by (simp add: publications_path_def publisher_json_def obj_get.simps string_of_def encode_ident)
  then show ?thesis
    using ident_no_slash [of "pu_handle p"] canonical_chars [OF assms] by (intro split_segments) simp_all
qed

lemma hub_reads_publications:
  assumes "serves_owner timeout sv x b sub r w" and "(p, role) \<in> set (own_names sv r w)"
  shows "hub_answer timeout sv x (Call GET (publications_path E (publisher_json p role)) b' None) w =
    (Status_body 200 (Inr (JObj [(''handle'', JStr (pu_handle p)), (''publications'', JArr (publications_in (server_ext sv) (w_db w) p))])), w)"
proof -
  let ?resp = "json_response 200 [(''handle'', JStr (pu_handle p)), (''publications'', JArr (publications_in (server_ext sv) (w_db w) p))]"
  have w: "alone w" "roster_canonical (w_db w)" "find_user (\<lambda>u. ur_creo_sub u = Some sub) (w_db w) = Some r"
    using assms(1) by (simp_all add: serves_owner_def)
  have "canonical_handle (pu_handle p) = Some (pu_handle p)"
    by (rule names_found [OF w(2,3) assms(2) [unfolded own_names_def]])
  note path = publications_path_segments [OF this, of E role]
  have "handle_request sv (route GET (tl (split_on (CHR ''/'') (publications_path E (publisher_json p role)))))
      (hub_request_of x b' None) w = (Inr ?resp, w)"
    using publications_of_alone [OF w assms(2) [unfolded own_names_def]] by (simp add: path own_routes)
  then have "hub_answer timeout sv x (Call GET (publications_path E (publisher_json p role)) b' None) w = (answer_of ?resp, w)"
    by (rule hub_answer_call [rotated]) (use assms(1) in \<open>simp_all add: serves_owner_def\<close>)
  then show ?thesis by (simp add: answer_of_def)
qed

section \<open>The script on answers of the hub\<close>

text \<open>From the request number \<open>n\<close> on, the reads of the tab are answered by the hub in the world \<open>w\<close>.\<close>

definition reads_from ::
  "(nat \<Rightarrow> response hub \<Rightarrow> response option hub) \<Rightarrow> server \<Rightarrow> page_env \<Rightarrow> nat \<Rightarrow> world \<Rightarrow> bool" where
  "reads_from timeout sv E n w \<longleftrightarrow>
     (\<forall>k p b. n \<le> k \<longrightarrow> pe_answer E k (Call GET p b None) = fst (hub_answer timeout sv (pe_ext E) (Call GET p b None) w))"

definition sends :: "sent list \<Rightarrow> browser \<Rightarrow> browser" where
  "sends qs s = s\<lparr>br_sent := br_sent s @ qs\<rparr>"

lemma sends_simps [simp]:
  "sends [] s = s" "sends ps (sends qs s) = sends (qs @ ps) s" "send q s = sends [q] s" "bearer (sends qs s) = bearer s"
  "br_store (sends qs s) = br_store s" "br_screen (sends qs s) = br_screen s" "br_names (sends qs s) = br_names s"
  "br_sent (sends qs s) = br_sent s @ qs"
  by (simp_all add: sends_def send_def bearer_def)

lemma fetch_sends: "fetch E q s = (Inr (pe_answer E (length (br_sent s)) q), sends [q] s)"
  by (simp add: fetch_def)

lemma answered_ok: "ok_status n \<Longrightarrow> answered E (Status_body n (Inr v)) s = (Inr v, s)"
  by (auto simp: answered_def give_def ok_status_def)

lemma api_ok:
  assumes "pe_answer E (length (br_sent s)) (Call m p (bearer s) body) = Status_body n (Inr v)" and "ok_status n"
  shows "api E m p body s = (Inr v, sends [Call m p (bearer s) body] s)"
  using assms by (simp add: api_def thn_def fetch_sends answered_ok)

text \<open>The names with their publications, as the script keeps them.\<close>

definition shown_names :: "server \<Rightarrow> user_row \<Rightarrow> world \<Rightarrow> (json \<times> json option) list" where
  "shown_names sv r w = map (\<lambda>n. (name_json n, Some (JArr (publications_in (server_ext sv) (w_db w) (fst n))))) (own_names sv r w)"

definition publication_calls :: "page_env \<Rightarrow> string \<Rightarrow> (public_user \<times> json) list \<Rightarrow> sent list" where
  "publication_calls E b ns = map (\<lambda>n. Call GET (publications_path E (name_json n)) b None) ns"

lemma call_all_on_hub:
  assumes "serves_owner timeout sv (pe_ext E) b sub r w" and "reads_from timeout sv E n w"
    and "set ns \<subseteq> set (own_names sv r w)" and "n \<le> length (br_sent s)"
  shows "call_all E (map name_json ns) s =
    (Inr (map (\<lambda>n. Inr (Status_body 200 (Inr (JObj [(''handle'', JStr (pu_handle (fst n))),
       (''publications'', JArr (publications_in (server_ext sv) (w_db w) (fst n)))])))) ns),
     sends (publication_calls E (bearer s) ns) s)"
  using assms(3,4)
proof (induction ns arbitrary: s)
  case (Cons m ns)
  obtain p role where m: "m = (p, role)" by (cases m)
  have "pe_answer E (length (br_sent s)) (Call GET (publications_path E (publisher_json p role)) (bearer s) None) =
      Status_body 200 (Inr (JObj [(''handle'', JStr (pu_handle p)), (''publications'', JArr (publications_in (server_ext sv) (w_db w) p))]))"
    using assms(2) Cons.prems hub_reads_publications [OF assms(1), of p role E "bearer s"] by (simp add: reads_from_def m)
  then show ?case
    using Cons by (simp add: m thn_def fetch_sends give_def publisher_json_def publication_calls_def)
qed (simp add: give_def publication_calls_def)

lemma settle_all_on_hub:
  "settle_all E (map (\<lambda>n. Inr (Status_body 200 (Inr (JObj [(''handle'', JStr (h n)), (''publications'', JArr (ps n))])))) ns) s =
   (Inr (map (\<lambda>n. Inr (Some (JArr (ps n)))) ns), s)"
  by (induction ns arbitrary: s)
    (simp_all add: give_def thn_def answered_ok ok_status_def member_def obj_get.simps Let_def)

lemma load_names_on_hub:
  assumes "serves_owner timeout sv (pe_ext E) (bearer s) sub r w" and "reads_from timeout sv E n w" and "n \<le> length (br_sent s)"
  shows "load_names E s = (Inr (), (sends (Call GET ''/v1/me/publishers'' (bearer s) None #
      publication_calls E (bearer s) (own_names sv r w)) s)\<lparr>br_names := Some (shown_names sv r w)\<rparr>)"
proof -
  let ?ns = "own_names sv r w" and ?q = "Call GET ''/v1/me/publishers'' (bearer s) None"
  have "pe_answer E (length (br_sent s)) ?q = Status_body 200 (Inr (JObj [(''publishers'', JArr (map name_json ?ns))]))"
    using assms(2,3) hub_reads_names [OF assms(1)] by (simp add: reads_from_def)
  then have api: "api E GET ''/v1/me/publishers'' None s = (Inr (JObj [(''publishers'', JArr (map name_json ?ns))]), sends [?q] s)"
    by (rule api_ok) (simp add: ok_status_def)
  have calls: "call_all E (map name_json ?ns) (sends [?q] s) = (Inr (map (\<lambda>n. Inr (Status_body 200 (Inr (JObj [(''handle'', JStr (pu_handle (fst n))),
       (''publications'', JArr (publications_in (server_ext sv) (w_db w) (fst n)))])))) ?ns), sends (publication_calls E (bearer s) ?ns) (sends [?q] s))"
    using call_all_on_hub [OF assms(1,2) subset_refl, of "sends [?q] s"] assms(3) by simp
  have none: "first_error E (map (\<lambda>n. Inr (f n)) ns) = None" for f :: "public_user \<times> json \<Rightarrow> json option" and ns
    by (simp add: first_error_def List.map_filter_def)
  have zip: "zip (map name_json ns) (List.map_filter (\<lambda>r. case r of Inl e \<Rightarrow> None | Inr p \<Rightarrow> Some p) (map (\<lambda>n. (Inr (f n) :: js_error + json option)) ns)) =
      map (\<lambda>n. (name_json n, f n)) ns" for f ns
    by (induction ns) (simp_all add: List.map_filter_simps)
  have "publications_of_all E (map name_json ?ns) (sends [?q] s) =
      (Inr (shown_names sv r w), sends (?q # publication_calls E (bearer s) ?ns) s)"
    by (simp add: publications_of_all_def thn_def calls settle_all_on_hub none zip give_def shown_names_def)
  then show ?thesis
    by (simp add: load_names_def catching_def thn_def api member_def obj_get.simps give_def change_def)
qed

lemma view_on_hub:
  assumes "br_names s = Some (shown_names sv r w)" and "self \<noteq> JNull" and "i \<noteq> JNull"
    and "id_claims E (case br_store s IDT of Some t \<Rightarrow> t | None \<Rightarrow> []) = i"
  shows "\<exists>h. names_view E (Some (shown_names sv r w)) = Some h \<and>
    view E self msg s = (Inr (), s\<lparr>br_html := view_html E i self h msg, br_screen := Settings_form self\<rparr>)"
proof -
  have "\<exists>es. entries_of E (map (\<lambda>n. (name_json n, Some (JArr (publications_in x d (fst n))))) ns) = Some es" for x d ns
    by (induction ns) (auto simp: publications_in_def publication_view_def)
  then obtain h where "names_view E (Some (shown_names sv r w)) = Some h" by (fastforce simp: names_view_def shown_names_def)
  then show ?thesis using assms by (auto simp: view_def)
qed

section \<open>Changes of the account\<close>

text \<open>A hub whose database has got another row for the same user serves the user on from that row.\<close>

lemma find_by_sub:
  assumes "roster_inv d" and "(k, r) \<in> set (tb_user d)" and "ur_creo_sub r = Some sub"
  shows "find_user (\<lambda>r. ur_creo_sub r = Some sub) d = Some r"
  unfolding find_user_def
proof (rule first_where_unique [where k = k])
  fix k' r' assume "(k', r') \<in> set (tb_user d)" "ur_creo_sub r' = Some sub"
  then show "r' = r" using assms unfolding roster_inv_def by (blast intro: indexed_unique)
qed (use assms in auto)

lemma serves_owner_row:
  assumes "serves_owner timeout sv x b sub r w" and "ur_usr_id r = Some u"
  shows "tab_get (tb_user (w_db w)) u = Some r" "ur_creo_sub r = Some sub" "roster_inv (w_db w)"
proof -
  have inv: "roster_inv (w_db w)" and f: "find_user (\<lambda>u. ur_creo_sub u = Some sub) (w_db w) = Some r"
    using assms(1) by (simp_all add: serves_owner_def roster_canonical_def)
  obtain k where k: "(k, r) \<in> set (tb_user (w_db w))" "ur_creo_sub r = Some sub" using find_user_Some [OF f] by blast
  then have "k = u" using inv assms(2) by (auto simp: roster_inv_def user_row_ok_def dest!: rows_okD)
  then show "tab_get (tb_user (w_db w)) u = Some r" using inv k(1) by (simp add: roster_inv_def tab_get_set)
  show "ur_creo_sub r = Some sub" "roster_inv (w_db w)" using k(2) inv by blast+
qed

lemma serves_owner_changed:
  assumes "serves_owner timeout sv x b sub r w" and "ur_usr_id r = Some u"
    and "alone w'" and "roster_canonical (w_db w')" and "tab_get (tb_user (w_db w')) u = Some r'"
    and "ur_creo_sub r' = ur_creo_sub r" and "ur_usr_id r' = Some u"
  shows "serves_owner timeout sv x b sub r' w'"
proof -
  have "(u, r') \<in> set (tb_user (w_db w'))" by (rule tab_get_in [OF assms(5)])
  then have "find_user (\<lambda>u. ur_creo_sub u = Some sub) (w_db w') = Some r'"
    using serves_owner_row [OF assms(1,2)] assms(4,6) by (intro find_by_sub) (auto simp: roster_canonical_def)
  then show ?thesis using assms by (simp add: serves_owner_def)
qed

text \<open>
  What a granted claim leaves: the row with the handle, and the answer that shows it. \<open>claim_row\<close> is the row
  afterwards, for a first claim, a rename and the present handle.
\<close>

definition claim_row :: "user_row \<Rightarrow> string \<Rightarrow> nat \<Rightarrow> user_row" where
  "claim_row r h t = (case ur_handle r of
     None \<Rightarrow> r\<lparr>ur_handle := Some h\<rparr>
   | Some current \<Rightarrow> if current = h then r else renamed_row h t r)"

lemma claim_row_simps [simp]:
  "ur_handle (claim_row r h t) = Some h" "ur_creo_sub (claim_row r h t) = ur_creo_sub r" "ur_usr_id (claim_row r h t) = ur_usr_id r"
  "ur_account_type (claim_row r h t) = ur_account_type r" "ur_display_name (claim_row r h t) = ur_display_name r"
  by (auto simp: claim_row_def renamed_row_def split: option.split)

lemma granted_claim:
  assumes "serves_owner timeout sv x b sub r w" and "ur_usr_id r = Some u"
    and "Option.bind (x_parse_json (server_ext sv) (rq_body rq)) decode_claim = Some (Some text)" and "canonical_handle text = Some h"
    and "signed_in (sv_app sv) rq = Some sub" and "claim_outcome (server_ext sv) u r h (w_now w) (w_db w) = (code, d)" and "code \<noteq> 409"
  shows "claim_handle_endpoint (sv_app sv) rq w =
      (Inr (ok_json code (own_account sv (claim_row r h (w_now w)) (w\<lparr>w_db := d\<rparr>))), w\<lparr>w_db := d\<rparr>)"
    and "tab_get (tb_user d) u = Some (claim_row r h (w_now w))" and "ok_status code"
proof -
  let ?x = "server_ext sv"
  note row = serves_owner_row [OF assms(1,2)]
  have w: "alone w" "find_user (\<lambda>u. ur_creo_sub u = Some sub) (w_db w) = Some r" using assms(1) by (simp_all add: serves_owner_def)
  have mine: "bnd (ensure_user ?x sub) f w = f (user_of ?x r) w" for f :: "user_entry \<Rightarrow> response hub"
    using ensure_user_alone [OF w] by simp
  have id: "ue_usr_id (user_of ?x r) = u" "ue_handle (user_of ?x r) = ur_handle r" using assms(2) by (simp_all add: user_of_def)
  note start = claim_handle_endpoint_def with_user_eq assms(3,4,5) mine id
  have "claim_handle_endpoint (sv_app sv) rq w =
      (Inr (ok_json code (own_account sv (claim_row r h (w_now w)) (w\<lparr>w_db := d\<rparr>))), w\<lparr>w_db := d\<rparr>) \<and>
    tab_get (tb_user d) u = Some (claim_row r h (w_now w)) \<and> ok_status code"
  proof (cases "ur_handle r")
    case None
    then have d: "claim_spec ?x u h (w_now w) (w_db w) = (Some (user_of ?x (claim_row r h (w_now w))), d)" "code = 201"
      "d = (w_db w)\<lparr>tb_user := tab_put u (claim_row r h (w_now w)) (tb_user (w_db w))\<rparr>"
      using assms(6,7) row(1) by (auto simp: claim_outcome_def claim_spec_def claim_row_def split: if_splits)
    have "bnd (claim_handle ?x u h) f w = f (Some (user_of ?x (claim_row r h (w_now w)))) (w\<lparr>w_db := d\<rparr>)" for f :: "user_entry option \<Rightarrow> response hub"
      using claim_handle_eq [OF w(1) row(3), of ?x u h] d(1) by simp
    then show ?thesis
      using None w(1) by (simp add: start me_response_eq own_account_def d(2) ok_status_def) (simp add: d(3))
  next
    case (Some current)
    show ?thesis
    proof (cases "current = h")
      case True
      then show ?thesis
        using Some assms(6) row(1) w(1)
        by (auto simp: start me_response_eq own_account_def claim_outcome_def claim_row_def ok_status_def)
    next
      case False
      then have d: "rename_spec ?x u current h (w_now w) (w_db w) = (Renamed (user_of ?x (claim_row r h (w_now w))), d)" "code = 200"
        "tab_get (tb_user d) u = Some (claim_row r h (w_now w))"
        using assms(6,7) row(1) Some
        by (auto simp: claim_outcome_def rename_spec_def claim_row_def renamed_db_def split: if_splits option.splits rename_outcome.splits)
      have "bnd (rename_handle ?x u current h) f w = f (Renamed (user_of ?x (claim_row r h (w_now w)))) (w\<lparr>w_db := d\<rparr>)" for f :: "rename_outcome \<Rightarrow> response hub"
        using rename_handle_eq [OF w(1) row(3), of ?x u current h] d(1) by simp
      then show ?thesis
        using Some False w(1) by (simp add: start rename_response_def me_response_eq own_account_def d(2,3) ok_status_def)
    qed
  qed
  then show "claim_handle_endpoint (sv_app sv) rq w =
      (Inr (ok_json code (own_account sv (claim_row r h (w_now w)) (w\<lparr>w_db := d\<rparr>))), w\<lparr>w_db := d\<rparr>)"
    and "tab_get (tb_user d) u = Some (claim_row r h (w_now w))" and "ok_status code" by blast+
qed

text \<open>Saving a display name.\<close>

definition named_row :: "user_row \<Rightarrow> string option \<Rightarrow> user_row" where
  "named_row r n = (if ur_account_type r = ''user'' then r\<lparr>ur_display_name := n\<rparr> else r)"

lemma named_row_simps [simp]:
  "ur_creo_sub (named_row r n) = ur_creo_sub r" "ur_usr_id (named_row r n) = ur_usr_id r" "ur_handle (named_row r n) = ur_handle r"
  by (simp_all add: named_row_def)

lemma set_display_alone:
  assumes "alone w" and "roster_inv (w_db w)" and "tab_get (tb_user (w_db w)) u = Some r" and "ur_usr_id r = Some u"
  shows "\<exists>d. set_display_name x u n w = (Inr (Some (user_of x (named_row r n))), w\<lparr>w_db := d\<rparr>) \<and>
    tab_get (tb_user d) u = Some (named_row r n)"
proof -
  let ?d = "(w_db w)\<lparr>tb_user := tab_update u (\<lambda>r. if ur_account_type r = ''user'' then r\<lparr>ur_display_name := n\<rparr> else r) (tb_user (w_db w))\<rparr>"
  have got: "tab_get (tb_user ?d) u = Some (named_row r n)"
    using assms(3) by (simp add: named_row_def tab_get_update)
  have "find_user (\<lambda>r. ur_usr_id r = Some u) ?d = Some (named_row r n)"
    using find_by_id [OF roster_inv_display [OF assms(2), of u n], of u] got assms(4) by (simp add: opt_filter_def)
  then have "set_display_name x u n w = (Inr (Some (user_of x (named_row r n))), w\<lparr>w_db := ?d\<rparr>)"
    unfolding set_display_name_def by (intro retry_once) (simp add: quiet assms(1) get_user_by_id_def)
  with got show ?thesis by blast
qed

definition name_value :: "string \<Rightarrow> json" where
  "name_value input = (if js_blank (map code_of input) then JNull else JStr input)"

definition saved_name :: "string \<Rightarrow> string option" where
  "saved_name input = (if js_blank (map code_of input) then None else trimmed_name (Some input))"

lemma decode_name: "decode_patch_me (JObj [(''displayName'', name_value input)]) =
  Some (Some (if js_blank (map code_of input) then None else Some input))"
  by (simp add: decode_patch_me_def decode_struct_def dec_double_option_def name_value_def dec_opt_string_def)

lemma patch_name:
  assumes "serves_owner timeout sv x b sub r w" and "ur_usr_id r = Some u" and "signed_in (sv_app sv) rq = Some sub"
    and "x_parse_json (server_ext sv) (rq_body rq) = Some (JObj [(''displayName'', name_value input)])"
    and "case saved_name input of Some d \<Rightarrow> chars_count d \<le> 80 | None \<Rightarrow> True"
  shows "\<exists>d. patch_me (sv_app sv) rq w = (Inr (ok_json 200 (own_account sv (named_row r (saved_name input)) (w\<lparr>w_db := d\<rparr>))), w\<lparr>w_db := d\<rparr>) \<and>
    tab_get (tb_user d) u = Some (named_row r (saved_name input))"
proof -
  let ?x = "server_ext sv"
  note row = serves_owner_row [OF assms(1,2)]
  have w: "alone w" "find_user (\<lambda>u. ur_creo_sub u = Some sub) (w_db w) = Some r" using assms(1) by (simp_all add: serves_owner_def)
  obtain d where d: "set_display_name ?x u (saved_name input) w = (Inr (Some (user_of ?x (named_row r (saved_name input)))), w\<lparr>w_db := d\<rparr>)"
    "tab_get (tb_user d) u = Some (named_row r (saved_name input))"
    using set_display_alone [OF w(1) row(3,1) assms(2)] by blast
  have name: "trimmed_name (if js_blank (map code_of input) then None else Some input) = saved_name input"
    by (simp add: saved_name_def trimmed_name_def opt_filter_def)
  have short: "\<not> (case saved_name input of None \<Rightarrow> False | Some d \<Rightarrow> 80 < chars_count d)" using assms(5) by (auto split: option.splits)
  have "ue_usr_id (user_of ?x r) = u" using assms(2) by (simp add: user_of_def)
  then have "patch_me (sv_app sv) rq w = (Inr (ok_json 200 (own_account sv (named_row r (saved_name input)) (w\<lparr>w_db := d\<rparr>))), w\<lparr>w_db := d\<rparr>)"
    using w(1) ensure_user_alone [OF w]
    by (simp add: patch_me_def with_user_eq assms(3,4) decode_name name short d(1) me_response_eq own_account_def Let_def del: if_split)
  with d(2) show ?thesis by blast
qed

section \<open>Properties\<close>

text \<open>
  C10: what the tab shows is what the hub has: a signed-in tab that opens the page, its requests served by the hub,
  shows the row of its user and the names that the user may publish under, each with the publications
  that the database lists for it; it asks for each of them once.
\<close>

theorem opened_page_shows_the_account:
  assumes "serves_owner timeout sv (pe_ext E) (bearer s) sub r w" and "reads_from timeout sv E (length (br_sent s)) w"
    and "signed_in_tab s" and "id_claims E (case br_store s IDT of Some t \<Rightarrow> t | None \<Rightarrow> []) = i" and "i \<noteq> JNull"
  shows "\<exists>h. names_view E (Some (shown_names sv r w)) = Some h \<and>
    render E msg s = (sends (Call GET ''/v1/me'' (bearer s) None # Call GET ''/v1/me/publishers'' (bearer s) None #
        publication_calls E (bearer s) (own_names sv r w)) s)
      \<lparr>br_names := Some (shown_names sv r w), br_html := view_html E i (own_account sv r w) h msg,
       br_screen := Settings_form (own_account sv r w)\<rparr>"
proof -
  let ?q = "Call GET ''/v1/me'' (bearer s) None" and ?self = "own_account sv r w"
  have "pe_answer E (length (br_sent s)) ?q = Status_body 200 (Inr ?self)"
    using assms(2) hub_reads_account [OF assms(1)] by (simp add: reads_from_def)
  then have api: "api E GET ''/v1/me'' None s = (Inr ?self, sends [?q] s)" by (rule api_ok) (simp add: ok_status_def)
  have "serves_owner timeout sv (pe_ext E) (bearer (sends [?q] s)) sub r w" using assms(1) by simp
  note names = load_names_on_hub [OF this assms(2), simplified]
  let ?s = "(sends (?q # Call GET ''/v1/me/publishers'' (bearer s) None # publication_calls E (bearer s) (own_names sv r w)) s)
    \<lparr>br_names := Some (shown_names sv r w)\<rparr>"
  have "\<exists>h. names_view E (Some (shown_names sv r w)) = Some h \<and>
      view E ?self msg ?s = (Inr (), ?s\<lparr>br_html := view_html E i ?self h msg, br_screen := Settings_form ?self\<rparr>)"
    by (rule view_on_hub) (use assms(4,5) in \<open>simp_all add: own_account_def account_json_fields\<close>)
  then obtain h where h: "names_view E (Some (shown_names sv r w)) = Some h"
    "view E ?self msg ?s = (Inr (), ?s\<lparr>br_html := view_html E i ?self h msg, br_screen := Settings_form ?self\<rparr>)" by blast
  have "load E msg s = (Inr (), ?s\<lparr>br_html := view_html E i ?self h msg, br_screen := Settings_form ?self\<rparr>)"
    by (simp add: load_def thn_def api names h(2))
  then have "render E msg s = ?s\<lparr>br_html := view_html E i ?self h msg, br_screen := Settings_form ?self\<rparr>"
    using assms(3) by (simp add: render.simps [of E msg s])
  with h(1) show ?thesis by (intro exI [of _ h]) simp
qed

text \<open>The hub's answer to a write of the tab.\<close>

lemma write_on_hub:
  assumes "serves_owner timeout sv x b sub r w"
    and "handle_request sv (route m (tl (split_on (CHR ''/'') path))) (hub_request_of x b body) w = (Inr (ok_json code v), w')"
    and "m \<noteq> HEAD"
  shows "hub_answer timeout sv x (Call m path b body) w = (Status_body code (Inr v), w')"
proof -
  have "hub_answer timeout sv x (Call m path b body) w = (answer_of (ok_json code v), w')"
    by (rule hub_answer_call [OF _ assms(2,3)]) (use assms(1) in \<open>simp_all add: serves_owner_def ok_json_def\<close>)
  then show ?thesis by (simp add: answer_of_def ok_json_def)
qed

text \<open>
  C11: a name that is typed in and saved is what the database then holds and the tab shows: against a hub that
  serves the user alone, the form sends one request, the row of the user (and no other user's) gets the name without surrounding
  blanks, or none when nothing is left of it, and the tab shows the account as it is then.
\<close>

theorem typed_name_is_saved:
  assumes "serves_owner timeout sv (pe_ext E) (bearer s) sub r w" and "ur_usr_id r = Some u" and "br_screen s = Settings_form self"
    and "x_parse_json (server_ext sv) (x_json_text (pe_ext E) (JObj [(''displayName'', name_value input)])) =
      Some (JObj [(''displayName'', name_value input)])"
    and "case saved_name input of Some d \<Rightarrow> chars_count d \<le> 80 | None \<Rightarrow> True"
    and "q = Call PATCH ''/v1/me'' (bearer s) (Some (JObj [(''displayName'', name_value input)]))"
    and "hub_answer timeout sv (pe_ext E) q w = (pe_answer E (length (br_sent s)) q, w')"
    and "names_view E (br_names s) = Some h"
    and "id_claims E (case br_store s IDT of Some t \<Rightarrow> t | None \<Rightarrow> []) = i" and "i \<noteq> JNull"
  shows "serves_owner timeout sv (pe_ext E) (bearer s) sub (named_row r (saved_name input)) w' \<and>
    tab_get (tb_user (w_db w')) u = Some (named_row r (saved_name input)) \<and>
    (let self' = own_account sv (named_row r (saved_name input)) w'
     in submit_name E input s = (sends [q] s)\<lparr>br_html := view_html E i self' h (Some NAME_SAVED), br_screen := Settings_form self'\<rparr>)"
proof -
  let ?b = "bearer s" and ?x = "pe_ext E" and ?body = "JObj [(''displayName'', name_value input)]" and ?r = "named_row r (saved_name input)"
  have sub: "signed_in (sv_app sv) (hub_request_of ?x ?b (Some ?body)) = Some sub" by (rule serves_owner_signed_in [OF assms(1)])
  have body: "x_parse_json (server_ext sv) (rq_body (hub_request_of ?x ?b (Some ?body))) = Some ?body"
    using assms(4) by (simp add: hub_request_of_def)
  obtain d where d: "patch_me (sv_app sv) (hub_request_of ?x ?b (Some ?body)) w = (Inr (ok_json 200 (own_account sv ?r (w\<lparr>w_db := d\<rparr>))), w\<lparr>w_db := d\<rparr>)"
    "tab_get (tb_user d) u = Some ?r"
    using patch_name [OF assms(1,2) sub body assms(5)] by blast
  have "hub_answer timeout sv ?x q w = (Status_body 200 (Inr (own_account sv ?r (w\<lparr>w_db := d\<rparr>))), w\<lparr>w_db := d\<rparr>)"
    unfolding assms(6) by (rule write_on_hub [OF assms(1)]) (use d(1) in \<open>simp_all add: own_paths own_routes\<close>)
  then have w': "w' = w\<lparr>w_db := d\<rparr>" and a: "pe_answer E (length (br_sent s)) q = Status_body 200 (Inr (own_account sv ?r w'))"
    using assms(7) by simp_all
  have "stable roster_canonical w" using assms(1) by (auto simp: serves_owner_def intro: stable_alone)
  then have "roster_canonical (w_db w')"
    using keepsD [OF user_endpoints_canonical(2) \<open>stable roster_canonical w\<close>, of "sv_app sv" "hub_request_of ?x ?b (Some ?body)"] d(1)
    by (simp add: stable_def w')
  moreover have "alone w'" using assms(1) by (simp add: w' serves_owner_def)
  moreover have "tab_get (tb_user (w_db w')) u = Some ?r" using d(2) by (simp add: w')
  moreover have "ur_creo_sub ?r = ur_creo_sub r" "ur_usr_id ?r = Some u" using assms(2) by simp_all
  ultimately have served: "serves_owner timeout sv ?x ?b sub ?r w'" by (intro serves_owner_changed [OF assms(1,2)])
  have "api E PATCH ''/v1/me'' (Some ?body) s = (Inr (own_account sv ?r w'), sends [q] s)"
    unfolding assms(6) by (rule api_ok [where n = 200]) (use a in \<open>simp_all add: assms(6), simp add: ok_status_def\<close>)
  moreover have "own_account sv ?r w' \<noteq> JNull" by (simp add: own_account_def account_json_fields)
  ultimately have "submit_name E input s = (sends [q] s)\<lparr>br_html := view_html E i (own_account sv ?r w') h (Some NAME_SAVED),
      br_screen := Settings_form (own_account sv ?r w')\<rparr>"
    using assms(3,8-10) by (simp add: submit_name_def thn_def name_value_def view_def Let_def)
  then show ?thesis using served d(2) by (simp add: w' Let_def)
qed

text \<open>
  C12: a handle that is typed in and granted is the user's, and the tab shows it: when the hub grants the claim (the
  first one, a rename, or the present handle again), the row has the handle in its canonical form afterwards, and the tab, having read
  the names anew, shows the account and the names as the database has them then, under the new handle.
\<close>

theorem typed_handle_is_granted:
  assumes "serves_owner timeout sv (pe_ext E) (bearer s) sub r w" and "ur_usr_id r = Some u"
    and "br_screen s = Settings_form self" and "pattern_ok input" and "\<not> form_disabled E self"
    and "x_parse_json (server_ext sv) (x_json_text (pe_ext E) (JObj [(''handle'', JStr (to_ascii_lowercase input))])) =
      Some (JObj [(''handle'', JStr (to_ascii_lowercase input))])"
    and "claim_outcome (server_ext sv) u r (to_ascii_lowercase input) (w_now w) (w_db w) = (code, d)" and "code \<noteq> 409"
    and "q = Call PUT ''/v1/me/handle'' (bearer s) (Some (JObj [(''handle'', JStr (to_ascii_lowercase input))]))"
    and "hub_answer timeout sv (pe_ext E) q w = (pe_answer E (length (br_sent s)) q, w')"
    and "reads_from timeout sv E (Suc (length (br_sent s))) w'"
    and "id_claims E (case br_store s IDT of Some t \<Rightarrow> t | None \<Rightarrow> []) = i" and "i \<noteq> JNull"
    and "r' = claim_row r (to_ascii_lowercase input) (w_now w)"
  shows "w' = w\<lparr>w_db := d\<rparr> \<and> serves_owner timeout sv (pe_ext E) (bearer s) sub r' w' \<and> ur_handle r' = Some (to_ascii_lowercase input) \<and>
    (\<exists>h. names_view E (Some (shown_names sv r' w')) = Some h \<and>
      submit_handle E input s = (sends (q # Call GET ''/v1/me/publishers'' (bearer s) None # publication_calls E (bearer s) (own_names sv r' w')) s)
        \<lparr>br_names := Some (shown_names sv r' w'),
         br_html := view_html E i (own_account sv r' w') h (Some (claim_message E self (to_ascii_lowercase input))),
         br_screen := Settings_form (own_account sv r' w')\<rparr>)"
proof -
  let ?b = "bearer s" and ?x = "pe_ext E" and ?h = "to_ascii_lowercase input" and ?body = "JObj [(''handle'', JStr (to_ascii_lowercase input))]"
  let ?rq = "hub_request_of ?x ?b (Some ?body)"
  have sub: "signed_in (sv_app sv) ?rq = Some sub" by (rule serves_owner_signed_in [OF assms(1)])
  have body: "Option.bind (x_parse_json (server_ext sv) (rq_body ?rq)) decode_claim = Some (Some ?h)"
    using assms(6) by (simp add: hub_request_of_def decode_claim_def decode_struct_def dec_opt_string_def)
  have "canonical_handle input = Some ?h" using assms(4) by (simp add: pattern_canonical)
  then have can: "canonical_handle ?h = Some ?h" by (auto simp: canonical_handle_fixed dest: canonical_handle_ident)
  note granted = granted_claim [OF assms(1,2) body can sub assms(7,8)]
  have "hub_answer timeout sv ?x q w = (Status_body code (Inr (own_account sv r' (w\<lparr>w_db := d\<rparr>))), w\<lparr>w_db := d\<rparr>)"
    unfolding assms(9) by (rule write_on_hub [OF assms(1)]) (use granted(1) in \<open>simp_all add: own_paths own_routes assms(14)\<close>)
  then have w': "w' = w\<lparr>w_db := d\<rparr>" and a: "pe_answer E (length (br_sent s)) q = Status_body code (Inr (own_account sv r' w'))"
    using assms(10) by simp_all
  have st: "stable roster_canonical w" using assms(1) by (auto simp: serves_owner_def intro: stable_alone)
  then have "roster_canonical (w_db w')"
    using keepsD [OF user_endpoints_canonical(3) st, of "sv_app sv" ?rq] granted(1) by (simp add: stable_def w')
  moreover have "alone w'" using assms(1) by (simp add: w' serves_owner_def)
  moreover have "tab_get (tb_user (w_db w')) u = Some r'" using granted(2) by (simp add: w' assms(14))
  moreover have "ur_creo_sub r' = ur_creo_sub r" "ur_usr_id r' = Some u" using assms(2) by (simp_all add: assms(14))
  ultimately have served: "serves_owner timeout sv ?x ?b sub r' w'" by (intro serves_owner_changed [OF assms(1,2)])
  have api: "api E PUT ''/v1/me/handle'' (Some ?body) s = (Inr (own_account sv r' w'), sends [q] s)"
    unfolding assms(9) by (rule api_ok) (use a granted(3) in \<open>simp_all add: assms(9)\<close>)
  have "serves_owner timeout sv ?x (bearer (sends [q] s)) sub r' w'" using served by simp
  note names = load_names_on_hub [OF this assms(11), simplified]
  let ?s = "(sends (q # Call GET ''/v1/me/publishers'' ?b None # publication_calls E ?b (own_names sv r' w')) s)
    \<lparr>br_names := Some (shown_names sv r' w')\<rparr>"
  have "\<exists>h. names_view E (Some (shown_names sv r' w')) = Some h \<and>
      view E (own_account sv r' w') (Some (claim_message E self ?h)) ?s =
        (Inr (), ?s\<lparr>br_html := view_html E i (own_account sv r' w') h (Some (claim_message E self ?h)), br_screen := Settings_form (own_account sv r' w')\<rparr>)"
    by (rule view_on_hub) (use assms(12,13) in \<open>simp_all add: own_account_def account_json_fields\<close>)
  then obtain h where h: "names_view E (Some (shown_names sv r' w')) = Some h"
    "view E (own_account sv r' w') (Some (claim_message E self ?h)) ?s =
        (Inr (), ?s\<lparr>br_html := view_html E i (own_account sv r' w') h (Some (claim_message E self ?h)), br_screen := Settings_form (own_account sv r' w')\<rparr>)"
    by blast
  have "submit_handle E input s = ?s\<lparr>br_html := view_html E i (own_account sv r' w') h (Some (claim_message E self ?h)),
      br_screen := Settings_form (own_account sv r' w')\<rparr>"
    using assms(3-5) by (simp add: submit_handle_def Let_def pattern_trim thn_def api names h(2))
  then show ?thesis using h(1) served w' by (simp add: assms(14))
qed

section \<open>Concrete instances\<close>

text \<open>JSON as far as the two forms need it: a printer and a parser of objects with one member.\<close>

definition small_text :: "json \<Rightarrow> string" where
  "small_text v = (case v of JObj [(k, JStr t)] \<Rightarrow> k @ CHR '':'' # t | JObj [(k, JNull)] \<Rightarrow> k | _ \<Rightarrow> [])"

definition small_parse :: "string \<Rightarrow> json option" where
  "small_parse t = (case split_on (CHR '':'') t of [k] \<Rightarrow> Some (JObj [(k, JNull)]) | [k, v] \<Rightarrow> Some (JObj [(k, JStr v)]) | _ \<Rightarrow> None)"

lemma small_json: "CHR '':'' \<notin> set k \<Longrightarrow> CHR '':'' \<notin> set v \<Longrightarrow> small_parse (small_text (JObj [(k, JStr v)])) = Some (JObj [(k, JStr v)])"
  by (simp add: small_parse_def small_text_def split_on_append split_on_no_sep)

definition live_server :: server where
  "live_server = a_server\<lparr>sv_app := a_state\<lparr>st_ext := an_ext\<lparr>x_parse_json := small_parse\<rparr>\<rparr>\<rparr>"

definition live_page :: "(nat \<Rightarrow> sent \<Rightarrow> answer) \<Rightarrow> page_env" where
  "live_page answers = a_page\<lparr>pe_ext := an_ext\<lparr>x_json_text := small_text\<rparr>, pe_answer := answers\<rparr>"

text \<open>A tab with the token of a user; who it belongs to is the token itself.\<close>

definition tab_of :: "string \<Rightarrow> browser" where
  "tab_of sub = a_tab\<lparr>br_store := [AT \<mapsto> sub]\<rparr>"

lemma tab_of_simps [simp]: "br_sent (tab_of sub) = []" "br_names (tab_of sub) = None" "br_store (tab_of sub) = [AT \<mapsto> sub]"
  by (simp_all add: tab_of_def a_tab_def)

abbreviation live_world :: world where
  "live_world \<equiv> a_world roster_db"

lemma live_serves:
  "serves_owner no_limit live_server (pe_ext (live_page ans)) (bearer (tab_of ''sub_a'')) ''sub_a'' ann live_world"
  "serves_owner no_limit live_server (pe_ext (live_page ans)) (bearer (tab_of ''sub_c'')) ''sub_c'' cid live_world"
proof -
  have "find_user (\<lambda>r. ur_creo_sub r = Some ''sub_a'') roster_db = Some ann" "find_user (\<lambda>r. ur_creo_sub r = Some ''sub_c'') roster_db = Some cid"
    by (simp_all add: find_user_def tab_where_def roster_db_def row_simps)
  then show "serves_owner no_limit live_server (pe_ext (live_page ans)) (bearer (tab_of ''sub_a'')) ''sub_a'' ann live_world"
    "serves_owner no_limit live_server (pe_ext (live_page ans)) (bearer (tab_of ''sub_c'')) ''sub_c'' cid live_world"
    by (simp_all add: serves_owner_def roster_db_canonical no_limit_ok signed_in_def user_principal_def hub_request_of_def bearer_def
      tab_of_def a_tab_def strip_prefix_def live_server_def a_server_def a_state_def) (simp_all add: row_simps)
qed

text \<open>Ann opens the page: her account with her handle, and her name, which has no publications yet.\<close>

theorem opened_page_witness:
  "\<exists>page s'. s' = render page None (tab_of ''sub_a'') \<and> br_screen s' = Settings_form (own_account live_server ann live_world) \<and>
     get (own_account live_server ann live_world) ''handle'' = Some (JStr ''ann'') \<and>
     map fst (the (br_names s')) = [publisher_json \<lparr>pu_usr_id = ''usr_a'', pu_handle = ''ann'', pu_display_name = None,
       pu_canonical_path = ''/@ann'', pu_account_type = ''user''\<rparr> JNull] \<and> length (br_sent s') = 3"
proof -
  let ?E = "live_page (\<lambda>i q. fst (hub_answer no_limit live_server (an_ext\<lparr>x_json_text := small_text\<rparr>) q live_world))"
  let ?s = "tab_of ''sub_a''"
  have reads: "reads_from no_limit live_server ?E (length (br_sent ?s)) live_world"
    by (simp add: reads_from_def live_page_def)
  have tab: "signed_in_tab ?s" "id_claims ?E (case br_store ?s IDT of Some t \<Rightarrow> t | None \<Rightarrow> []) = JObj []"
    by (simp_all add: signed_in_tab_def tab_of_def id_claims_def)
  have names: "own_names live_server ann live_world = [(\<lparr>pu_usr_id = ''usr_a'', pu_handle = ''ann'', pu_display_name = None,
      pu_canonical_path = ''/@ann'', pu_account_type = ''user''\<rparr>, JNull)]"
    by (simp add: own_names_def names_of_def user_of_def row_simps public_of_def is_publisher_kind_def roster_db_def empty_db_def List.map_filter_simps)
  obtain h where h: "render ?E None ?s = (sends (Call GET ''/v1/me'' (bearer ?s) None # Call GET ''/v1/me/publishers'' (bearer ?s) None #
        publication_calls ?E (bearer ?s) (own_names live_server ann live_world)) ?s)
      \<lparr>br_names := Some (shown_names live_server ann live_world), br_html := view_html ?E (JObj []) (own_account live_server ann live_world) h None,
       br_screen := Settings_form (own_account live_server ann live_world)\<rparr>"
    using opened_page_shows_the_account [OF live_serves(1) reads tab, of None] by auto
  have "get (own_account live_server ann live_world) ''handle'' = Some (JStr ''ann'')"
    by (simp add: own_account_def account_json_fields user_of_def row_simps json_opt_def)
  then show ?thesis
    by (intro exI [of _ ?E] exI [of _ "render ?E None ?s"])
      (simp add: h shown_names_def names publication_calls_def)
qed

text \<open>Cid saves a name.\<close>

theorem typed_name_witness:
  "\<exists>page w'. tab_get (tb_user (w_db w')) ''usr_c'' = Some (cid\<lparr>ur_display_name := Some ''Cid''\<rparr>) \<and>
     br_screen (submit_name page '' Cid '' ((tab_of ''sub_c'')\<lparr>br_screen := Settings_form (JObj [])\<rparr>)) =
       Settings_form (own_account live_server (cid\<lparr>ur_display_name := Some ''Cid''\<rparr>) w')"
proof -
  let ?x = "an_ext\<lparr>x_json_text := small_text\<rparr>"
  let ?E = "live_page (\<lambda>i q. fst (hub_answer no_limit live_server ?x q live_world))"
  let ?s = "(tab_of ''sub_c'')\<lparr>br_screen := Settings_form (JObj [])\<rparr>"
  have b: "bearer ?s = bearer (tab_of ''sub_c'')" by (simp add: bearer_def)
  have blank: "\<not> js_blank (map code_of '' Cid '')" by code_simp
  have trimmed: "trim '' Cid '' = ''Cid''" by code_simp
  have name: "name_value '' Cid '' = JStr '' Cid ''" "saved_name '' Cid '' = Some ''Cid''"
    using blank trimmed by (simp_all only: name_value_def saved_name_def trimmed_name_def option.map if_False) (simp_all add: opt_filter_def)
  let ?q = "Call PATCH ''/v1/me'' (bearer ?s) (Some (JObj [(''displayName'', name_value '' Cid '')]))"
  obtain w' where w': "hub_answer no_limit live_server (pe_ext ?E) ?q live_world = (pe_answer ?E (length (br_sent ?s)) ?q, w')"
    by (cases "hub_answer no_limit live_server ?x ?q live_world") (simp add: live_page_def)
  have json: "x_parse_json (server_ext live_server) (x_json_text (pe_ext ?E) (JObj [(''displayName'', name_value '' Cid '')])) =
      Some (JObj [(''displayName'', name_value '' Cid '')])"
    using small_json [of "''displayName''" "'' Cid ''"] by (simp add: name live_server_def live_page_def)
  have short: "chars_count ''Cid'' \<le> 80" by code_simp
  have id: "ur_usr_id cid = Some ''usr_c''" by (simp add: row_simps)
  have tab: "id_claims ?E (case br_store ?s IDT of Some t \<Rightarrow> t | None \<Rightarrow> []) = JObj []" "names_view ?E (br_names ?s) = Some []"
    by (simp_all add: tab_of_def id_claims_def names_view_def a_tab_def)
  have row: "named_row cid (Some ''Cid'') = cid\<lparr>ur_display_name := Some ''Cid''\<rparr>" by (simp add: named_row_def row_simps)
  have "serves_owner no_limit live_server (pe_ext ?E) (bearer ?s) ''sub_c'' cid live_world" unfolding b by (rule live_serves)
  from typed_name_is_saved [OF this id _ json _ refl w' tab(2,1)] short
  have "tab_get (tb_user (w_db w')) ''usr_c'' = Some (cid\<lparr>ur_display_name := Some ''Cid''\<rparr>) \<and>
     br_screen (submit_name ?E '' Cid '' ?s) = Settings_form (own_account live_server (cid\<lparr>ur_display_name := Some ''Cid''\<rparr>) w')"
    by (simp add: name(2) row Let_def)
  then show ?thesis by blast
qed

text \<open>Cid claims a first handle.\<close>

theorem typed_handle_witness:
  "\<exists>page w'. tab_get (tb_user (w_db w')) ''usr_c'' = Some (cid\<lparr>ur_handle := Some ''dan''\<rparr>) \<and>
     br_screen (submit_handle page ''Dan'' ((tab_of ''sub_c'')\<lparr>br_screen := Settings_form (JObj [])\<rparr>)) =
       Settings_form (own_account live_server (cid\<lparr>ur_handle := Some ''dan''\<rparr>) w')"
proof -
  let ?x = "an_ext\<lparr>x_json_text := small_text\<rparr>"
  let ?s = "(tab_of ''sub_c'')\<lparr>br_screen := Settings_form (JObj [])\<rparr>"
  let ?q = "Call PUT ''/v1/me/handle'' (bearer ?s) (Some (JObj [(''handle'', JStr (to_ascii_lowercase ''Dan''))]))"
  let ?w' = "snd (hub_answer no_limit live_server ?x ?q live_world)"
  let ?E = "live_page (\<lambda>i q. fst (hub_answer no_limit live_server ?x q (if i = 0 then live_world else ?w')))"
  let ?d = "roster_db\<lparr>tb_user := tab_put ''usr_c'' (cid\<lparr>ur_handle := Some ''dan''\<rparr>) (tb_user roster_db)\<rparr>"
  have b: "bearer ?s = bearer (tab_of ''sub_c'')" by (simp add: bearer_def)
  have low: "to_ascii_lowercase ''Dan'' = ''dan''" by code_simp
  have w': "hub_answer no_limit live_server (pe_ext ?E) ?q live_world = (pe_answer ?E (length (br_sent ?s)) ?q, ?w')"
    by (simp add: live_page_def)
  have reads: "reads_from no_limit live_server ?E (Suc (length (br_sent ?s))) ?w'" by (simp add: reads_from_def live_page_def)
  have json: "x_parse_json (server_ext live_server) (x_json_text (pe_ext ?E) (JObj [(''handle'', JStr (to_ascii_lowercase ''Dan''))])) =
      Some (JObj [(''handle'', JStr (to_ascii_lowercase ''Dan''))])"
    using small_json [of "''handle''" "''dan''"] by (simp add: low live_server_def live_page_def)
  have outcome: "claim_outcome (server_ext live_server) ''usr_c'' cid (to_ascii_lowercase ''Dan'') (w_now live_world) (w_db live_world) = (201, ?d)"
    by (simp add: low claim_outcome_def claim_spec_def handle_available_def reserved_for_other_def find_user_def
        tab_where_def roster_db_def empty_db_def tab_get_def row_simps)
  have form: "pattern_ok ''Dan''" "\<not> form_disabled ?E (JObj [])"
    by (simp_all add: pattern_ok_def text_defs form_disabled_def truthy_def obj_get.simps)
  have id: "ur_usr_id cid = Some ''usr_c''" by (simp add: row_simps)
  have tab: "id_claims ?E (case br_store ?s IDT of Some t \<Rightarrow> t | None \<Rightarrow> []) = JObj []"
    by (simp add: tab_of_def id_claims_def)
  have row: "claim_row cid ''dan'' 0 = cid\<lparr>ur_handle := Some ''dan''\<rparr>" by (simp add: claim_row_def row_simps)
  have "serves_owner no_limit live_server (pe_ext ?E) (bearer ?s) ''sub_c'' cid live_world" unfolding b by (rule live_serves)
  from typed_handle_is_granted [OF this id _ form json outcome _ refl w' reads tab _ refl]
  have "?w' = live_world\<lparr>w_db := ?d\<rparr> \<and> br_screen (submit_handle ?E ''Dan'' ?s) = Settings_form (own_account live_server (cid\<lparr>ur_handle := Some ''dan''\<rparr>) ?w')"
    by (auto simp: low row)
  then show ?thesis by (intro exI [of _ ?E] exI [of _ ?w']) simp
qed

end
