(* ===== verification/Stored_Rows.thy ===== *)
theory Stored_Rows
  imports Resource_Store App_Roster
begin

text \<open>
  Rows as the database keeps them (\<open>crates/chronista-hub-server/src/storage.rs\<close>): the objects that
  are written to \<open>hub_resource\<close> and \<open>app\<close>, the decoding of what a \<open>SELECT\<close> returns, the merge that
  a registration writes, and the conditions of a filtered read with their bound parameters. The
  other theories keep rows as records; here those are shown to be what is stored and read back.
\<close>

section \<open>Resources\<close>

text \<open>The members of \<open>ResourceRow\<close>; an absent owner is left out.\<close>

definition resource_members :: "resource \<Rightarrow> (string \<times> json) list" where
  "resource_members r =
     [(''rid'', JStr (res_id r)), (''type'', JStr (res_type r)), (''path'', JStr (res_path r)),
      (''handle'', JStr (res_handle r))] @ opt_member ''owner'' (res_owner r) @
     [(''visibility'', JStr (visibility_str (res_visibility r))), (''payload'', res_payload r),
      (''createdAt'', JStr (res_created_at r)), (''updatedAt'', JStr (res_updated_at r))]"

text \<open>A derived unit enum: its text, or an object from its text to \<open>null\<close>.\<close>

definition dec_enum :: "(string \<Rightarrow> 'a option) \<Rightarrow> json option \<Rightarrow> 'a option" where
  "dec_enum f v = (case v of
     Some (JStr s) \<Rightarrow> f s
   | Some (JObj [(k, JNull)]) \<Rightarrow> f k
   | _ \<Rightarrow> None)"

definition resource_row_fields :: "(string \<times> bool) list" where
  "resource_row_fields = [(''rid'', False), (''type'', False), (''path'', False), (''handle'', False), (''owner'', True),
     (''visibility'', False), (''payload'', False), (''createdAt'', False), (''updatedAt'', False)]"

text \<open>\<open>serde_json::from_value::<ResourceRow>\<close> and \<open>Resource::from\<close>: other keys are ignored.\<close>

definition resource_of_row :: "json \<Rightarrow> resource option" where
  "resource_of_row v =
     (case decode_struct False resource_row_fields v of
        None \<Rightarrow> None
      | Some f \<Rightarrow>
          (case (dec_string (f ''rid''), dec_string (f ''type''), dec_string (f ''path''), dec_string (f ''handle''),
                 dec_opt_string (f ''owner''), dec_enum (visibility_of \<circ> Some) (f ''visibility''), f ''payload'',
                 dec_string (f ''createdAt''), dec_string (f ''updatedAt'')) of
             (Some i, Some t, Some p, Some h, Some ow, Some vis, Some pl, Some c, Some u) \<Rightarrow>
               Some \<lparr>res_id = i, res_type = t, res_path = p, res_handle = h, res_owner = ow, res_visibility = vis,
                 res_payload = pl, res_created_at = c, res_updated_at = u\<rparr>
           | _ \<Rightarrow> None))"

text \<open>\<open>rows_to_resources\<close>: the first row that cannot be decoded fails the whole read.\<close>

fun rows_to_resources :: "json list \<Rightarrow> error + resource list" where
  "rows_to_resources [] = Inr []"
| "rows_to_resources (v # vs) =
     (case resource_of_row v of
        None \<Rightarrow> Inl (anyhow [])
      | Some r \<Rightarrow> (case rows_to_resources vs of Inl e \<Rightarrow> Inl e | Inr rs \<Rightarrow> Inr (r # rs)))"

text \<open>A row that a \<open>SELECT *\<close> returns: its members, with the record id among them.\<close>

definition selected :: "json \<Rightarrow> (string \<times> json) list \<Rightarrow> json" where
  "selected i ms = JObj ((''id'', i) # ms)"

section \<open>Filtered reads\<close>

text \<open>
  The conditions that \<open>filter_clause\<close> writes into the statement, as the column and the name of the
  parameter that it has to equal, and the parameters that \<open>add_filter_binds\<close> binds.
\<close>

definition clause_conditions :: "tree_read_options \<Rightarrow> (string \<times> string) list" where
  "clause_conditions opts =
     (if tro_visibility opts \<noteq> None then [(''visibility'', ''visibility'')] else []) @
     (if tro_type opts \<noteq> None then [(''type'', ''rtype'')] else [])"

definition add_filter_binds :: "(string \<rightharpoonup> json) \<Rightarrow> tree_read_options \<Rightarrow> (string \<rightharpoonup> json)" where
  "add_filter_binds binds opts =
     (let binds = (case tro_visibility opts of Some v \<Rightarrow> binds(''visibility'' \<mapsto> JStr (visibility_str v)) | None \<Rightarrow> binds)
      in case tro_type opts of Some t \<Rightarrow> binds(''rtype'' \<mapsto> JStr t) | None \<Rightarrow> binds)"

text \<open>What the database does with such conditions on a stored row.\<close>

definition conditions_hold :: "(string \<times> string) list \<Rightarrow> (string \<rightharpoonup> json) \<Rightarrow> json \<Rightarrow> bool" where
  "conditions_hold cs binds row \<longleftrightarrow> list_all (\<lambda>(column, param). binds param \<noteq> None \<and> get row column = binds param) cs"

section \<open>Applications\<close>

definition APP_FIELDS_KEPT_ON_PUT :: "string list" where
  "APP_FIELDS_KEPT_ON_PUT = [''scopes'', ''verified'', ''manifest_version'', ''public_key_jwks_uri'']"

definition app_members :: "app_entry \<Rightarrow> (string \<times> json) list" where
  "app_members e =
     [(''app_id'', JStr (ae_app_id e)), (''name'', JStr (ae_name e))] @ opt_member ''description'' (ae_description e) @
     opt_member ''icon_url'' (ae_icon_url e) @ opt_member ''home_url'' (ae_home_url e) @ opt_member ''login_url'' (ae_login_url e) @
     opt_member ''manifest_url'' (ae_manifest_url e) @ [(''status'', JStr (app_status_str (ae_status e)))]"

definition app_fields :: "(string \<times> bool) list" where
  "app_fields = [(''app_id'', False), (''name'', False), (''description'', True), (''icon_url'', True), (''home_url'', True),
     (''login_url'', True), (''manifest_url'', True), (''status'', False)]"

definition app_of_row :: "json \<Rightarrow> app_entry option" where
  "app_of_row v =
     (case decode_struct False app_fields v of
        None \<Rightarrow> None
      | Some f \<Rightarrow>
          (case (dec_string (f ''app_id''), dec_string (f ''name''), dec_opt_string (f ''description''),
                 dec_opt_string (f ''icon_url''), dec_opt_string (f ''home_url''), dec_opt_string (f ''login_url''),
                 dec_opt_string (f ''manifest_url''), dec_enum app_status_of (f ''status'')) of
             (Some a, Some n, Some d, Some i, Some h, Some l, Some m, Some s) \<Rightarrow>
               Some \<lparr>ae_app_id = a, ae_name = n, ae_description = d, ae_icon_url = i, ae_home_url = h, ae_login_url = l,
                 ae_manifest_url = m, ae_status = s\<rparr>
           | _ \<Rightarrow> None))"

text \<open>The content that \<open>put_app\<close> writes: the kept members of the old row, then the new entry.\<close>

definition put_content :: "json option \<Rightarrow> app_entry \<Rightarrow> (string \<times> json) list" where
  "put_content existing e =
     (case existing of
        Some (JObj old) \<Rightarrow> List.map_filter (\<lambda>k. map_option (Pair k) (obj_get old k)) APP_FIELDS_KEPT_ON_PUT
      | _ \<Rightarrow> []) @ app_members e"

text \<open>A row of the roster as it is stored.\<close>

definition opt_json :: "string \<Rightarrow> json option \<Rightarrow> (string \<times> json) list" where
  "opt_json k v = (case v of None \<Rightarrow> [] | Some j \<Rightarrow> [(k, j)])"

definition app_row_members :: "app_row \<Rightarrow> (string \<times> json) list" where
  "app_row_members r =
     opt_json ''scopes'' (ar_scopes r) @ opt_json ''verified'' (ar_verified r) @
     opt_json ''manifest_version'' (ar_manifest_version r) @ opt_json ''public_key_jwks_uri'' (ar_public_key_jwks_uri r) @
     app_members (ar_entry r)"

section \<open>Reading back\<close>

lemma dec_simps [simp]:
  "dec_string (Some (JStr s)) = Some s" "dec_opt_string None = Some None" "dec_opt_string (Some (JStr s)) = Some (Some s)"
  "dec_enum f (Some (JStr s)) = f s"
  by (simp_all add: dec_string_def dec_opt_string_def dec_enum_def)

lemma map_of_opt_member: "map_of (opt_member k x @ ms) j = (if j = k \<and> x \<noteq> None then map_option JStr x else map_of ms j)"
  by (cases x) (auto simp: opt_member_def)

lemma opt_if: "(if x \<noteq> None then map_option f x else None) = map_option f x"
  by (cases x) simp_all

lemma keys_opt_member: "fst ` set (opt_member k x) \<subseteq> {k}"
  by (cases x) (auto simp: opt_member_def)

lemma filter_opt_member: "filter P (map fst (opt_member k x)) = (if x \<noteq> None \<and> P k then [k] else [])"
  by (cases x) (auto simp: opt_member_def)

lemma resource_of_selected: "resource_of_row (selected i (resource_members r)) = Some r"
proof -
  have "distinct (filter (\<lambda>k. k \<in> set (map fst resource_row_fields)) (map fst ((''id'', i) # resource_members r)))"
    by (simp add: resource_members_def resource_row_fields_def filter_opt_member)
  then have "decode_struct False resource_row_fields (selected i (resource_members r)) = Some (map_of ((''id'', i) # resource_members r))"
    by (simp add: decode_struct_def selected_def)
  then show ?thesis
    by (cases "res_owner r"; cases r) (simp_all add: resource_of_row_def resource_members_def map_of_opt_member opt_member_def)
qed

lemma rows_read_back: "rows_to_resources (map (\<lambda>r. selected (i r) (resource_members r)) rs) = Inr rs"
  by (induction rs) (simp_all add: resource_of_selected)

lemma rows_to_resources_eq:
  "rows_to_resources vs = (if None \<in> set (map resource_of_row vs) then Inl (anyhow []) else Inr (map (the \<circ> resource_of_row) vs))"
  by (induction vs) (auto split: option.splits)

lemma filter_on_rows:
  "conditions_hold (clause_conditions opts) (add_filter_binds binds opts) (selected i (resource_members r)) \<longleftrightarrow> filter_clause opts r"
proof -
  have vis: "visibility_str v = visibility_str w \<longleftrightarrow> v = w" for v w by (cases v; cases w) (simp_all add: visibility_str_def)
  have get: "get (selected i (resource_members r)) ''visibility'' = Some (JStr (visibility_str (res_visibility r)))"
    "get (selected i (resource_members r)) ''type'' = Some (JStr (res_type r))"
    by (cases "res_owner r"; simp add: selected_def resource_members_def obj_get.simps opt_member_def)+
  show ?thesis
    by (cases "tro_visibility opts"; cases "tro_type opts")
      (auto simp: conditions_hold_def clause_conditions_def add_filter_binds_def filter_clause_def get vis)
qed

lemma app_of_stored:
  assumes "set (map fst extra) \<inter> set (map fst app_fields) = {}"
  shows "app_of_row (JObj (extra @ app_members e)) = Some e"
proof -
  have none: "filter (\<lambda>k. k \<in> set (map fst app_fields)) (map fst extra) = []"
    using assms by (auto simp: filter_empty_conv)
  have "distinct (filter (\<lambda>k. k \<in> set (map fst app_fields)) (map fst (app_members e)))"
    by (simp add: app_members_def app_fields_def filter_opt_member)
  then have d: "decode_struct False app_fields (JObj (extra @ app_members e)) = Some (map_of (extra @ app_members e))"
    using none by (simp add: decode_struct_def)
  have "map_of (extra @ app_members e) k = map_of (app_members e) k" if "k \<in> set (map fst app_fields)" for k
  proof -
    have "map_of extra k = None" using assms that by (auto simp: map_of_eq_None_iff)
    then show ?thesis by (simp add: map_add_def)
  qed
  then have eq: "map_of (extra @ app_members e) k = map_of (app_members e) k"
    if "k \<in> {''app_id'', ''name'', ''description'', ''icon_url'', ''home_url'', ''login_url'', ''manifest_url'', ''status''}" for k
    using that by (simp add: app_fields_def)
  have m: "map_of (app_members e) ''app_id'' = Some (JStr (ae_app_id e))" "map_of (app_members e) ''name'' = Some (JStr (ae_name e))"
    "map_of (app_members e) ''description'' = map_option JStr (ae_description e)"
    "map_of (app_members e) ''icon_url'' = map_option JStr (ae_icon_url e)"
    "map_of (app_members e) ''home_url'' = map_option JStr (ae_home_url e)"
    "map_of (app_members e) ''login_url'' = map_option JStr (ae_login_url e)"
    "map_of (app_members e) ''manifest_url'' = map_option JStr (ae_manifest_url e)"
    "map_of (app_members e) ''status'' = Some (JStr (app_status_str (ae_status e)))"
    by (simp_all del: map_of_append add: app_members_def map_of_opt_member opt_if)
  have o: "dec_opt_string (map_option JStr x) = Some x" for x by (cases x) simp_all
  show ?thesis by (simp del: map_of_append add: app_of_row_def d eq m o)
qed

lemma kept_members: "set (map fst (opt_json k v)) \<subseteq> {k}"
  by (cases v) (auto simp: opt_json_def)

lemma app_of_row_members: "app_of_row (JObj (app_row_members r)) = Some (ar_entry r)"
proof -
  let ?extra = "opt_json ''scopes'' (ar_scopes r) @ opt_json ''verified'' (ar_verified r) @
     opt_json ''manifest_version'' (ar_manifest_version r) @ opt_json ''public_key_jwks_uri'' (ar_public_key_jwks_uri r)"
  have "set (map fst ?extra) \<subseteq> {''scopes'', ''verified'', ''manifest_version'', ''public_key_jwks_uri''}"
    using kept_members by auto
  then have "set (map fst ?extra) \<inter> set (map fst app_fields) = {}" by (auto simp: app_fields_def)
  from app_of_stored [OF this] show ?thesis by (simp add: app_row_members_def)
qed

lemma app_members_keys: "fst ` set (app_members e) \<subseteq> set (map fst app_fields)"
  using keys_opt_member by (fastforce simp: app_members_def app_fields_def)

lemma obj_get_entry: "k \<in> set APP_FIELDS_KEPT_ON_PUT \<Longrightarrow> obj_get (app_members e) k = None"
proof -
  assume "k \<in> set APP_FIELDS_KEPT_ON_PUT"
  then have "k \<notin> set (map fst app_fields)" by (auto simp: APP_FIELDS_KEPT_ON_PUT_def app_fields_def)
  then show ?thesis using app_members_keys [of e] by (auto simp: obj_get.simps map_of_eq_None_iff)
qed

lemma obj_get_opt_json: "obj_get (opt_json k v @ ms) j = (case obj_get ms j of Some w \<Rightarrow> Some w | None \<Rightarrow> if j = k then v else None)"
  by (cases v) (auto simp: opt_json_def obj_get.simps map_add_def split: option.split)

lemma case_option_id: "(case x of None \<Rightarrow> None | Some y \<Rightarrow> Some y) = x"
  by (cases x) simp_all

lemma kept_of_row:
  "obj_get (app_row_members r) ''scopes'' = ar_scopes r" "obj_get (app_row_members r) ''verified'' = ar_verified r"
  "obj_get (app_row_members r) ''manifest_version'' = ar_manifest_version r"
  "obj_get (app_row_members r) ''public_key_jwks_uri'' = ar_public_key_jwks_uri r"
proof -
  have "obj_get (app_members (ar_entry r)) ''scopes'' = None" "obj_get (app_members (ar_entry r)) ''verified'' = None"
    "obj_get (app_members (ar_entry r)) ''manifest_version'' = None" "obj_get (app_members (ar_entry r)) ''public_key_jwks_uri'' = None"
    by (rule obj_get_entry, simp add: APP_FIELDS_KEPT_ON_PUT_def)+
  then show "obj_get (app_row_members r) ''scopes'' = ar_scopes r" "obj_get (app_row_members r) ''verified'' = ar_verified r"
    "obj_get (app_row_members r) ''manifest_version'' = ar_manifest_version r"
    "obj_get (app_row_members r) ''public_key_jwks_uri'' = ar_public_key_jwks_uri r"
    by (simp_all del: obj_get.simps add: app_row_members_def obj_get_opt_json case_option_id)
qed

lemma kept_members_of:
  "List.map_filter (\<lambda>k. map_option (Pair k) (f k)) APP_FIELDS_KEPT_ON_PUT =
     opt_json ''scopes'' (f ''scopes'') @ opt_json ''verified'' (f ''verified'') @
     opt_json ''manifest_version'' (f ''manifest_version'') @ opt_json ''public_key_jwks_uri'' (f ''public_key_jwks_uri'')"
  by (cases "f ''scopes''"; cases "f ''verified''"; cases "f ''manifest_version''"; cases "f ''public_key_jwks_uri''")
    (simp_all add: APP_FIELDS_KEPT_ON_PUT_def opt_json_def List.map_filter_simps)

lemma put_content_row: "put_content (map_option (\<lambda>r. JObj (app_row_members r)) old) e = app_row_members (app_content old e)"
proof (cases old)
  case None
  then show ?thesis by (simp add: put_content_def app_row_members_def app_content_def opt_json_def)
next
  case (Some r)
  then show ?thesis
    by (simp del: obj_get.simps add: put_content_def kept_members_of kept_of_row app_row_members_def [of "app_content (Some r) e"]) 
      (simp add: app_content_def)
qed

section \<open>Properties\<close>

text \<open>The reads of the REST surface on stored rows: the guard and the order.\<close>

definition row_guard :: "json \<Rightarrow> bool" where
  "row_guard v \<longleftrightarrow> \<not> (get_str v ''type'' \<in> {Some ''vp-node'', Some ''vp-world''} \<and> get v ''visibility'' \<noteq> Some (JStr ''public''))"

definition row_created :: "json \<Rightarrow> string" where
  "row_created v = (case get_str v ''createdAt'' of Some c \<Rightarrow> c | None \<Rightarrow> [])"

lemma stored_fields:
  "get (selected i (resource_members r)) ''handle'' = Some (JStr (res_handle r))"
  "get_str (selected i (resource_members r)) ''type'' = Some (res_type r)"
  "get (selected i (resource_members r)) ''visibility'' = Some (JStr (visibility_str (res_visibility r)))"
  "get_str (selected i (resource_members r)) ''createdAt'' = Some (res_created_at r)"
  by (cases "res_owner r"; simp add: selected_def resource_members_def obj_get.simps opt_member_def get_str_def)+

lemma insort_key_map: "insort_key f (g x) (map g xs) = map g (insort_key (\<lambda>y. f (g y)) x xs)"
  by (induction xs) auto

lemma sort_key_map: "sort_key f (map g xs) = map g (sort_key (\<lambda>y. f (g y)) xs)"
  by (induction xs) (simp_all add: insort_key_map)

lemma row_guard_stored: "row_guard (selected i (resource_members r)) = VP_NODE_REST_GUARD r"
  by (cases "res_visibility r") (auto simp: row_guard_def VP_NODE_REST_GUARD_def stored_fields visibility_str_def)

text \<open>
  C37: reading the tree by its stored rows gives what the reads of records give: the rows of the table with
  their record ids, filtered by the guard, the handle and the written conditions with the parameters that are bound,
  sorted by their time and limited, decode without an error to exactly the result of \<open>get_resources_by_handle\<close>.
\<close>

theorem tree_reads_decode:
  assumes "alone w"
  shows "get_resources_by_handle handle opts w =
    (rows_to_resources (limit_to (tro_limit opts) (sort_key row_created
       (filter (\<lambda>v. row_guard v \<and> conditions_hold ((''handle'', ''handle'') # clause_conditions opts)
            (add_filter_binds [''handle'' \<mapsto> JStr handle] opts) v)
         (map (\<lambda>(k, r). selected (JStr k) (resource_members r)) (tb_resource (w_db w)))))), w)"
proof -
  let ?g = "\<lambda>(k, r). selected (JStr k) (resource_members r)"
  let ?P = "\<lambda>r. res_handle r = handle \<and> VP_NODE_REST_GUARD r \<and> filter_clause opts r"
  let ?binds = "add_filter_binds [''handle'' \<mapsto> JStr handle] opts"
  have bound: "?binds ''handle'' = Some (JStr handle)"
    by (simp add: add_filter_binds_def Let_def split: option.split)
  have cond: "row_guard (?g kr) \<and> conditions_hold ((''handle'', ''handle'') # clause_conditions opts) ?binds (?g kr) \<longleftrightarrow> ?P (snd kr)" for kr
    using filter_on_rows [of opts "[''handle'' \<mapsto> JStr handle]" "JStr (fst kr)" "snd kr"] bound
    by (cases kr) (auto simp: conditions_hold_def row_guard_stored stored_fields)
  have created: "row_created (?g kr) = res_created_at (snd kr)" for kr by (cases kr) (simp add: row_created_def stored_fields)
  have decode: "rows_to_resources (map ?g xs) = Inr (map snd xs)" for xs :: "(string \<times> resource) list"
    by (induction xs) (auto simp: resource_of_selected)
  have limit: "limit_to l (map f xs) = map f (limit_to l xs)" for l and f :: "string \<times> resource \<Rightarrow> 'x" and xs
    by (simp add: limit_to_def take_map split: option.split)
  have "rows_to_resources (limit_to (tro_limit opts) (sort_key row_created
       (filter (\<lambda>v. row_guard v \<and> conditions_hold ((''handle'', ''handle'') # clause_conditions opts) ?binds v)
         (map ?g (tb_resource (w_db w)))))) =
    Inr (limit_to (tro_limit opts) (by_created (tab_where ?P (tb_resource (w_db w)))))"
    by (simp add: filter_map comp_def cond sort_key_map created limit decode by_created_def tab_where_def)
  then show ?thesis using assms by (simp add: get_resources_by_handle_def quiet)
qed

text \<open>
  a registration in the roster writes what the model says: the members that \<open>put_app\<close> merges, the kept
  ones of the old row and the new entry, are those of the new row; decoding them gives the entry that was put, and every kept
  member reads as before.
\<close>

theorem registration_keeps_fields:
  "put_content (map_option (\<lambda>r. JObj (app_row_members r)) old) e = app_row_members (app_content old e) \<and>
   app_of_row (JObj (app_row_members (app_content old e))) = Some e \<and>
   (\<forall>k r. k \<in> set APP_FIELDS_KEPT_ON_PUT \<and> old = Some r \<longrightarrow>
      obj_get (app_row_members (app_content old e)) k = obj_get (app_row_members r) k)"
proof (intro conjI allI impI; (elim conjE)?)
  show "app_of_row (JObj (app_row_members (app_content old e))) = Some e" by (simp add: app_of_row_members)
  fix k r
  assume "k \<in> set APP_FIELDS_KEPT_ON_PUT" "old = Some r"
  then show "obj_get (app_row_members (app_content old e)) k = obj_get (app_row_members r) k"
    by (auto simp del: obj_get.simps simp: APP_FIELDS_KEPT_ON_PUT_def kept_of_row app_content_def)
qed (rule put_content_row)

section \<open>Concrete instances\<close>

definition shown_node :: resource where
  "shown_node = a_node\<lparr>res_visibility := Public\<rparr>"

theorem tree_reads_decode_witness:
  "rows_to_resources (limit_to (Some 5) (sort_key row_created
     (filter (\<lambda>v. row_guard v \<and> conditions_hold ((''handle'', ''handle'') # clause_conditions (no_options\<lparr>tro_limit := Some 5\<rparr>))
          (add_filter_binds [''handle'' \<mapsto> JStr ''alice''] (no_options\<lparr>tro_limit := Some 5\<rparr>)) v)
       [selected (JStr ''vp-node:w1'') (resource_members shown_node), selected (JStr ''vp-node:w2'') (resource_members a_node)]))) =
   Inr [shown_node]"
proof -
  let ?d = "empty_db\<lparr>tb_resource := [(''vp-node:w1'', shown_node), (''vp-node:w2'', a_node)]\<rparr>"
  have "get_resources_by_handle ''alice'' (no_options\<lparr>tro_limit := Some 5\<rparr>) (a_world ?d) = (Inr [shown_node], a_world ?d)"
    by (simp add: get_resources_by_handle_def quiet tab_where_def VP_NODE_REST_GUARD_def filter_clause_def no_options_def
      by_created_def limit_to_def shown_node_def a_node_def)
  then show ?thesis
    using tree_reads_decode [of "a_world ?d" "''alice''" "no_options\<lparr>tro_limit := Some 5\<rparr>"] by (simp add: no_options_def)
qed

theorem registration_witness:
  "\<exists>old. obj_get (app_row_members (app_content (Some old) (an_app\<lparr>ae_name := ''Packing''\<rparr>))) ''manifest_version'' = Some (JStr ''1.2.0'') \<and>
     app_of_row (JObj (put_content (Some (JObj (app_row_members old))) (an_app\<lparr>ae_name := ''Packing''\<rparr>))) = Some (an_app\<lparr>ae_name := ''Packing''\<rparr>)"
proof -
  let ?old = "\<lparr>ar_entry = an_app, ar_scopes = None, ar_verified = None, ar_manifest_version = Some (JStr ''1.2.0''),
    ar_public_key_jwks_uri = None\<rparr>"
  have "''manifest_version'' \<in> set APP_FIELDS_KEPT_ON_PUT" by (simp add: APP_FIELDS_KEPT_ON_PUT_def)
  moreover have "obj_get (app_row_members ?old) ''manifest_version'' = Some (JStr ''1.2.0'')"
    by (simp only: kept_of_row app_row.simps)
  ultimately show ?thesis
    using registration_keeps_fields [of "Some ?old" "an_app\<lparr>ae_name := ''Packing''\<rparr>"] by (intro exI [of _ ?old]) auto
qed

end
