(* ===== verification/Config.thy ===== *)
theory Config
  imports Http_Base
begin

text \<open>
  The configuration from the environment (\<open>crates/chronista-hub-server/src/config.rs\<close>). The
  environment gives each variable's value when it is set to valid text.
\<close>

type_synonym environment = "string \<Rightarrow> string option"

datatype db_auth_level = RootLevel | NamespaceLevel | DatabaseLevel

record db_auth =
  da_level :: db_auth_level
  da_username :: string
  da_password :: string

datatype unison_cert = Dev | SelfSigned "string list" | CertFile string string

record auth_config =
  ac_issuer :: string
  ac_jwks_url :: string
  ac_audiences :: "string list"
  ac_stub_auth_allowed :: bool
  ac_allow_stub_app_token :: bool
  ac_admin_key :: "string option"
  ac_jwks_refresh_secs :: nat
  ac_settings :: "settings_config option"

record config =
  cf_port :: nat
  cf_namespace :: string
  cf_database :: string
  cf_db_url :: string
  cf_db_auth :: "db_auth option"
  cf_auto_migrate :: bool
  cf_migrations_dir :: string
  cf_db_check_secs :: nat
  cf_unison_addr :: string
  cf_unison_cert :: unison_cert
  cf_unison_cert_out :: "string option"
  cf_federation_auth_required :: bool
  cf_auth :: auth_config

definition or_else :: "string option \<Rightarrow> string \<Rightarrow> string" where
  "or_else v d = (case v of Some s \<Rightarrow> s | None \<Rightarrow> d)"

definition non_empty :: "string option \<Rightarrow> string option" where
  "non_empty v = opt_filter (\<lambda>s. s \<noteq> []) v"

definition trailing_slash :: "string \<Rightarrow> string" where
  "trailing_slash s = (if suffix ''/'' s then s else s @ ''/'')"

text \<open>A list of texts between commas, without blanks; nothing when none is left.\<close>

definition comma_list :: "string option \<Rightarrow> string list option" where
  "comma_list v = opt_filter (\<lambda>xs. xs \<noteq> [])
     (map_option (\<lambda>s. filter (\<lambda>p. p \<noteq> []) (map trim (split_on (CHR '','') s))) v)"

definition resolve_db_url :: "string option \<Rightarrow> string option \<Rightarrow> string" where
  "resolve_db_url db_url db_path =
     (case non_empty db_url of
        Some url \<Rightarrow> url
      | None \<Rightarrow> ''rocksdb://'' @ or_else (non_empty db_path) ''./data/hub.rocksdb'')"

text \<open>
  The texts of the two errors; the second quotes the given level (as it is: what \<open>{:?}\<close> would escape
  in it is not).
\<close>

definition both_needed :: string where
  "both_needed =
     ''SURREALDB_USERNAME '' @
     [CHR 0xE3, CHR 0x81, CHR 0xA8] @
     '' SURREALDB_PASSWORD '' @
     [CHR 0xE3, CHR 0x81, CHR 0xAF, CHR 0xE4, CHR 0xB8, CHR 0xA1, CHR 0xE6, CHR 0x96, CHR 0xB9, CHR 0xE8, CHR 0xA8, CHR 0xAD, CHR 0xE5, CHR 0xAE, CHR 0x9A, CHR 0xE3, CHR 0x81, CHR 0x99, CHR 0xE3, CHR 0x82, CHR 0x8B]"

definition unknown_level :: "string \<Rightarrow> string" where
  "unknown_level level = ''SURREALDB_AUTH_LEVEL='' @ [CHR 0x22] @ level @
     [CHR 0x22] @
     '' '' @
     [CHR 0xE3, CHR 0x81, CHR 0xAF, CHR 0xE4, CHR 0xB8, CHR 0x8D, CHR 0xE6, CHR 0xAD, CHR 0xA3] @
     '' (root / namespace / database)''"

definition parse_db_auth :: "string option \<Rightarrow> string option \<Rightarrow> string option \<Rightarrow> error + db_auth option" where
  "parse_db_auth username password level =
     (case (non_empty username, non_empty password) of
        (None, None) \<Rightarrow> Inr None
      | (Some u, Some p) \<Rightarrow>
          (let l = or_else (non_empty level) ''database'';
               auth = (\<lambda>lv. Inr (Some \<lparr>da_level = lv, da_username = u, da_password = p\<rparr>))
           in if l = ''root'' then auth RootLevel
              else if l = ''namespace'' then auth NamespaceLevel
              else if l = ''database'' then auth DatabaseLevel
              else Inl (anyhow (unknown_level l)))
      | _ \<Rightarrow> Inl (anyhow both_needed))"

definition unison_cert_of :: "environment \<Rightarrow> unison_cert" where
  "unison_cert_of env =
     (let mode = env ''CHRONISTA_HUB_CERT_MODE''
      in if mode = Some ''self-signed'' \<or> mode = Some ''selfsigned''
         then SelfSigned (case comma_list (env ''CHRONISTA_HUB_CERT_SANS'') of
           Some xs \<Rightarrow> xs | None \<Rightarrow> [''localhost'', ''::1'', ''127.0.0.1''])
         else if mode = Some ''file''
         then CertFile (or_else (env ''CHRONISTA_HUB_CERT_PATH'') []) (or_else (env ''CHRONISTA_HUB_CERT_KEY_PATH'') [])
         else Dev)"

definition settings_of :: "environment \<Rightarrow> settings_config option" where
  "settings_of env = map_option (\<lambda>client_id.
     \<lparr>se_client_id = client_id,
      se_public_url = trim_end_char (CHR ''/'') (or_else (non_empty (env ''HUB_PUBLIC_URL'')) ''https://hub.chronista.club''),
      se_audience = or_else (non_empty (env ''HUB_LOGIN_AUDIENCE'')) ''https://id.anycreative.tech''\<rparr>)
     (non_empty (env ''HUB_CLIENT_ID''))"

definition parsed :: "nat \<Rightarrow> string option \<Rightarrow> nat \<Rightarrow> nat" where
  "parsed bits v d = (case Option.bind v (parse_uint bits) of Some n \<Rightarrow> n | None \<Rightarrow> d)"

definition auth_of :: "environment \<Rightarrow> auth_config" where
  "auth_of env =
     (let issuer = or_else (env ''CREO_ID_ISSUER'') ''https://id.creo-memories.in/''
      in \<lparr>ac_issuer = issuer,
          ac_jwks_url = or_else (env ''CREO_ID_JWKS_URL'') (trailing_slash issuer @ ''.well-known/jwks.json''),
          ac_audiences = (case comma_list (env ''CREO_ID_AUDIENCES'') of Some xs \<Rightarrow> xs | None \<Rightarrow> [''chronista-hub'']),
          ac_stub_auth_allowed = (env ''STUB_AUTH_ALLOWED'' = Some ''true''),
          ac_allow_stub_app_token = (env ''STUB_APP_TOKEN_ALLOWED'' = Some ''true''),
          ac_admin_key = non_empty (env ''HUB_ADMIN_KEY''),
          ac_jwks_refresh_secs = parsed 64 (env ''JWKS_REFRESH_SECS'') 300,
          ac_settings = settings_of env\<rparr>)"

definition from_env :: "environment \<Rightarrow> error + config" where
  "from_env env =
     (case parse_db_auth (env ''SURREALDB_USERNAME'') (env ''SURREALDB_PASSWORD'') (env ''SURREALDB_AUTH_LEVEL'') of
        Inl e \<Rightarrow> Inl e
      | Inr db_auth \<Rightarrow> Inr
         \<lparr>cf_port = parsed 16 (env ''CHRONISTA_HUB_PORT'') 3000,
          cf_namespace = or_else (env ''SURREALDB_NAMESPACE'') ''chronista'',
          cf_database = or_else (env ''SURREALDB_DATABASE'') ''hub'',
          cf_db_url = resolve_db_url (env ''CHRONISTA_HUB_DB_URL'') (env ''CHRONISTA_HUB_DB_PATH''),
          cf_db_auth = db_auth,
          cf_auto_migrate = (env ''AUTO_MIGRATE_ENABLED'' = Some ''true''),
          cf_migrations_dir = or_else (env ''MIGRATIONS_DIR'') ''./migrations'',
          cf_db_check_secs = max (parsed 64 (env ''CHRONISTA_HUB_DB_CHECK_SECS'') 10) 2,
          cf_unison_addr = or_else (env ''CHRONISTA_HUB_UNISON_ADDR'') ''[::1]:7879'',
          cf_unison_cert = unison_cert_of env,
          cf_unison_cert_out = non_empty (env ''CHRONISTA_HUB_CERT_OUT''),
          cf_federation_auth_required = (env ''CHRONISTA_HUB_FEDERATION_AUTH'' = Some ''required''),
          cf_auth = auth_of env\<rparr>)"

section \<open>Properties\<close>

lemma non_empty_Some: "non_empty v = Some s \<longleftrightarrow> v = Some s \<and> s \<noteq> []"
  by (auto simp: non_empty_def opt_filter_eq_Some)

lemma comma_list_ok: "comma_list v = Some xs \<Longrightarrow> xs \<noteq> [] \<and> [] \<notin> set xs"
  by (auto simp: comma_list_def opt_filter_eq_Some)

lemma parsed_bound: "d < 2 ^ bits \<Longrightarrow> parsed bits v d < 2 ^ bits"
  by (auto simp: parsed_def bind_eq_Some_conv split: option.split dest: parse_uint_bound)

text \<open>
  credentials of the database are all or nothing: with a user name and a password and a known
  level they are taken as given, with neither there are none, and anything else stops the start.
\<close>

theorem db_credentials_all_or_nothing:
  "parse_db_auth username password level =
     (case (non_empty username, non_empty password) of
        (None, None) \<Rightarrow> Inr None
      | (Some u, Some p) \<Rightarrow>
          (case map_of [(''root'', RootLevel), (''namespace'', NamespaceLevel), (''database'', DatabaseLevel)]
              (or_else (non_empty level) ''database'') of
             Some l \<Rightarrow> Inr (Some \<lparr>da_level = l, da_username = u, da_password = p\<rparr>)
           | None \<Rightarrow> Inl (anyhow (unknown_level (or_else (non_empty level) ''database''))))
      | _ \<Rightarrow> Inl (anyhow both_needed))"
  by (auto simp: parse_db_auth_def Let_def split: option.split)

text \<open>
  C40: whatever the environment is, a configuration that comes out of it is safe to start with:
  the port and the intervals fit their types, the watchdog waits at least two seconds, there is an
  audience, an admin key and a client id are never empty (an empty admin key would be one that
  every request without a key has), the public address has no slash at its end, and unsigned
  tokens are allowed only by the exact text \<open>true\<close>.
\<close>

theorem configuration_is_sound:
  assumes "from_env env = Inr cfg"
  shows "cf_port cfg < 2 ^ 16 \<and> 2 \<le> cf_db_check_secs cfg \<and> cf_db_check_secs cfg < 2 ^ 64 \<and>
    ac_audiences (cf_auth cfg) \<noteq> [] \<and> [] \<notin> set (ac_audiences (cf_auth cfg)) \<and>
    ac_admin_key (cf_auth cfg) \<noteq> Some [] \<and> cf_db_url cfg \<noteq> [] \<and>
    (case ac_settings (cf_auth cfg) of None \<Rightarrow> True
     | Some s \<Rightarrow> se_client_id s \<noteq> [] \<and> se_audience s \<noteq> [] \<and> \<not> suffix ''/'' (se_public_url s)) \<and>
    (ac_stub_auth_allowed (cf_auth cfg) \<or> ac_allow_stub_app_token (cf_auth cfg) \<longleftrightarrow>
       env ''STUB_AUTH_ALLOWED'' = Some ''true'' \<or> env ''STUB_APP_TOKEN_ALLOWED'' = Some ''true'')"
proof -
  have slash: "\<not> suffix ''/'' (trim_end_char (CHR ''/'') s)" for s
    using trim_end_char_last [of "CHR ''/''" s] by (auto simp: suffix_def)
  have aud: "ac_audiences (auth_of env) \<noteq> [] \<and> [] \<notin> set (ac_audiences (auth_of env))"
    by (auto simp: auth_of_def Let_def split: option.split dest: comma_list_ok)
  have settings: "case settings_of env of None \<Rightarrow> True
     | Some s \<Rightarrow> se_client_id s \<noteq> [] \<and> se_audience s \<noteq> [] \<and> \<not> suffix ''/'' (se_public_url s)"
    by (auto simp: settings_of_def slash or_else_def non_empty_Some split: option.split)
  have url: "resolve_db_url u p \<noteq> []" for u p
    by (auto simp: resolve_db_url_def non_empty_Some split: option.split)
  show ?thesis
    using assms aud settings url parsed_bound [of 3000 16 "env ''CHRONISTA_HUB_PORT''"]
      parsed_bound [of 10 64 "env ''CHRONISTA_HUB_DB_CHECK_SECS''"]
    by (auto simp: from_env_def auth_of_def Let_def non_empty_Some split: sum.splits)
qed

theorem configuration_witness:
  "\<exists>cfg. from_env (\<lambda>_. None) = Inr cfg \<and> cf_db_check_secs cfg = 10 \<and> 2 \<le> cf_db_check_secs cfg \<and>
     cf_db_url cfg = ''rocksdb://./data/hub.rocksdb''"
proof -
  obtain cfg where c: "from_env (\<lambda>_. None) = Inr cfg" "cf_db_check_secs cfg = 10" "cf_db_url cfg = ''rocksdb://./data/hub.rocksdb''"
    by (simp add: from_env_def parse_db_auth_def non_empty_def parsed_def resolve_db_url_def or_else_def)
  show ?thesis using configuration_is_sound [OF c(1)] c by blast
qed

end
