(* ===== verification/Debug_Output.thy ===== *)
theory Debug_Output
  imports Config Product_Token
begin

text \<open>
  What \<open>{:?}\<close> shows of the values that hold secrets (\<open>crates/chronista-hub-server/src/config.rs\<close>,
  \<open>db.rs\<close>, \<open>product_token.rs\<close>): the derived instances and the three that are written out to leave a
  secret away, as the calls that they make of the formatter.
\<close>

section \<open>Instances\<close>

text \<open>Texts, numbers, truth values, unit variants, options, lists and structs.\<close>

datatype debug =
    Debug_text string
  | Debug_number nat
  | Debug_bool bool
  | Debug_unit string
  | Debug_option "debug option"
  | Debug_list "debug list"
  | Debug_struct string "(string \<times> debug) list"

definition debug_opt :: "('a \<Rightarrow> debug) \<Rightarrow> 'a option \<Rightarrow> debug" where
  "debug_opt f x = Debug_option (map_option f x)"

definition debug_texts :: "string list \<Rightarrow> debug" where
  "debug_texts xs = Debug_list (map Debug_text xs)"

definition debug_level :: "db_auth_level \<Rightarrow> debug" where
  "debug_level l = Debug_unit (case l of RootLevel \<Rightarrow> ''Root'' | NamespaceLevel \<Rightarrow> ''Namespace'' | DatabaseLevel \<Rightarrow> ''Database'')"

definition debug_db_auth :: "db_auth \<Rightarrow> debug" where
  "debug_db_auth a = Debug_struct ''DbAuth''
     [(''level'', debug_level (da_level a)), (''username'', Debug_text (da_username a)), (''password'', Debug_text ''<redacted>'')]"

definition debug_cert :: "unison_cert \<Rightarrow> debug" where
  "debug_cert c = (case c of
     Dev \<Rightarrow> Debug_unit ''Dev''
   | SelfSigned sans \<Rightarrow> Debug_struct ''SelfSigned'' [(''sans'', debug_texts sans)]
   | CertFile cert key \<Rightarrow> Debug_struct ''File'' [(''cert_path'', Debug_text cert), (''key_path'', Debug_text key)])"

definition debug_settings :: "settings_config \<Rightarrow> debug" where
  "debug_settings s = Debug_struct ''SettingsConfig''
     [(''client_id'', Debug_text (se_client_id s)), (''public_url'', Debug_text (se_public_url s)), (''audience'', Debug_text (se_audience s))]"

definition debug_auth :: "auth_config \<Rightarrow> debug" where
  "debug_auth a = Debug_struct ''AuthConfig''
     [(''issuer'', Debug_text (ac_issuer a)), (''jwks_url'', Debug_text (ac_jwks_url a)), (''audiences'', debug_texts (ac_audiences a)),
      (''stub_auth_allowed'', Debug_bool (ac_stub_auth_allowed a)), (''allow_stub_app_token'', Debug_bool (ac_allow_stub_app_token a)),
      (''admin_key'', debug_opt Debug_text (ac_admin_key a)), (''jwks_refresh_secs'', Debug_number (ac_jwks_refresh_secs a)),
      (''settings'', debug_opt debug_settings (ac_settings a))]"

definition debug_config :: "config \<Rightarrow> debug" where
  "debug_config c = Debug_struct ''Config''
     [(''port'', Debug_number (cf_port c)), (''namespace'', Debug_text (cf_namespace c)), (''database'', Debug_text (cf_database c)),
      (''db_url'', Debug_text (cf_db_url c)), (''db_auth'', debug_opt debug_db_auth (cf_db_auth c)),
      (''auto_migrate'', Debug_bool (cf_auto_migrate c)), (''migrations_dir'', Debug_text (cf_migrations_dir c)),
      (''db_check_secs'', Debug_number (cf_db_check_secs c)), (''unison_addr'', Debug_text (cf_unison_addr c)),
      (''unison_cert'', debug_cert (cf_unison_cert c)), (''unison_cert_out'', debug_opt Debug_text (cf_unison_cert_out c)),
      (''federation_auth_required'', Debug_bool (cf_federation_auth_required c)), (''auth'', debug_auth (cf_auth c))]"

text \<open>What a connection is made to again, and the handle of the database with the number of its rebuilt connections.\<close>

record target =
  tg_url :: string
  tg_auth :: "db_auth option"
  tg_ns :: string
  tg_db :: string

definition debug_target :: "target \<Rightarrow> debug" where
  "debug_target t = Debug_struct ''Target''
     [(''url'', Debug_text (tg_url t)), (''auth'', debug_opt debug_db_auth (tg_auth t)), (''ns'', Debug_text (tg_ns t)), (''db'', Debug_text (tg_db t))]"

definition debug_db :: "target \<Rightarrow> nat \<Rightarrow> debug" where
  "debug_db t generation = Debug_struct ''Db'' [(''target'', debug_target t), (''generation'', Debug_number generation)]"

definition debug_issued_token :: "issued_token \<Rightarrow> debug" where
  "debug_issued_token it = Debug_struct ''IssuedToken''
     [(''token'', Debug_text ''[REDACTED]''), (''token_id'', Debug_text (it_token_id it)), (''app_id'', Debug_text (it_app_id it)),
      (''scopes'', debug_texts (it_scopes it)), (''expires_at'', Debug_text (it_expires_at it))]"

section \<open>What they hide\<close>

definition without_password :: "db_auth option \<Rightarrow> db_auth option" where
  "without_password = map_option (\<lambda>a. a\<lparr>da_password := []\<rparr>)"

lemma debug_texts_eq [simp]: "debug_texts xs = debug_texts ys \<longleftrightarrow> xs = ys"
  by (simp add: debug_texts_def inj_map_eq_map inj_def)

lemma debug_opt_eq: "(\<And>x y. f x = f y \<longleftrightarrow> g x = g y) \<Longrightarrow> debug_opt f a = debug_opt f b \<longleftrightarrow> map_option g a = map_option g b"
  by (cases a; cases b) (simp_all add: debug_opt_def)

lemma debug_opt_text [simp]: "debug_opt Debug_text a = debug_opt Debug_text b \<longleftrightarrow> a = b"
  by (cases a; cases b) (simp_all add: debug_opt_def)

lemma debug_settings_eq [simp]: "debug_opt debug_settings a = debug_opt debug_settings b \<longleftrightarrow> a = b"
  by (cases a; cases b) (auto simp: debug_opt_def debug_settings_def)

lemma debug_cert_eq [simp]: "debug_cert a = debug_cert b \<longleftrightarrow> a = b"
  by (cases a; cases b) (simp_all add: debug_cert_def)

lemma debug_level_eq [simp]: "debug_level a = debug_level b \<longleftrightarrow> a = b"
  by (cases a; cases b) (simp_all add: debug_level_def)

lemma debug_auth_eq [simp]: "debug_auth a = debug_auth b \<longleftrightarrow> a = b"
  by (auto simp: debug_auth_def)

lemma debug_db_auth_eq: "debug_opt debug_db_auth a = debug_opt debug_db_auth b \<longleftrightarrow> without_password a = without_password b"
  unfolding without_password_def
proof (rule debug_opt_eq)
  fix x y :: db_auth
  show "debug_db_auth x = debug_db_auth y \<longleftrightarrow> x\<lparr>da_password := []\<rparr> = y\<lparr>da_password := []\<rparr>"
    by (cases x; cases y) (simp add: debug_db_auth_def)
qed

text \<open>
  Of a configuration and of the handle of the database, \<open>{:?}\<close> hides the password and nothing else: two of them
  look alike exactly when they differ at most in it. The administration key is shown.
\<close>

theorem debug_hides_only_the_password:
  "debug_config c = debug_config c' \<longleftrightarrow>
     c\<lparr>cf_db_auth := without_password (cf_db_auth c)\<rparr> = c'\<lparr>cf_db_auth := without_password (cf_db_auth c')\<rparr>"
  "debug_db t n = debug_db t' n' \<longleftrightarrow>
     n = n' \<and> t\<lparr>tg_auth := without_password (tg_auth t)\<rparr> = t'\<lparr>tg_auth := without_password (tg_auth t')\<rparr>"
proof -
  show "debug_config c = debug_config c' \<longleftrightarrow>
     c\<lparr>cf_db_auth := without_password (cf_db_auth c)\<rparr> = c'\<lparr>cf_db_auth := without_password (cf_db_auth c')\<rparr>"
    by (cases c; cases c') (auto simp: debug_config_def debug_db_auth_eq)
  show "debug_db t n = debug_db t' n' \<longleftrightarrow>
     n = n' \<and> t\<lparr>tg_auth := without_password (tg_auth t)\<rparr> = t'\<lparr>tg_auth := without_password (tg_auth t')\<rparr>"
    by (cases t; cases t') (auto simp: debug_db_def debug_target_def debug_db_auth_eq)
qed

text \<open>Of an issued token, \<open>{:?}\<close> hides the token and nothing else.\<close>

theorem debug_hides_only_the_token:
  "debug_issued_token it = debug_issued_token it' \<longleftrightarrow> it\<lparr>it_token := []\<rparr> = it'\<lparr>it_token := []\<rparr>"
  by (cases it; cases it') (auto simp: debug_issued_token_def)

end
