(* ===== verification/Unit_Tests.thy ===== *)
theory Unit_Tests
  imports Hub_Flows Debug_Output
begin

text \<open>
  The unit tests that stand in the files of the server (\<open>#[cfg(test)]\<close>), on the model: what the code's
  own tests ask of its operations, as predicates, and that the operations of the model pass them. Each is named
  as the test is. What a test takes from outside (the clock, the printed times) is a parameter, and the
  test holds for all its values.
\<close>

section \<open>Errors of the database (\<open>db.rs\<close>)\<close>

definition sdk :: "string \<Rightarrow> bool \<Rightarrow> bool \<Rightarrow> bool \<Rightarrow> error" where
  "sdk m connection session auth =
     [Sdk \<lparr>sdk_is_connection = connection, sdk_session_not_found = session, sdk_auth_expired = auth, sdk_message = m\<rparr>]"

definition typed_errors :: "(error \<times> string) list" where
  "typed_errors =
     [(sdk ''Session not found: 47a7bd1b'' False True False, ''session''),
      (sdk ''IO error'' True False False, ''connection''),
      (sdk ''The session has expired'' False False True, ''auth'')]"

definition wrapped_errors :: "(string \<times> string) list" where
  "wrapped_errors =
     [(''Session not found: 47a7bd1b-dbd6-4a7f-bc2c-5f258570c2da'', ''session''),
      (''The session has expired'', ''auth''),
      (''Anonymous access not allowed: Not enough permissions to perform this action'', ''auth''),
      (''Failed to send command: channel closed'', ''connection''),
      (''Connection uninitialised'', ''connection''),
      (''IO error: Connection refused (os error 61)'', ''connection''),
      (''db ping timed out after 5s'', ''timeout'')]"

definition query_errors :: "string list" where
  "query_errors =
     [''Database index `user_handle_idx` already contains '' @ quoted ''mito'',
      ''Parse error: Unexpected token'',
      ''IAM error: Not enough permissions to perform this action'',
      ''Found '' @ quoted ''WebSocket'' @ '' for field `url`, but field must conform to: string::starts_with($value, '' @
        quoted ''https://'' @ '')'']"

definition unavailable_errors_are_told_apart_from_query_errors :: bool where
  "unavailable_errors_are_told_apart_from_query_errors \<longleftrightarrow>
     list_all (\<lambda>(e, kind). kind_of e = Some kind \<and> is_unavailable (with_context ''list_active_apps'' e)) typed_errors \<and>
     list_all (\<lambda>(m, kind). kind_of (anyhow m) = Some kind) wrapped_errors \<and>
     list_all (\<lambda>m. \<not> is_unavailable (anyhow m)) query_errors"

text \<open>The markers in a text, decided by looking at its suffixes.\<close>

fun occurs :: "string \<Rightarrow> string \<Rightarrow> bool" where
  "occurs k [] = (k = [])"
| "occurs k (c # m) = (prefix k (c # m) \<or> occurs k m)"

lemma contains_str_occurs: "contains_str m k = occurs k m"
  unfolding contains_str_def by (induction m) (auto simp: sublist_Cons_right)

lemmas kinds = kind_of_def is_unavailable_def typed_kind_def marker_kind_def MARKERS_def anyhow_def contains_str_occurs
  with_context_def quoted_def sdk_def

lemma typed_errors_pass:
  "list_all (\<lambda>(e, kind). kind_of e = Some kind \<and> is_unavailable (with_context ''list_active_apps'' e)) typed_errors"
  by (simp add: typed_errors_def kinds)

lemma wrapped_errors_pass: "list_all (\<lambda>(m, kind). kind_of (anyhow m) = Some kind) wrapped_errors"
  by (simp add: wrapped_errors_def kinds)

lemma query_errors_pass: "list_all (\<lambda>m. \<not> is_unavailable (anyhow m)) query_errors"
  by (simp add: query_errors_def kinds)

lemma unavailable_errors_test: unavailable_errors_are_told_apart_from_query_errors
  unfolding unavailable_errors_are_told_apart_from_query_errors_def
  by (intro conjI typed_errors_pass wrapped_errors_pass query_errors_pass)

text \<open>
  The checks of a database in memory, whose ping succeeds: one check, and a call to reopen it, which
  such a database never does.
\<close>

definition memory_db :: db_state where
  "memory_db = connected ''mem://''"

definition embedded_checks_pass_and_never_reconnect :: "int \<Rightarrow> (error + unit) option \<Rightarrow> (error + unit) option \<Rightarrow> bool" where
  "embedded_checks_pass_and_never_reconnect now reopened second \<longleftrightarrow>
     (let s = checked 0 now (Some (Inr ())) reopened second memory_db
      in dh_checked_at (ds_health memory_db) = None \<and> dh_ok (ds_health s) \<and> dh_checked_at (ds_health s) \<noteq> None \<and>
         \<not> reopens (ds_url s) None reopened \<and> ds_generation s = 0 \<and> dh_reconnects (ds_health s) = 0)"

lemma memory_not_remote: "\<not> is_remote ''mem://''"
  by (simp add: is_remote_def)

lemma embedded_checks_test: "embedded_checks_pass_and_never_reconnect now reopened second"
  by (simp add: embedded_checks_pass_and_never_reconnect_def memory_db_def connected_def checked_def check_once_def reopens_def
    ping_result_def finish_def initial_health_def record_health_def memory_not_remote)

section \<open>Configuration (\<open>config.rs\<close>)\<close>

definition db_url_tests :: bool where
  "db_url_tests \<longleftrightarrow>
     resolve_db_url None None = ''rocksdb://./data/hub.rocksdb'' \<and>
     resolve_db_url None (Some ''/app/data/hub.rocksdb'') = ''rocksdb:///app/data/hub.rocksdb'' \<and>
     resolve_db_url (Some ''ws://100.82.103.64:8001'') (Some ''/app/data/hub.rocksdb'') = ''ws://100.82.103.64:8001'' \<and>
     resolve_db_url (Some []) (Some ''/x'') = ''rocksdb:///x''"

definition is_err :: "'e + 'a \<Rightarrow> bool" where
  "is_err r \<longleftrightarrow> (case r of Inl _ \<Rightarrow> True | Inr _ \<Rightarrow> False)"

definition db_auth_tests :: bool where
  "db_auth_tests \<longleftrightarrow>
     parse_db_auth None None None = Inr None \<and>
     (case parse_db_auth (Some ''hub'') (Some ''secret'') None of
        Inr (Some auth) \<Rightarrow> da_level auth = DatabaseLevel \<and> da_username auth = ''hub'' \<and> da_password auth = ''secret''
      | _ \<Rightarrow> False) \<and>
     list_all (\<lambda>(s, level). case parse_db_auth (Some ''u'') (Some ''p'') (Some s) of
         Inr (Some auth) \<Rightarrow> da_level auth = level | _ \<Rightarrow> False)
       [(''root'', RootLevel), (''namespace'', NamespaceLevel), (''database'', DatabaseLevel)] \<and>
     is_err (parse_db_auth (Some ''u'') None None) \<and> is_err (parse_db_auth None (Some ''p'') None) \<and>
     is_err (parse_db_auth (Some ''u'') (Some ''p'') (Some ''admin''))"

text \<open>The texts that a printed value shows, and the password of the test among them.\<close>

fun debug_shows :: "string \<Rightarrow> debug \<Rightarrow> bool" where
  "debug_shows k (Debug_text s) = contains_str s k"
| "debug_shows k (Debug_number n) = False"
| "debug_shows k (Debug_bool b) = False"
| "debug_shows k (Debug_unit s) = contains_str s k"
| "debug_shows k (Debug_option x) = (case x of None \<Rightarrow> False | Some y \<Rightarrow> debug_shows k y)"
| "debug_shows k (Debug_list xs) = list_ex (debug_shows k) xs"
| "debug_shows k (Debug_struct name ms) = (contains_str name k \<or> list_ex (\<lambda>(m, x). contains_str m k \<or> debug_shows k x) ms)"

definition db_auth_debug_does_not_leak_password :: bool where
  "db_auth_debug_does_not_leak_password \<longleftrightarrow>
     (case parse_db_auth (Some ''u'') (Some ''hunter2'') None of
        Inr (Some auth) \<Rightarrow> \<not> debug_shows ''hunter2'' (debug_db_auth auth) | _ \<Rightarrow> False)"

lemma db_url_pass: db_url_tests
  by (simp add: db_url_tests_def resolve_db_url_def non_empty_def or_else_def)

lemma db_auth_pass: db_auth_tests
  by (simp add: db_auth_tests_def parse_db_auth_def non_empty_def or_else_def is_err_def)

lemma db_auth_debug_pass: db_auth_debug_does_not_leak_password
  by (simp add: db_auth_debug_does_not_leak_password_def parse_db_auth_def non_empty_def or_else_def debug_db_auth_def
    debug_level_def contains_str_occurs)

section \<open>The HTTP surface (\<open>app.rs\<close>)\<close>

definition test_state :: "ext \<Rightarrow> app_state" where
  "test_state x = \<lparr>st_ext = x, st_verifier = stub_verifier x, st_admin_key = None, st_issuer = ''https://id.creo-memories.in/'',
     st_settings = None, st_service = ''chronista-hub'', st_version = ''0.0.1''\<rparr>"

text \<open>A request to the router of the test: the status and the body.\<close>

definition test_get :: "ext \<Rightarrow> db_health \<Rightarrow> string list \<Rightarrow> world \<Rightarrow> (nat \<times> json) option" where
  "test_get x h path w =
     (case fst (serve no_limit \<lparr>sv_app = test_state x, sv_health = h, sv_js = []\<rparr> GET path no_credentials w) of
        Inr resp \<Rightarrow> (case rs_body resp of JsonBody v \<Rightarrow> Some (rs_status resp, v) | _ \<Rightarrow> None)
      | Inl _ \<Rightarrow> None)"

definition at_member :: "json \<Rightarrow> string list \<Rightarrow> json option" where
  "at_member v ks = fold (\<lambda>k r. Option.bind r (\<lambda>u. get u k)) ks (Some v)"

definition answers_with :: "(nat \<times> json) option \<Rightarrow> nat \<Rightarrow> (string list \<times> json) list \<Rightarrow> bool" where
  "answers_with r status members \<longleftrightarrow>
     (case r of Some (s, v) \<Rightarrow> s = status \<and> list_all (\<lambda>(ks, u). at_member v ks = Some u) members | None \<Rightarrow> False)"

definition deep_health_turns_503_when_the_database_is_down_and_shallow_stays_200 :: "ext \<Rightarrow> world \<Rightarrow> int \<Rightarrow> int \<Rightarrow> bool" where
  "deep_health_turns_503_when_the_database_is_down_and_shallow_stays_200 x w failed_at checked_at \<longleftrightarrow>
     (let shallow = [''health'']; deep = [''health'', ''deep''];
          down = record_health failed_at (Inl (anyhow ''Session not found: 47a7bd1b'')) initial_health;
          back = record_health checked_at (check_once ''mem://'' (Some (Inr ())) None None) down
      in list_all (\<lambda>uri. answers_with (test_get x initial_health uri w) 200
           [([''status''], JStr ''ok''), ([''db'', ''ok''], JBool True)]) [shallow, deep] \<and>
         answers_with (test_get x down deep w) 503
           [([''status''], JStr ''degraded''), ([''db'', ''ok''], JBool False), ([''db'', ''lastError''], JStr ''session'')] \<and>
         answers_with (test_get x down shallow w) 200 [([''db'', ''ok''], JBool False)] \<and>
         answers_with (test_get x back deep w) 200 [([''db'', ''lastError''], JStr ''session'')])"

definition database_errors_are_503_with_retry_after_and_others_stay_500 :: bool where
  "database_errors_are_503_with_retry_after_and_others_stay_500 \<longleftrightarrow>
     (let resp = app_error_response (anyhow ''Session not found: 47a7bd1b'');
          other = app_error_response (anyhow ''Parse error'')
      in rs_status resp = 503 \<and> map_of (rs_headers resp) ''retry-after'' = Some ''5'' \<and> rs_db_unavailable resp \<and>
         rs_status other = 500 \<and> \<not> rs_db_unavailable other)"

lemma test_get_health:
  "test_get x h [''health''] w = Some (200, JObj [(''status'', JStr ''ok''), (''service'', JStr ''chronista-hub''),
     (''version'', JStr ''0.0.1''), (''timestamp'', JInt (now_ms (w_now w))), (''db'', db_health_json h)])"
  "test_get x h [''health'', ''deep''] w = Some (if dh_ok h then 200 else 503,
     JObj [(''status'', JStr (if dh_ok h then ''ok'' else ''degraded'')), (''service'', JStr ''chronista-hub''),
     (''version'', JStr ''0.0.1''), (''timestamp'', JInt (now_ms (w_now w))), (''db'', db_health_json h)])"
  by (simp_all add: test_get_def serve_def guard_db_def no_limit_def respond_def route_def on_def health_def health_deep_def
    health_body_def test_state_def bnd_steps json_response_def)

lemma error_kinds: "kind_of (anyhow ''Session not found: 47a7bd1b'') = Some ''session''" "kind_of (anyhow ''Parse error'') = None"
  by (simp_all add: kinds)

lemma health_test: "deep_health_turns_503_when_the_database_is_down_and_shallow_stays_200 x w failed_at checked_at"
  by (simp add: deep_health_turns_503_when_the_database_is_down_and_shallow_stays_200_def test_get_health answers_with_def
    at_member_def initial_health_def record_health_def db_health_json_def json_opt_def obj_get.simps error_kinds
    check_once_def ping_result_def)

lemma error_answer_test: database_errors_are_503_with_retry_after_and_others_stay_500
  by (simp add: database_errors_are_503_with_retry_after_and_others_stay_500_def app_error_response_def is_unavailable_def
    error_kinds db_unavailable_def)

section \<open>The start page (\<open>start.rs\<close>)\<close>

definition test_entry :: "string \<Rightarrow> string option \<Rightarrow> app_entry" where
  "test_entry name icon_url = \<lparr>ae_app_id = ''x'', ae_name = name, ae_description = None, ae_icon_url = icon_url, ae_home_url = None,
     ae_login_url = Some ''https://x.example/login'', ae_manifest_url = None, ae_status = Active\<rparr>"

definition official_icon_is_an_img_and_a_missing_one_is_an_escaped_initial :: bool where
  "official_icon_is_an_img_and_a_missing_one_is_an_escaped_initial \<longleftrightarrow>
     (let page_text = app_list [test_entry ''Creo'' (Some ''https://creo-memories.in/creo-logo-v2.svg''), test_entry ''<X&Y'' None]
      in contains_str page_text ''<img class=\"icon\" src=\"https://creo-memories.in/creo-logo-v2.svg\"'' \<and>
         contains_str page_text ''placeholder\" aria-hidden=\"true\">&lt;</span>'' \<and>
         (\<not> contains_str page_text ''>&lt;X&amp;Y</strong>'' \<or> contains_str page_text ''&lt;X&amp;Y''))"

text \<open>The last line of the test holds of every text: the one text is a part of the other.\<close>

lemma start_test_last_line: "\<not> contains_str page_text ''>&lt;X&amp;Y</strong>'' \<or> contains_str page_text ''&lt;X&amp;Y''"
proof -
  have "sublist ''&lt;X&amp;Y'' ''>&lt;X&amp;Y</strong>''"
    using contains_strI [of "''>&lt;X&amp;Y</strong>''" "''>''" "''&lt;X&amp;Y''" "''</strong>''"] by (simp add: contains_str_def)
  then show ?thesis by (auto simp: contains_str_def intro: sublist_order.order.trans)
qed

lemma start_test: official_icon_is_an_img_and_a_missing_one_is_an_escaped_initial
proof -
  let ?html = "app_list [test_entry ''Creo'' (Some ''https://creo-memories.in/creo-logo-v2.svg''), test_entry ''<X&Y'' None]"
  have "contains_str ?html ''<img class=\"icon\" src=\"https://creo-memories.in/creo-logo-v2.svg\"''"
    by (simp add: app_list_def app_item_def app_icon_def test_entry_def escape_def replace_char_def first_char_def contains_str_occurs)
  moreover have "contains_str ?html ''placeholder\" aria-hidden=\"true\">&lt;</span>''"
    by (simp add: app_list_def app_item_def app_icon_def test_entry_def escape_def replace_char_def first_char_def is_continuation_def code_of_def contains_str_occurs)
  ultimately show ?thesis
    using start_test_last_line by (simp add: official_icon_is_an_img_and_a_missing_one_is_an_escaped_initial_def Let_def)
qed

section \<open>The federation surface (\<open>unison_server.rs\<close>)\<close>

definition register_reply :: json where
  "register_reply = JObj [(''node_id'', JStr ''nd_a''), (''handle'', JStr ''a''), (''registered_at'', JStr ''t'')]"

definition relay_registry_register_skip_unregister :: "nat \<Rightarrow> bool" where
  "relay_registry_register_skip_unregister ctx \<longleftrightarrow>
     (let (r1, n1) = sync_relay_registry ctx ''Register'' register_reply (\<lambda>_. None) [];
          (r2, n2) = sync_relay_registry ctx ''Register'' (JObj [(''node_id'', JNull), (''handle'', JStr ''b'')]) r1 n1;
          (r3, n3) = sync_relay_registry ctx ''Register'' register_reply r2 n2;
          (r4, n4) = sync_relay_registry ctx ''Unregister'' (JObj [(''node_id'', JStr ''nd_a''), (''removed'', JInt 1)]) r3 n3
      in r1 ''nd_a'' \<noteq> None \<and> n1 = [''nd_a''] \<and> card (dom r2) = 1 \<and> length n3 = 1 \<and> r4 ''nd_a'' = None \<and> n4 = [])"

definition memory_world :: "nat \<Rightarrow> (nat \<Rightarrow> char) \<Rightarrow> world" where
  "memory_world now rand = \<lparr>w_db = empty_db, w_now = now, w_script = [], w_kicked = False, w_rand = rand, w_drawn = 0\<rparr>"

definition discover_reports_liveness :: "ext \<Rightarrow> world \<Rightarrow> bool" where
  "discover_reports_liveness x w \<longleftrightarrow>
     (case bnd (register_node x (Some ''nd_live'') ''live-node'' ''live-node'' [] None Public) (\<lambda>_.
           bnd (register_node x (Some ''nd_stale'') ''stale-node'' ''stale-node'' [] None Public) (\<lambda>_.
           bnd (register_node x None ''legacy-node'' ''legacy-node'' [] None Public) (\<lambda>_.
           handle_nodes x None False ''Discover'' (JObj []) (\<lambda>n. n = ''nd_live'')))) w of
        (Inr reply, _) \<Rightarrow>
          (case Option.bind (get reply ''nodes'') as_array of
             None \<Rightarrow> False
           | Some nodes \<Rightarrow>
               (let connected_of = (\<lambda>h. Option.bind (List.find (\<lambda>v. get_str v ''handle'' = Some h) nodes) (\<lambda>v. get v ''connected''))
                in length nodes = 3 \<and> connected_of ''live-node'' = Some (JBool True) \<and>
                   connected_of ''stale-node'' = Some (JBool False) \<and> connected_of ''legacy-node'' = Some (JBool False)))
      | _ \<Rightarrow> False)"

text \<open>The payload of the two control frames.\<close>

fun frame_value :: "frame \<Rightarrow> json" where
  "frame_value (Status status detail) = JObj [(''status'', JStr status), (''detail'', JStr detail)]"
| "frame_value (OpenFrom source) = JObj [(''from'', JStr source)]"
| "frame_value (Payload v) = v"

definition relay_control_frames :: bool where
  "relay_control_frames \<longleftrightarrow>
     (let st = frame_value (Status ''established'' ''nd_b''); op = frame_value (OpenFrom ''nd_a'')
      in get st ''status'' = Some (JStr ''established'') \<and> get st ''detail'' = Some (JStr ''nd_b'') \<and>
         get op ''from'' = Some (JStr ''nd_a''))"

definition test_user :: "string \<Rightarrow> string list \<Rightarrow> conn_principal" where
  "test_user user_id scopes = HubPrincipal (User user_id None scopes)"

definition test_app :: "string \<Rightarrow> string list \<Rightarrow> conn_principal" where
  "test_app app_id scopes = HubPrincipal (App app_id scopes)"

definition authorize_federation_hub_authority :: bool where
  "authorize_federation_hub_authority \<longleftrightarrow>
     \<not> is_err (authorize_federation (Some (test_user ''usr_a'' [])) ''federation.read'' True) \<and>
     \<not> is_err (authorize_federation (Some (test_app ''vp'' [''federation.read''])) ''federation.read'' True) \<and>
     is_err (authorize_federation (Some (test_app ''vp'' [''events.write''])) ''federation.read'' True) \<and>
     is_err (authorize_federation None ''federation.read'' True) \<and>
     \<not> is_err (authorize_federation None ''federation.read'' False)"

definition principal_usr_id_extraction :: bool where
  "principal_usr_id_extraction \<longleftrightarrow>
     principal_usr_id (Some (test_user ''usr_a'' [])) = Some ''usr_a'' \<and>
     principal_usr_id (Some (test_app ''vp'' [])) = None \<and> principal_usr_id None = None"

definition parse_visibility_rules :: bool where
  "parse_visibility_rules \<longleftrightarrow>
     (let pl = (\<lambda>v. JObj [(''visibility'', JStr v)])
      in parse_visibility (pl ''public'') (Some ''usr_a'') = Inr Public \<and>
         parse_visibility (pl ''private'') None = Inr Private \<and>
         parse_visibility (JObj []) (Some ''usr_a'') = Inr Private \<and>
         parse_visibility (JObj []) None = Inr Public \<and>
         is_err (parse_visibility (pl ''shared'') (Some ''usr_a'')) \<and>
         is_err (parse_visibility (pl ''friends'') (Some ''usr_a'')))"

lemma relay_registry_test: "relay_registry_register_skip_unregister ctx"
  by (simp add: relay_registry_register_skip_unregister_def register_reply_def sync_relay_registry_def get_str_def obj_get.simps)

lemma relay_frames_test: relay_control_frames
  by (simp add: relay_control_frames_def obj_get.simps)

lemma authorize_test: authorize_federation_hub_authority
  by (simp add: authorize_federation_hub_authority_def authorize_federation_def test_user_def test_app_def is_err_def)

lemma principal_test: principal_usr_id_extraction
  by (simp add: principal_usr_id_extraction_def principal_usr_id_def test_user_def test_app_def)

lemma visibility_test: parse_visibility_rules
  by (simp add: parse_visibility_rules_def parse_visibility_def get_str_def obj_get.simps is_err_def)

text \<open>Registering a node that is not there.\<close>

lemma register_free:
  assumes "alone w" and "tab_get (tb_resource (w_db w)) (node_rid (opt_default h n)) = None"
  shows "register_node x n h nm eps owner v w = (Inr (x_time_str x (w_now w)), w\<lparr>w_db := (w_db w)\<lparr>tb_resource :=
    tab_put (node_rid (opt_default h n)) (node_row (node_rid (opt_default h n)) n h nm eps owner v (x_time_str x (w_now w)))
      (tb_resource (w_db w))\<rparr>\<rparr>)"
  using assms by (cases n) (simp_all add: register_node_def quiet first_of_def opt_default_def Let_def)

lemma discover_test: "discover_reports_liveness x (memory_world now rand)"
proof -
  let ?row = "\<lambda>n h. node_row (node_rid (opt_default h n)) n h h [] None Public (x_time_str x now)"
  let ?live = "node_row ''vp-node:nd_live'' (Some ''nd_live'') ''live-node'' ''live-node'' [] None Public (x_time_str x now)"
  let ?stale = "node_row ''vp-node:nd_stale'' (Some ''nd_stale'') ''stale-node'' ''stale-node'' [] None Public (x_time_str x now)"
  let ?legacy = "node_row ''vp-node:legacy-node'' None ''legacy-node'' ''legacy-node'' [] None Public (x_time_str x now)"
  let ?w = "\<lambda>rows. (memory_world now rand)\<lparr>w_db := empty_db\<lparr>tb_resource := rows\<rparr>\<rparr>"
  have empty: "memory_world now rand = ?w []" by (simp add: memory_world_def empty_db_def)
  have add: "register_node x n h h [] None Public (?w rows) =
      (Inr (x_time_str x now), ?w (rows @ [(node_rid (opt_default h n), ?row n h)]))"
    if "node_rid (opt_default h n) \<notin> fst ` set rows" for n h rows
  proof -
    have "AList.update k v ts = ts @ [(k, v)]" if "k \<notin> fst ` set ts" for k v and ts :: "(string \<times> resource) list"
      using that by (induction ts) auto
    from this [OF that] show ?thesis
      using that by (subst register_free) (auto simp: memory_world_def alone_def tab_get_def tab_put_def map_of_eq_None_iff)
  qed
  have keys: "node_rid (opt_default ''live-node'' (Some ''nd_live'')) = ''vp-node:nd_live''"
    "node_rid (opt_default ''stale-node'' (Some ''nd_stale'')) = ''vp-node:nd_stale''"
    "node_rid (opt_default ''legacy-node'' None) = ''vp-node:legacy-node''"
    by (simp_all add: node_rid_def opt_default_def)
  note a1 = add [of "''live-node''" "Some ''nd_live''" "[]", unfolded keys]
  note a2 = add [of "''stale-node''" "Some ''nd_stale''" "[(''vp-node:nd_live'', ?live)]", unfolded keys]
  note a3 = add [of "''legacy-node''" None "[(''vp-node:nd_live'', ?live), (''vp-node:nd_stale'', ?stale)]", unfolded keys]
  have discovered: "handle_nodes x None False ''Discover'' (JObj []) live (?w rows) =
      (Inr (JObj [(''nodes'', JArr (map (node_json live) (by_created (tab_where (node_visible_to None) rows))))]), ?w rows)" for live rows
    by (simp add: handle_nodes_def discover_method_def authorize_federation_def list_nodes_visible_to_def quiet memory_world_def
      alone_def principal_usr_id_def)
  have listed: "by_created (tab_where (node_visible_to None)
      [(''vp-node:nd_live'', ?live), (''vp-node:nd_stale'', ?stale), (''vp-node:legacy-node'', ?legacy)]) = [?live, ?stale, ?legacy]"
    by (simp add: by_created_def tab_where_def node_visible_to_def node_row_def)
  have found: "get_str (node_json live (node_row k n h h [] None Public at)) ''handle'' = Some h"
    "get (node_json live (node_row k n h h [] None Public at)) ''connected'' =
       Some (JBool (case n of Some i \<Rightarrow> live i | None \<Rightarrow> False))" for live k n h at
    by (cases n; simp add: node_json_def node_row_def node_payload_def get_str_def obj_get.simps json_opt_def Let_def)+
  show ?thesis
    unfolding discover_reports_liveness_def
    by (subst empty) (simp add: a1 a2 a3 discovered listed found obj_get.simps)
qed

end
