(* ===== verification/Node_Clients.thy ===== *)
theory Node_Clients
  imports Hub_Flows Config
begin

text \<open>
  The client programs of the repository (\<open>crates/chronista-hub-server/examples/\<close>): the discovery demo
  \<open>nodes_demo\<close>, the clean-up \<open>registry_gc\<close>, the probes \<open>live_probe\<close> and \<open>quic_probe\<close>, as programs over the client side of
  the unison library, and that library's connections as the hub of the model serves them: what the programs
  promise is proved against the hub's own \<open>nodes\<close> channel and its REST surface. The texts that they print are given by
  the values in them.
\<close>

section \<open>Clients\<close>

datatype client_error =
    Transport string
  | Unreadable string
  | No_node_ids
  | Discovery_failed "string list"
  | Not_restored "json option"

type_synonym ('s, 'a) client = "'s \<Rightarrow> (client_error + 'a) \<times> 's"

definition cret :: "'a \<Rightarrow> ('s, 'a) client" where
  "cret a s = (Inr a, s)"

definition cfail :: "client_error \<Rightarrow> ('s, 'a) client" where
  "cfail e s = (Inl e, s)"

definition cbnd :: "('s, 'a) client \<Rightarrow> ('a \<Rightarrow> ('s, 'b) client) \<Rightarrow> ('s, 'b) client" where
  "cbnd m f s = (case m s of (Inl e, s') \<Rightarrow> (Inl e, s') | (Inr a, s') \<Rightarrow> f a s')"

text \<open>The client side of the library: connections and channels by number.\<close>

datatype trust = Insecure_localhost | System_roots | Pinned string

record 's link =
  ln_connect :: "string \<Rightarrow> ('s, nat) client"
  ln_connect_with_credential :: "string \<Rightarrow> string \<Rightarrow> ('s, nat) client"
  ln_open_channel :: "nat \<Rightarrow> string \<Rightarrow> ('s, nat) client"
  ln_request :: "nat \<Rightarrow> string \<Rightarrow> json \<Rightarrow> ('s, json) client"
  ln_close :: "nat \<Rightarrow> ('s, unit) client"
  ln_disconnect :: "nat \<Rightarrow> ('s, unit) client"

section \<open>The discovery demo\<close>

definition connect :: "'s link \<Rightarrow> string \<Rightarrow> string option \<Rightarrow> ('s, nat) client" where
  "connect L addr cred = (case cred of
     Some c \<Rightarrow> ln_connect_with_credential L addr c
   | None \<Rightarrow> ln_connect L addr)"

definition register_request :: "string \<Rightarrow> string \<Rightarrow> string \<Rightarrow> string list \<Rightarrow> json" where
  "register_request node_id handle name endpoints = JObj [(''node_id'', JStr node_id), (''handle'', JStr handle),
     (''name'', JStr name), (''endpoints'', json_strings endpoints)]"

definition register ::
  "'s link \<Rightarrow> string \<Rightarrow> string \<Rightarrow> string \<Rightarrow> string \<Rightarrow> string list \<Rightarrow> string option \<Rightarrow> ('s, json) client" where
  "register L addr node_id handle name endpoints cred =
     cbnd (connect L addr cred) (\<lambda>client.
     cbnd (ln_open_channel L client ''nodes'') (\<lambda>ch.
     cbnd (ln_request L ch ''Register'' (register_request node_id handle name endpoints)) (\<lambda>resp.
     cbnd (ln_close L ch) (\<lambda>_. cbnd (ln_disconnect L client) (\<lambda>_. cret resp)))))"

definition nodes_in :: "json \<Rightarrow> json list" where
  "nodes_in resp = opt_default [] (Option.bind (get resp ''nodes'') as_array)"

definition discover :: "'s link \<Rightarrow> string \<Rightarrow> string option \<Rightarrow> ('s, json list) client" where
  "discover L addr cred =
     cbnd (connect L addr cred) (\<lambda>client.
     cbnd (ln_open_channel L client ''nodes'') (\<lambda>ch.
     cbnd (ln_request L ch ''Discover'' (JObj [])) (\<lambda>resp.
     cbnd (ln_close L ch) (\<lambda>_. cbnd (ln_disconnect L client) (\<lambda>_.
     cret (nodes_in resp))))))"

text \<open>What the demo prints: the two replies, the handles, and how many resources the REST tree has, if it answers.\<close>

record demo_report =
  dr_a :: json
  dr_b :: json
  dr_handles :: "string list"
  dr_rest :: "nat option"

definition handles_of :: "json list \<Rightarrow> string list" where
  "handles_of nodes = List.map_filter (\<lambda>w. get_str w ''handle'') nodes"

definition node_a_of :: "json list \<Rightarrow> json option" where
  "node_a_of nodes = List.find (\<lambda>w. get_str w ''handle'' = Some ''node-a'') nodes"

definition node_id_ok :: "json option \<Rightarrow> bool" where
  "node_id_ok nd_a \<longleftrightarrow> Option.bind nd_a (\<lambda>w. get_str w ''node_id'') = Some ''nd_demoA''"

definition ep_ok :: "json option \<Rightarrow> bool" where
  "ep_ok nd_a \<longleftrightarrow> (case Option.bind (Option.bind nd_a (\<lambda>w. get w ''endpoints'')) as_array of
     Some eps \<Rightarrow> list_ex (\<lambda>e. as_str e = Some ''[::1]:32000'') eps
   | None \<Rightarrow> False)"

definition resources_in :: "json \<Rightarrow> nat" where
  "resources_in body = opt_default 0 (map_option length (Option.bind (get body ''resources'') as_array))"

text \<open>
  The checks of the demo and its last request. The client of the REST surface gives nothing when the hub is
  not reached, \<open>null\<close> for a body that is not JSON.
\<close>

definition demo_check ::
  "(string \<Rightarrow> 's \<Rightarrow> json option \<times> 's) \<Rightarrow> json \<Rightarrow> json \<Rightarrow> json list \<Rightarrow> ('s, demo_report) client" where
  "demo_check rest a b nodes =
     (let handles = handles_of nodes; nd_a = node_a_of nodes
      in if ''node-a'' \<notin> set handles \<or> ''node-b'' \<notin> set handles then cfail (Discovery_failed handles)
         else if \<not> node_id_ok nd_a \<or> \<not> ep_ok nd_a then cfail (Not_restored nd_a)
         else (\<lambda>s. case rest ''http://localhost:3000/v1/tree/node-a'' s of (body, s') \<Rightarrow>
           cret \<lparr>dr_a = a, dr_b = b, dr_handles = handles, dr_rest = map_option resources_in body\<rparr> s'))"

definition nodes_demo ::
  "(trust \<Rightarrow> 's link) \<Rightarrow> (string \<Rightarrow> 's \<Rightarrow> json option \<times> 's) \<Rightarrow> environment \<Rightarrow> ('s, demo_report) client" where
  "nodes_demo links rest env =
     (let L = links Insecure_localhost;
          addr = or_else (env ''HUB_UNISON_ADDR'') ''[::1]:7879'';
          cred = non_empty (env ''HUB_CRED'')
      in cbnd (register L addr ''nd_demoA'' ''node-a'' ''Node A'' [''[::1]:32000''] cred) (\<lambda>a.
         cbnd (register L addr ''nd_demoB'' ''node-b'' ''Node B'' [''[::1]:32001''] cred) (\<lambda>b.
         cbnd (discover L addr cred) (\<lambda>nodes. demo_check rest a b nodes))))"

section \<open>The clean-up\<close>

datatype gc_line = Gc_error string string | Gc_removed string nat

fun as_u64 :: "json \<Rightarrow> nat option" where
  "as_u64 (JInt n) = (if 0 \<le> n \<and> n < 2 ^ 64 then Some (nat n) else None)"
| "as_u64 _ = None"

definition unregister_request :: "string \<Rightarrow> json" where
  "unregister_request node_id = JObj [(''node_id'', JStr node_id)]"

definition gc_report_line :: "string \<Rightarrow> json \<Rightarrow> gc_line" where
  "gc_report_line node_id res = (case get_str res ''error'' of
     Some err \<Rightarrow> Gc_error node_id err
   | None \<Rightarrow> Gc_removed node_id (opt_default 0 (Option.bind (get res ''removed'') as_u64)))"

fun gc_loop :: "'s link \<Rightarrow> nat \<Rightarrow> string list \<Rightarrow> ('s, gc_line list) client" where
  "gc_loop L ch [] = cret []"
| "gc_loop L ch (node_id # ids) =
     cbnd (ln_request L ch ''Unregister'' (unregister_request node_id)) (\<lambda>res.
     cbnd (gc_loop L ch ids) (\<lambda>lines. cret (gc_report_line node_id res # lines)))"

text \<open>An entry of the final list: handle, node id and the time of registration.\<close>

definition gc_entry :: "json \<Rightarrow> string \<times> string \<times> string" where
  "gc_entry w = (or_else (get_str w ''handle'') ''?'', or_else (get_str w ''node_id'') ''?'',
     or_else (get_str w ''registered_at'') ''?'')"

record gc_report =
  gr_lines :: "gc_line list"
  gr_nodes :: "string + (string \<times> string \<times> string) list option"

definition gc_listing :: "json \<Rightarrow> string + (string \<times> string \<times> string) list option" where
  "gc_listing disc = (case get_str disc ''error'' of
     Some err \<Rightarrow> Inl err
   | None \<Rightarrow> Inr (map_option (map gc_entry) (Option.bind (get disc ''nodes'') as_array)))"

text \<open>The token file's content, when the variable names one.\<close>

definition token_from :: "(string \<Rightarrow> string option) \<Rightarrow> environment \<Rightarrow> client_error + string option" where
  "token_from read_file env = (case non_empty (env ''HUB_TOKEN_FILE'') of
     None \<Rightarrow> Inr None
   | Some path \<Rightarrow> (case read_file path of None \<Rightarrow> Inl (Unreadable path) | Some token \<Rightarrow> Inr (Some (trim token))))"

definition registry_gc ::
  "(trust \<Rightarrow> 's link) \<Rightarrow> (string \<Rightarrow> string option) \<Rightarrow> environment \<Rightarrow> ('s, gc_report) client" where
  "registry_gc links read_file env =
     (let L = links System_roots;
          addr = or_else (env ''HUB_ADDR'') ''hub.chronista.club:12879''
      in case comma_list (env ''NODE_IDS'') of
           None \<Rightarrow> cfail No_node_ids
         | Some node_ids \<Rightarrow>
             (case token_from read_file env of
                Inl e \<Rightarrow> cfail e
              | Inr token \<Rightarrow>
                  cbnd (connect L addr token) (\<lambda>client.
                  cbnd (ln_open_channel L client ''nodes'') (\<lambda>ch.
                  cbnd (gc_loop L ch node_ids) (\<lambda>lines.
                  cbnd (ln_request L ch ''Discover'' (JObj [])) (\<lambda>disc.
                  cbnd (ln_close L ch) (\<lambda>_. cbnd (ln_disconnect L client) (\<lambda>_.
                  cret \<lparr>gr_lines = lines, gr_nodes = gc_listing disc\<rparr>))))))))"

section \<open>The probe\<close>

definition probe_trust :: "(string \<Rightarrow> string option) \<Rightarrow> environment \<Rightarrow> client_error + trust" where
  "probe_trust read_file env = (case non_empty (env ''HUB_CERT'') of
     None \<Rightarrow> Inr System_roots
   | Some path \<Rightarrow> (case read_file path of None \<Rightarrow> Inl (Unreadable path) | Some der \<Rightarrow> Inr (Pinned der)))"

definition live_probe ::
  "(trust \<Rightarrow> 's link) \<Rightarrow> (string \<Rightarrow> string option) \<Rightarrow> environment \<Rightarrow> ('s, json \<times> json) client" where
  "live_probe links read_file env =
     (let addr = or_else (env ''HUB_ADDR'') ''hub.chronista.club:12879''
      in case probe_trust read_file env of
           Inl e \<Rightarrow> cfail e
         | Inr trust \<Rightarrow>
             (let L = links trust
              in cbnd (ln_connect L addr) (\<lambda>client.
                 cbnd (ln_open_channel L client ''nodes'') (\<lambda>ch.
                 cbnd (ln_request L ch ''Register''
                   (register_request ''nd_liveprobe'' ''live-probe'' ''Live Probe'' [''[2400:4150:0:1::1]:32000''])) (\<lambda>reg.
                 cbnd (ln_request L ch ''Discover'' (JObj [])) (\<lambda>disc.
                 cbnd (ln_close L ch) (\<lambda>_. cbnd (ln_disconnect L client) (\<lambda>_. cret (reg, disc)))))))))"

section \<open>The QUIC probe\<close>

text \<open>
  \<open>quic_probe\<close>: the outcome of each attempt is given by its number (\<open>try_connect\<close>: a connection with
  any certificate, within the time limit). The result is that of the probe, how many attempts it has made and how long it has slept
  between them, in seconds.
\<close>

record probe_run =
  pr_result :: "string + unit"
  pr_attempts :: nat
  pr_slept :: nat

fun probe_from :: "(nat \<Rightarrow> string + unit) \<Rightarrow> nat \<Rightarrow> nat \<Rightarrow> nat \<Rightarrow> string \<Rightarrow> nat \<Rightarrow> probe_run" where
  "probe_from try_connect retries turn 0 last_err slept = \<lparr>pr_result = Inl last_err, pr_attempts = turn, pr_slept = slept\<rparr>"
| "probe_from try_connect retries turn (Suc left) last_err slept =
     (case try_connect turn of
        Inr _ \<Rightarrow> \<lparr>pr_result = Inr (), pr_attempts = Suc turn, pr_slept = slept\<rparr>
      | Inl e \<Rightarrow> probe_from try_connect retries (Suc turn) left e (if turn + 1 < retries then slept + 2 else slept))"

definition probe :: "(nat \<Rightarrow> string + unit) \<Rightarrow> nat \<Rightarrow> probe_run" where
  "probe try_connect retries = probe_from try_connect retries 0 (max retries 1) ''no attempt made'' 0"

text \<open>The exit code of the process; the attempts know the address and the limit of time.\<close>

definition quic_probe :: "(string \<Rightarrow> nat \<Rightarrow> nat \<Rightarrow> string + unit) \<Rightarrow> environment \<Rightarrow> nat" where
  "quic_probe try_connect env =
     (let addr = or_else (env ''HUB_ADDR'') ''localhost:12879'';
          timeout_secs = parsed 64 (env ''PROBE_TIMEOUT_SECS'') 10;
          retries = parsed 32 (env ''PROBE_RETRIES'') 3
      in case pr_result (probe (try_connect addr timeout_secs) retries) of Inr _ \<Rightarrow> 0 | Inl _ \<Rightarrow> 1)"

lemma probe_from_all_fail:
  assumes "\<forall>i < left. try_connect (turn + i) \<noteq> Inr ()" and "turn + left = max retries 1"
  shows "probe_from try_connect retries turn left err slept =
    \<lparr>pr_result = Inl (if left = 0 then err else projl (try_connect (max retries 1 - 1))), pr_attempts = max retries 1,
     pr_slept = slept + 2 * (left - 1)\<rparr>"
  using assms
proof (induction left arbitrary: turn err slept)
  case (Suc n)
  then obtain e where e: "try_connect turn = Inl e" by (cases "try_connect turn") force+
  have "\<forall>i < n. try_connect (Suc turn + i) \<noteq> Inr ()" using Suc.prems(1) by (metis Suc_less_eq add_Suc_shift)
  from Suc.IH [OF this] Suc.prems(2) e show ?case
    by (cases n) (auto simp: max_def split: if_splits)
qed simp

lemma probe_from_succeeds:
  assumes "try_connect (turn + i) = Inr ()" and "\<forall>j < i. try_connect (turn + j) \<noteq> Inr ()" and "i < left" and "turn + left = max retries 1"
  shows "probe_from try_connect retries turn left err slept =
    \<lparr>pr_result = Inr (), pr_attempts = turn + Suc i, pr_slept = slept + 2 * i\<rparr>"
  using assms
proof (induction i arbitrary: turn left err slept)
  case 0
  then show ?case by (cases left) simp_all
next
  case (Suc i)
  then obtain m where m: "left = Suc m" by (cases left) simp_all
  obtain e where e: "try_connect turn = Inl e" using Suc.prems(2) by (cases "try_connect turn") force+
  have "\<forall>j < i. try_connect (Suc turn + j) \<noteq> Inr ()" using Suc.prems(2) by (metis Suc_less_eq add_Suc_shift)
  from Suc.IH [OF _ this, of m] Suc.prems e m show ?case by (auto simp: max_def split: if_splits)
qed

text \<open>
  The probe gives up only after all attempts: with \<open>k\<close> retries (one attempt when there are none) it reports success
  when the first success comes in time, after two seconds for each failure before it, and otherwise the error of the
  last attempt, after two seconds between any two.
\<close>

theorem probe_outcome:
  "(\<forall>i < max retries 1. try_connect i \<noteq> Inr ()) \<Longrightarrow> probe try_connect retries =
     \<lparr>pr_result = Inl (projl (try_connect (max retries 1 - 1))), pr_attempts = max retries 1, pr_slept = 2 * (max retries 1 - 1)\<rparr>"
  "try_connect i = Inr () \<Longrightarrow> \<forall>j < i. try_connect j \<noteq> Inr () \<Longrightarrow> i < max retries 1 \<Longrightarrow> probe try_connect retries =
     \<lparr>pr_result = Inr (), pr_attempts = Suc i, pr_slept = 2 * i\<rparr>"
  using probe_from_all_fail [of "max retries 1" try_connect 0 retries "''no attempt made''" 0]
    probe_from_succeeds [of try_connect 0 i "max retries 1" retries "''no attempt made''" 0]
  by (simp_all add: probe_def)

section \<open>Sessions\<close>

lemma cret_apply [simp]: "cret a s = (Inr a, s)" "cfail e s = (Inl e, s)"
  by (simp_all add: cret_def cfail_def)

lemma cbnd_apply [simp]:
  "m s = (Inr a, s') \<Longrightarrow> cbnd m f s = f a s'" "m s = (Inl e, s') \<Longrightarrow> cbnd m f s = (Inl e, s')"
  by (simp_all add: cbnd_def)

text \<open>A program that succeeds, with what holds of its result and of the state then.\<close>

definition succeeds :: "('s, 'a) client \<Rightarrow> 's \<Rightarrow> ('a \<Rightarrow> 's \<Rightarrow> bool) \<Rightarrow> bool" where
  "succeeds m s Q \<longleftrightarrow> (\<exists>a s'. m s = (Inr a, s') \<and> Q a s')"

lemma succeeds_ret: "Q a s \<Longrightarrow> succeeds (cret a) s Q"
  by (simp add: succeeds_def)

lemma succeeds_bnd:
  assumes "succeeds m s P" and "\<And>a s'. P a s' \<Longrightarrow> succeeds (f a) s' Q"
  shows "succeeds (cbnd m f) s Q"
proof -
  obtain a s' where a: "m s = (Inr a, s')" "P a s'" using assms(1) unfolding succeeds_def by blast
  then show ?thesis using assms(2) [OF a(2)] by (simp add: succeeds_def)
qed

lemma succeeds_mono: "succeeds m s P \<Longrightarrow> (\<And>a s'. P a s' \<Longrightarrow> Q a s') \<Longrightarrow> succeeds m s Q"
  unfolding succeeds_def by blast

text \<open>
  What the programs rely on: whoever presents a credential gets a connection, a channel on it, and an
  answer to every request; only requests change the data.
\<close>

locale nodes_service =
  fixes L :: "'s link"
    and cred :: "string option"
    and answers :: "string \<Rightarrow> json \<Rightarrow> 'd \<Rightarrow> json \<Rightarrow> 'd \<Rightarrow> bool"
    and data :: "'s \<Rightarrow> 'd"
    and idle :: "'s \<Rightarrow> bool"
    and joined :: "nat \<Rightarrow> 's \<Rightarrow> bool"
    and opened :: "nat \<Rightarrow> nat \<Rightarrow> 's \<Rightarrow> bool"
  assumes joins: "idle s \<Longrightarrow> succeeds (connect L addr cred) s (\<lambda>c s'. joined c s' \<and> data s' = data s)"
    and opens: "joined c s \<Longrightarrow> succeeds (ln_open_channel L c ''nodes'') s (\<lambda>k s'. opened c k s' \<and> data s' = data s)"
    and requests: "opened c k s \<Longrightarrow>
      succeeds (ln_request L k call payload) s (\<lambda>reply s'. opened c k s' \<and> answers call payload (data s) reply (data s'))"
    and closes: "opened c k s \<Longrightarrow> succeeds (ln_close L k) s (\<lambda>_ s'. joined c s' \<and> data s' = data s)"
    and leaves: "joined c s \<Longrightarrow> succeeds (ln_disconnect L c) s (\<lambda>_ s'. idle s' \<and> data s' = data s)"
begin

text \<open>Leaving a channel with a result.\<close>

lemma parting:
  assumes "opened c k s" and "\<And>s'. idle s' \<Longrightarrow> data s' = data s \<Longrightarrow> Q a s'"
  shows "succeeds (cbnd (ln_close L k) (\<lambda>_. cbnd (ln_disconnect L c) (\<lambda>_. cret a))) s Q"
proof (rule succeeds_bnd [OF closes [OF assms(1)]], elim conjE)
  fix s1
  assume "joined c s1" "data s1 = data s"
  then show "succeeds (cbnd (ln_disconnect L c) (\<lambda>_. cret a)) s1 Q"
    by (intro succeeds_bnd [OF leaves]) (auto intro: succeeds_ret assms(2))
qed

text \<open>A session: what is done on its channel, from the data at its start.\<close>

lemma session:
  assumes "idle s" and "\<And>c k s'. opened c k s' \<Longrightarrow> data s' = data s \<Longrightarrow> succeeds (body c k) s' Q"
  shows "succeeds (cbnd (connect L addr cred) (\<lambda>c. cbnd (ln_open_channel L c ''nodes'') (\<lambda>k. body c k))) s Q"
proof (rule succeeds_bnd [OF joins [OF assms(1)]], elim conjE)
  fix c s1
  assume "joined c s1" "data s1 = data s"
  then show "succeeds (cbnd (ln_open_channel L c ''nodes'') (\<lambda>k. body c k)) s1 Q"
    by (intro succeeds_bnd [OF opens]) (auto intro: assms(2))
qed

text \<open>One request and its answer, given back as it is turned.\<close>

lemma asked:
  assumes "opened c k s"
    and "\<And>reply s'. idle s' \<Longrightarrow> answers call payload (data s) reply (data s') \<Longrightarrow> Q (turn reply) s'"
  shows "succeeds (cbnd (ln_request L k call payload) (\<lambda>resp.
    cbnd (ln_close L k) (\<lambda>_. cbnd (ln_disconnect L c) (\<lambda>_. cret (turn resp))))) s Q"
  by (rule succeeds_bnd [OF requests [OF assms(1)]]) (auto intro!: parting assms(2))

lemma register_answered:
  assumes "idle s"
  shows "succeeds (register L addr node_id handle name endpoints cred) s (\<lambda>reply s'. idle s' \<and>
    answers ''Register'' (register_request node_id handle name endpoints) (data s) reply (data s'))"
  unfolding register_def by (rule session [OF assms], rule asked [where turn = "\<lambda>r. r"]) auto

lemma discover_answered:
  assumes "idle s"
  shows "succeeds (discover L addr cred) s (\<lambda>nodes s'. idle s' \<and>
    (\<exists>reply. nodes = nodes_in reply \<and> answers ''Discover'' (JObj []) (data s) reply (data s')))"
  unfolding discover_def by (rule session [OF assms], rule asked [where turn = nodes_in]) auto

text \<open>The demo up to its checks.\<close>

lemma nodes_demo_answered:
  assumes "idle s" and "links Insecure_localhost = L" and "non_empty (env ''HUB_CRED'') = cred"
  shows "\<exists>a d1 b d2 reply s3. nodes_demo links rest env s = demo_check rest a b (nodes_in reply) s3 \<and>
    answers ''Register'' (register_request ''nd_demoA'' ''node-a'' ''Node A'' [''[::1]:32000'']) (data s) a d1 \<and>
    answers ''Register'' (register_request ''nd_demoB'' ''node-b'' ''Node B'' [''[::1]:32001'']) d1 b d2 \<and>
    answers ''Discover'' (JObj []) d2 reply (data s3)"
proof -
  let ?addr = "or_else (env ''HUB_UNISON_ADDR'') ''[::1]:7879''"
  obtain a s1 where a: "register L ?addr ''nd_demoA'' ''node-a'' ''Node A'' [''[::1]:32000''] cred s = (Inr a, s1)" "idle s1"
    "answers ''Register'' (register_request ''nd_demoA'' ''node-a'' ''Node A'' [''[::1]:32000'']) (data s) a (data s1)"
    using register_answered [OF assms(1)] unfolding succeeds_def by blast
  obtain b s2 where b: "register L ?addr ''nd_demoB'' ''node-b'' ''Node B'' [''[::1]:32001''] cred s1 = (Inr b, s2)" "idle s2"
    "answers ''Register'' (register_request ''nd_demoB'' ''node-b'' ''Node B'' [''[::1]:32001'']) (data s1) b (data s2)"
    using register_answered [OF a(2)] unfolding succeeds_def by blast
  obtain reply s3 where n: "discover L ?addr cred s2 = (Inr (nodes_in reply), s3)"
    "answers ''Discover'' (JObj []) (data s2) reply (data s3)"
    using discover_answered [OF b(2)] unfolding succeeds_def by blast
  have "nodes_demo links rest env s = demo_check rest a b (nodes_in reply) s3"
    by (simp add: nodes_demo_def Let_def assms(2,3) a(1) b(1) n(1))
  then show ?thesis using a(3) b(3) n(2) by blast
qed

end

text \<open>The clean-up's requests one after the other, as a relation on the data.\<close>

fun swept :: "(json \<Rightarrow> 'd \<Rightarrow> json \<Rightarrow> 'd \<Rightarrow> bool) \<Rightarrow> string list \<Rightarrow> 'd \<Rightarrow> gc_line list \<Rightarrow> 'd \<Rightarrow> bool" where
  "swept A [] d ls d' \<longleftrightarrow> ls = [] \<and> d' = d"
| "swept A (n # ns) d ls d' \<longleftrightarrow>
     (\<exists>reply d1 ls'. A (unregister_request n) d reply d1 \<and> ls = gc_report_line n reply # ls' \<and> swept A ns d1 ls' d')"

context nodes_service
begin

lemma gc_loop_answered:
  "opened c k s \<Longrightarrow> succeeds (gc_loop L k ids) s (\<lambda>ls s'. opened c k s' \<and> swept (answers ''Unregister'') ids (data s) ls (data s'))"
proof (induction ids arbitrary: s)
  case (Cons n ns)
  show ?case
    unfolding gc_loop.simps
  proof (rule succeeds_bnd [OF requests [OF Cons.prems]], elim conjE)
    fix reply s1
    assume r: "opened c k s1" "answers ''Unregister'' (unregister_request n) (data s) reply (data s1)"
    show "succeeds (cbnd (gc_loop L k ns) (\<lambda>lines. cret (gc_report_line n reply # lines))) s1
        (\<lambda>ls s'. opened c k s' \<and> swept (answers ''Unregister'') (n # ns) (data s) ls (data s'))"
      by (rule succeeds_bnd [OF Cons.IH [OF r(1)]]) (use r(2) in \<open>auto intro: succeeds_ret\<close>)
  qed
qed (simp add: succeeds_def)

lemma registry_gc_answered:
  assumes "idle s" and "links System_roots = L" and "comma_list (env ''NODE_IDS'') = Some ids" and "token_from read_file env = Inr cred"
  shows "succeeds (registry_gc links read_file env) s (\<lambda>report s'. idle s' \<and>
    (\<exists>d disc. swept (answers ''Unregister'') ids (data s) (gr_lines report) d \<and>
       answers ''Discover'' (JObj []) d disc (data s') \<and> gr_nodes report = gc_listing disc))"
  unfolding registry_gc_def Let_def assms(2,3,4) option.case sum.case
proof (rule session [OF assms(1)], rule succeeds_bnd [OF gc_loop_answered], assumption, elim conjE)
  fix c k s1 ls s2
  assume "data s1 = data s" "opened c k s2" "swept (answers ''Unregister'') ids (data s1) ls (data s2)"
  then show "succeeds (cbnd (ln_request L k ''Discover'' (JObj [])) (\<lambda>disc. cbnd (ln_close L k) (\<lambda>_. cbnd (ln_disconnect L c) (\<lambda>_.
      cret \<lparr>gr_lines = ls, gr_nodes = gc_listing disc\<rparr>)))) s2 (\<lambda>report s'. idle s' \<and>
      (\<exists>d disc. swept (answers ''Unregister'') ids (data s) (gr_lines report) d \<and>
         answers ''Discover'' (JObj []) d disc (data s') \<and> gr_nodes report = gc_listing disc))"
    by (intro asked [where turn = "\<lambda>disc. \<lparr>gr_lines = ls, gr_nodes = gc_listing disc\<rparr>"]) auto
qed

end

section \<open>The hub behind the link\<close>

text \<open>The connections and channels of the hub, numbered as they are made.\<close>

record hub_clients =
  hc_net :: hub_net
  hc_next :: nat

abbreviation hc_world :: "hub_clients \<Rightarrow> world" where
  "hc_world s \<equiv> hn_world (hc_net s)"

definition hub_connect :: "string \<Rightarrow> (hub_clients, nat) client" where
  "hub_connect addr s = (Inr (hc_next s), s\<lparr>hc_next := Suc (hc_next s)\<rparr>)"

definition hub_connect_with :: "verifier \<Rightarrow> string \<Rightarrow> string \<Rightarrow> (hub_clients, nat) client" where
  "hub_connect_with ver addr cred s =
     (case connection_auth ver cred of
        None \<Rightarrow> (Inl (Transport ''unauthorized''), s)
      | Some p \<Rightarrow> (Inr (hc_next s), s\<lparr>hc_next := Suc (hc_next s),
          hc_net := (hc_net s)\<lparr>hn_principal := (hn_principal (hc_net s))(hc_next s \<mapsto> p)\<rparr>\<rparr>))"

definition hub_open :: "nat \<Rightarrow> string \<Rightarrow> (hub_clients, nat) client" where
  "hub_open c name s =
     (if name = ''nodes''
      then (Inr (hc_next s), s\<lparr>hc_next := Suc (hc_next s), hc_net := (hc_net s)\<lparr>hn_channels :=
        (hn_channels (hc_net s))(hc_next s \<mapsto> \<lparr>ch_ctx = c, ch_registered = [], ch_pending = None\<rparr>)\<rparr>\<rparr>)
      else (Inl (Transport ''no such channel''), s))"

definition hub_request :: "ext \<Rightarrow> bool \<Rightarrow> nat \<Rightarrow> string \<Rightarrow> json \<Rightarrow> (hub_clients, json) client" where
  "hub_request x ar k call payload s =
     (let n = hc_net s
      in case hn_channels n k of
           None \<Rightarrow> (Inl (Transport ''closed''), s)
         | Some ch \<Rightarrow>
             (case nodes_reply x (hn_principal n (ch_ctx ch)) ar call payload (is_live (hn_relay n)) (hn_world n) of
                (Inl e, w') \<Rightarrow> (Inl (Transport ''closed''), s)
              | (Inr reply, w') \<Rightarrow>
                  (case sync_relay_registry (ch_ctx ch) call reply (hn_relay n) (ch_registered ch) of
                     (relay', registered') \<Rightarrow> (Inr reply, s\<lparr>hc_net := n\<lparr>hn_world := w', hn_relay := relay',
                       hn_channels := (hn_channels n)(k \<mapsto> ch\<lparr>ch_registered := registered'\<rparr>)\<rparr>\<rparr>))))"

definition hub_close :: "nat \<Rightarrow> (hub_clients, unit) client" where
  "hub_close k s =
     (let n = hc_net s
      in case hn_channels n k of
           None \<Rightarrow> (Inr (), s)
         | Some ch \<Rightarrow> (Inr (), s\<lparr>hc_net := n\<lparr>hn_relay := drop_registered (ch_registered ch) (hn_relay n),
             hn_channels := (hn_channels n)(k := None)\<rparr>\<rparr>))"

definition hub_link :: "ext \<Rightarrow> verifier \<Rightarrow> bool \<Rightarrow> hub_clients link" where
  "hub_link x ver ar = \<lparr>ln_connect = hub_connect, ln_connect_with_credential = hub_connect_with ver,
     ln_open_channel = hub_open, ln_request = hub_request x ar, ln_close = hub_close, ln_disconnect = (\<lambda>c. cret ())\<rparr>"

definition presented :: "verifier \<Rightarrow> string option \<Rightarrow> conn_principal option" where
  "presented ver cred = Option.bind cred (connection_auth ver)"

text \<open>Numbers not yet given, and the states of a session with a credential that the hub accepts.\<close>

definition hub_idle :: "verifier \<Rightarrow> string option \<Rightarrow> hub_clients \<Rightarrow> bool" where
  "hub_idle ver cred s \<longleftrightarrow> (cred \<noteq> None \<longrightarrow> presented ver cred \<noteq> None) \<and>
     (\<forall>i \<ge> hc_next s. hn_principal (hc_net s) i = None \<and> hn_channels (hc_net s) i = None)"

definition hub_joined :: "verifier \<Rightarrow> string option \<Rightarrow> nat \<Rightarrow> hub_clients \<Rightarrow> bool" where
  "hub_joined ver cred c s \<longleftrightarrow> hub_idle ver cred s \<and> c < hc_next s \<and> hn_principal (hc_net s) c = presented ver cred"

definition hub_opened :: "verifier \<Rightarrow> string option \<Rightarrow> nat \<Rightarrow> nat \<Rightarrow> hub_clients \<Rightarrow> bool" where
  "hub_opened ver cred c k s \<longleftrightarrow> hub_joined ver cred c s \<and>
     (\<exists>ch. hn_channels (hc_net s) k = Some ch \<and> ch_ctx ch = c \<and> ch_pending ch = None)"

definition hub_answers :: "ext \<Rightarrow> conn_principal option \<Rightarrow> bool \<Rightarrow> string \<Rightarrow> json \<Rightarrow> world \<Rightarrow> json \<Rightarrow> world \<Rightarrow> bool" where
  "hub_answers x p ar call payload w reply w' \<longleftrightarrow> (\<exists>live. nodes_reply x p ar call payload live w = (Inr reply, w'))"

lemmas hub_sessions = hub_idle_def hub_joined_def hub_opened_def

interpretation on_hub: nodes_service "hub_link x ver ar" cred "hub_answers x (presented ver cred) ar" hc_world
  "hub_idle ver cred" "hub_joined ver cred" "hub_opened ver cred" for x ver ar cred
proof unfold_locales
  fix s addr
  assume "hub_idle ver cred s"
  then show "succeeds (connect (hub_link x ver ar) addr cred) s (\<lambda>c s'. hub_joined ver cred c s' \<and> hc_world s' = hc_world s)"
    by (cases cred) (auto simp: connect_def hub_link_def hub_connect_def hub_connect_with_def succeeds_def presented_def hub_sessions
      split: option.split)
next
  fix c s
  assume "hub_joined ver cred c s"
  then show "succeeds (ln_open_channel (hub_link x ver ar) c ''nodes'') s (\<lambda>k s'. hub_opened ver cred c k s' \<and> hc_world s' = hc_world s)"
    by (auto simp: hub_link_def hub_open_def succeeds_def hub_sessions)
next
  fix c k s call payload
  assume o: "hub_opened ver cred c k s"
  then obtain ch where ch: "hn_channels (hc_net s) k = Some ch" "ch_ctx ch = c" "ch_pending ch = None"
    "hn_principal (hc_net s) c = presented ver cred" by (auto simp: hub_sessions)
  obtain reply w' where r: "nodes_reply x (presented ver cred) ar call payload (is_live (hn_relay (hc_net s))) (hc_world s) = (Inr reply, w')"
    using nodes_reply_total by blast
  obtain relay' reg' where y: "sync_relay_registry c call reply (hn_relay (hc_net s)) (ch_registered ch) = (relay', reg')"
    by fastforce
  have k: "k < hc_next s" using o ch(1) by (force simp: hub_sessions not_less [symmetric])
  show "succeeds (ln_request (hub_link x ver ar) k call payload) s
      (\<lambda>reply s'. hub_opened ver cred c k s' \<and> hub_answers x (presented ver cred) ar call payload (hc_world s) reply (hc_world s'))"
    using o ch r y k by (auto simp: hub_link_def hub_request_def Let_def succeeds_def hub_sessions hub_answers_def)
next
  fix c k s
  assume "hub_opened ver cred c k s"
  then show "succeeds (ln_close (hub_link x ver ar) k) s (\<lambda>_ s'. hub_joined ver cred c s' \<and> hc_world s' = hc_world s)"
    by (auto simp: hub_link_def hub_close_def succeeds_def hub_sessions Let_def)
next
  fix c s
  assume "hub_joined ver cred c s"
  then show "succeeds (ln_disconnect (hub_link x ver ar) c) s (\<lambda>_ s'. hub_idle ver cred s' \<and> hc_world s' = hc_world s)"
    by (simp add: hub_link_def succeeds_def hub_joined_def)
qed

section \<open>The replies of a hub that runs alone\<close>

text \<open>Who takes part: nobody in particular where no authentication is required, or a user.\<close>

definition takes_part :: "conn_principal option \<Rightarrow> bool \<Rightarrow> bool" where
  "takes_part p ar \<longleftrightarrow> (case p of None \<Rightarrow> \<not> ar | Some q \<Rightarrow> principal_usr_id p \<noteq> None)"

lemma takes_part_authorized: "takes_part p ar \<Longrightarrow> authorize_federation p scope ar = Inr ()"
  by (auto simp: takes_part_def authorize_federation_def principal_usr_id_def split: option.splits conn_principal.splits principal.splits)

lemma nodes_reply_ok: "handle_nodes x p ar call payload live w = (Inr reply, w') \<Longrightarrow> nodes_reply x p ar call payload live w = (Inr reply, w')"
  by (simp add: nodes_reply_def bnd_steps)

definition demo_visibility :: "conn_principal option \<Rightarrow> visibility" where
  "demo_visibility p = (if principal_usr_id p = None then Public else Private)"

lemma register_fields:
  "get_str (register_request n h nm eps) ''handle'' = Some h" "get_str (register_request n h nm eps) ''node_id'' = Some n"
  "get_str (register_request n h nm eps) ''name'' = Some nm" "get_str (register_request n h nm eps) ''visibility'' = None"
  "get (register_request n h nm eps) ''endpoints'' = Some (json_strings eps)"
  by (simp_all add: register_request_def get_str_def obj_get.simps)

lemma register_reply:
  assumes "alone w" and "takes_part p ar"
    and "case tab_get (tb_resource (w_db w)) (node_rid n) of None \<Rightarrow> True | Some r \<Rightarrow> owner_matches (principal_usr_id p) r"
  shows "nodes_reply x p ar ''Register'' (register_request n h nm eps) live w =
    (Inr (JObj [(''node_id'', JStr n), (''handle'', JStr h), (''registered_at'', JStr (x_time_str x (w_now w))),
       (''endpoints'', json_strings eps), (''visibility'', JStr (visibility_str (demo_visibility p)))]),
     w\<lparr>w_db := (w_db w)\<lparr>tb_resource := tab_put (node_rid n)
       (node_row (node_rid n) (Some n) h nm eps (principal_usr_id p) (demo_visibility p) (x_time_str x (w_now w))) (tb_resource (w_db w))\<rparr>\<rparr>)"
proof -
  have vis: "parse_visibility (register_request n h nm eps) (principal_usr_id p) = Inr (demo_visibility p)"
    by (simp add: parse_visibility_def register_fields demo_visibility_def)
  have "strings_of (map JStr eps) = eps" by simp
  then show ?thesis
    using assms
    by (intro nodes_reply_ok)
      (simp add: handle_nodes_def register_method_def takes_part_authorized vis register_fields json_strings_def opt_default_def json_opt_def
        register_node_def quiet first_of_def Let_def del: strings_of_json_strings)
qed

lemma discover_reply:
  assumes "alone w" and "takes_part p ar"
  shows "nodes_reply x p ar ''Discover'' payload live w =
    (Inr (JObj [(''nodes'', JArr (map (node_json live) (by_created (tab_where (node_visible_to (principal_usr_id p)) (tb_resource (w_db w))))))]), w)"
  using assms
  by (intro nodes_reply_ok) (simp add: handle_nodes_def discover_method_def takes_part_authorized list_nodes_visible_to_def quiet)

text \<open>The rows that a principal may remove: those without an owner and its own.\<close>

definition removable :: "conn_principal option \<Rightarrow> (string, resource) table \<Rightarrow> string \<Rightarrow> bool" where
  "removable p t n \<longleftrightarrow>
     (case tab_get t (node_rid n) of None \<Rightarrow> False | Some r \<Rightarrow> owner_matches (principal_usr_id p) r)"

lemma unregister_reply:
  assumes "alone w" and "takes_part p ar"
  shows "nodes_reply x p ar ''Unregister'' (unregister_request n) live w =
    (Inr (JObj [(''node_id'', JStr n), (''handle'', JNull), (''removed'', JInt (if removable p (tb_resource (w_db w)) n then 1 else 0))]),
     w\<lparr>w_db := (w_db w)\<lparr>tb_resource := (if removable p (tb_resource (w_db w)) n
       then tab_del (node_rid n) (tb_resource (w_db w)) else tb_resource (w_db w))\<rparr>\<rparr>)"
proof -
  have f: "get_str (unregister_request n) ''node_id'' = Some n" "get_str (unregister_request n) ''handle'' = None"
    by (simp_all add: unregister_request_def get_str_def obj_get.simps)
  have "owner_matches None r = (res_owner r = None)" for r by (auto simp: owner_matches_def)
  then show ?thesis
    using assms
    by (intro nodes_reply_ok; cases "tab_get (tb_resource (w_db w)) (node_rid n)"; cases "principal_usr_id p")
      (simp_all add: handle_nodes_def unregister_method_def takes_part_authorized unregister_node_def f quiet json_opt_def removable_def)
qed

definition cleaned :: "conn_principal option \<Rightarrow> string list \<Rightarrow> (string, resource) table \<Rightarrow> (string, resource) table" where
  "cleaned p ids t = filter (\<lambda>(k, r). \<not> (k \<in> node_rid ` set ids \<and> owner_matches (principal_usr_id p) r)) t"

lemma cleaned_step:
  assumes "tab_ok t"
  shows "(if removable p t n then tab_del (node_rid n) t else t) = cleaned p [n] t"
proof (cases "tab_get t (node_rid n)")
  case None
  then have "\<forall>(k, r) \<in> set t. k \<noteq> node_rid n"
    by (auto simp: tab_get_set [OF assms, symmetric])
  then show ?thesis by (auto simp: removable_def None cleaned_def intro!: filter_True [symmetric])
next
  case (Some r)
  then have "\<forall>(k, r') \<in> set t. k = node_rid n \<longrightarrow> r' = r"
    by (auto simp: tab_get_set [OF assms, symmetric])
  then show ?thesis
    by (auto simp: removable_def Some cleaned_def tab_del_def AList.delete_eq intro!: filter_cong filter_True [symmetric])
qed

lemma cleaned_Cons: "cleaned p ids (cleaned p [n] t) = cleaned p (n # ids) t"
  by (auto simp: cleaned_def intro!: filter_cong)

lemma removable_cleaned:
  assumes "tab_ok t" and "m \<noteq> n"
  shows "removable p (cleaned p [n] t) m = removable p t m"
proof -
  have "node_rid m \<noteq> node_rid n" using assms(2) by (simp add: node_rid_def)
  then show ?thesis
    by (simp add: removable_def cleaned_step [OF assms(1), symmetric] tab.get_del)
qed

lemma tab_ok_cleaned: "tab_ok t \<Longrightarrow> tab_ok (cleaned p [n] t)"
  by (simp add: cleaned_step [symmetric] tab.ok_del)

lemma gc_line_removed:
  "gc_report_line n (JObj [(''node_id'', JStr n), (''handle'', JNull), (''removed'', JInt 1)]) = Gc_removed n 1"
  "gc_report_line n (JObj [(''node_id'', JStr n), (''handle'', JNull), (''removed'', JInt 0)]) = Gc_removed n 0"
  by (simp_all add: gc_report_line_def get_str_def obj_get.simps opt_default_def)

lemma swept_alone:
  assumes "takes_part p ar"
  shows "swept (hub_answers x p ar ''Unregister'') ids w ls w' \<Longrightarrow> alone w \<Longrightarrow> tab_ok (tb_resource (w_db w)) \<Longrightarrow> distinct ids \<Longrightarrow>
    ls = map (\<lambda>n. Gc_removed n (if removable p (tb_resource (w_db w)) n then 1 else 0)) ids \<and>
    w' = w\<lparr>w_db := (w_db w)\<lparr>tb_resource := cleaned p ids (tb_resource (w_db w))\<rparr>\<rparr>"
proof (induction ids arbitrary: w ls)
  case Nil
  then show ?case by (simp add: cleaned_def)
next
  case (Cons n ns)
  let ?t = "tb_resource (w_db w)"
  let ?w1 = "w\<lparr>w_db := (w_db w)\<lparr>tb_resource := cleaned p [n] ?t\<rparr>\<rparr>"
  from Cons.prems(1) obtain reply d1 ls' where r: "hub_answers x p ar ''Unregister'' (unregister_request n) w reply d1"
    "ls = gc_report_line n reply # ls'" "swept (hub_answers x p ar ''Unregister'') ns d1 ls' w'" by auto
  have d1: "d1 = ?w1" "gc_report_line n reply = Gc_removed n (if removable p ?t n then 1 else 0)"
    using r(1) by (auto simp: hub_answers_def unregister_reply [OF Cons.prems(2) assms] cleaned_step [OF Cons.prems(3), symmetric] gc_line_removed [simplified])
  have "removable p (cleaned p [n] ?t) m = removable p ?t m" if "m \<in> set ns" for m
    by (rule removable_cleaned [OF Cons.prems(3)]) (use Cons.prems(4) that in auto)
  then show ?case
    using Cons.IH [OF r(3) [unfolded d1(1)]] Cons.prems r(2) d1(2) by (auto simp: tab_ok_cleaned cleaned_Cons)
qed

section \<open>Properties\<close>

text \<open>The nodes that a principal sees in a table, as the clean-up lists them.\<close>

definition gc_view :: "conn_principal option \<Rightarrow> (string, resource) table \<Rightarrow> (string \<times> string \<times> string) list" where
  "gc_view p t = map (\<lambda>r. (res_handle r, or_else (get_str (res_payload r) ''node_id'') ''?'', res_created_at r))
     (by_created (tab_where (node_visible_to (principal_usr_id p)) t))"

lemma gc_entry_node: "gc_entry (node_json live r) = (res_handle r, or_else (get_str (res_payload r) ''node_id'') ''?'', res_created_at r)"
  by (simp add: gc_entry_def node_json_def Let_def get_str_def obj_get.simps or_else_def json_opt_def split: option.split)

text \<open>
  C39: the clean-up takes away what its principal may take away and nothing else: against a hub that runs
  alone, each listed node is reported removed exactly when its row has no owner or belongs to the user of the token, those
  rows and no others are gone afterwards, and the list it ends with is that of the nodes that principal
  still sees.
\<close>

theorem registry_gc_cleans:
  assumes "hub_idle ver cred s" and "alone (hc_world s)" and "tab_ok (tb_resource (w_db (hc_world s)))"
    and "comma_list (env ''NODE_IDS'') = Some ids" and "distinct ids"
    and "token_from read_file env = Inr cred" and "takes_part (presented ver cred) ar"
  shows "\<exists>s'. registry_gc (\<lambda>_. hub_link x ver ar) read_file env s =
      (Inr \<lparr>gr_lines = map (\<lambda>n. Gc_removed n (if removable (presented ver cred) (tb_resource (w_db (hc_world s))) n then 1 else 0)) ids,
            gr_nodes = Inr (Some (gc_view (presented ver cred) (cleaned (presented ver cred) ids (tb_resource (w_db (hc_world s))))))\<rparr>, s') \<and>
    w_db (hc_world s') = (w_db (hc_world s))\<lparr>tb_resource := cleaned (presented ver cred) ids (tb_resource (w_db (hc_world s)))\<rparr>"
proof -
  let ?p = "presented ver cred"
  let ?w = "hc_world s"
  let ?t = "cleaned ?p ids (tb_resource (w_db ?w))"
  from on_hub.registry_gc_answered [where links = "\<lambda>_. hub_link x ver ar", OF assms(1) refl assms(4,6)] obtain report s' d disc live where
    r: "registry_gc (\<lambda>_. hub_link x ver ar) read_file env s = (Inr report, s')"
    "swept (hub_answers x ?p ar ''Unregister'') ids ?w (gr_lines report) d"
    "nodes_reply x ?p ar ''Discover'' (JObj []) live d = (Inr disc, hc_world s')" "gr_nodes report = gc_listing disc"
    unfolding succeeds_def hub_answers_def by blast
  from swept_alone [OF assms(7) r(2) assms(2,3,5)]
  have d: "gr_lines report = map (\<lambda>n. Gc_removed n (if removable ?p (tb_resource (w_db ?w)) n then 1 else 0)) ids"
    "d = ?w\<lparr>w_db := (w_db ?w)\<lparr>tb_resource := ?t\<rparr>\<rparr>" by simp_all
  have alone: "alone d" using assms(2) d(2) by simp
  have "disc = JObj [(''nodes'', JArr (map (node_json live) (by_created (tab_where (node_visible_to (principal_usr_id ?p)) ?t))))]"
    "hc_world s' = d"
    using r(3) discover_reply [OF alone assms(7)] d(2) by auto
  then have "gr_nodes report = Inr (Some (gc_view ?p ?t))" "w_db (hc_world s') = (w_db ?w)\<lparr>tb_resource := ?t\<rparr>"
    using r(4) d(2) by (simp_all add: gc_listing_def get_str_def obj_get.simps gc_view_def gc_entry_node)
  then show ?thesis using r(1) d(1) by (cases report) auto
qed

text \<open>The REST surface of the hub, for a request to one of its paths.\<close>

definition REST_PREFIX :: string where
  "REST_PREFIX = ''http://localhost:3000/''"

definition hub_rest ::
  "(nat \<Rightarrow> response hub \<Rightarrow> response option hub) \<Rightarrow> server \<Rightarrow> string \<Rightarrow> hub_clients \<Rightarrow> json option \<times> hub_clients" where
  "hub_rest timeout sv url s =
     (case strip_prefix REST_PREFIX url of
        None \<Rightarrow> (None, s)
      | Some path \<Rightarrow>
          (case serve timeout sv GET (split_on (CHR ''/'') path) no_credentials (hc_world s) of
             (r, w') \<Rightarrow> (case r of Inl e \<Rightarrow> None
               | Inr resp \<Rightarrow> Some (case rs_body resp of JsonBody v \<Rightarrow> v | _ \<Rightarrow> JNull),
              s\<lparr>hc_net := (hc_net s)\<lparr>hn_world := w'\<rparr>\<rparr>)))"

text \<open>The two rows of the demo.\<close>

definition demo_row :: "ext \<Rightarrow> conn_principal option \<Rightarrow> nat \<Rightarrow> string \<Rightarrow> string \<Rightarrow> string \<Rightarrow> string \<Rightarrow> resource" where
  "demo_row x p now n h nm ep = node_row (node_rid n) (Some n) h nm [ep] (principal_usr_id p) (demo_visibility p) (x_time_str x now)"

definition demo_rows :: "ext \<Rightarrow> conn_principal option \<Rightarrow> nat \<Rightarrow> (string, resource) table \<Rightarrow> (string, resource) table" where
  "demo_rows x p now t = t @ [(node_rid ''nd_demoA'', demo_row x p now ''nd_demoA'' ''node-a'' ''Node A'' ''[::1]:32000''),
     (node_rid ''nd_demoB'', demo_row x p now ''nd_demoB'' ''node-b'' ''Node B'' ''[::1]:32001'')]"

lemma tree_request:
  assumes "alone w" and "in_time timeout (respond (handle_request sv (route GET [''v1'', ''tree'', ''node-a'']) no_credentials)) w"
  shows "\<exists>resp. serve timeout sv GET [''v1'', ''tree'', ''node-a''] no_credentials w = (Inr resp, w) \<and>
    rs_body resp = JsonBody (JObj [(''handle'', JStr ''node-a''), (''path'', JStr ''/''), (''resources'', JArr (map resource_json
      (by_created (tab_where (\<lambda>r. res_handle r = ''node-a'' \<and> VP_NODE_REST_GUARD r) (tb_resource (w_db w)))))) ])"
proof -
  have r: "route GET [''v1'', ''tree'', ''node-a''] = TreeByHandle ''node-a''" by (simp add: route_def on_def)
  have "handle_request sv (route GET [''v1'', ''tree'', ''node-a'']) no_credentials w =
    (Inr (tree_json ''node-a'' ''/'' (by_created (tab_where (\<lambda>r. res_handle r = ''node-a'' \<and> VP_NODE_REST_GUARD r) (tb_resource (w_db w))))), w)"
    using assms(1)
    by (simp add: r with_query_def decode_tree_query_def query_field_def no_credentials_def tree_by_handle_def strip_handle_def
      strip_prefix_def into_options_def visibility_of_def get_resources_by_handle_def quiet limit_to_def filter_clause_def bnd_steps Let_def)
  from serve_in_time [OF assms(2) this] show ?thesis by (simp add: tree_json_def)
qed

lemma demo_path: "strip_prefix REST_PREFIX ''http://localhost:3000/v1/tree/node-a'' = Some ''v1/tree/node-a''"
  "split_on (CHR ''/'') ''v1/tree/node-a'' = [''v1'', ''tree'', ''node-a'']"
proof -
  show "strip_prefix REST_PREFIX ''http://localhost:3000/v1/tree/node-a'' = Some ''v1/tree/node-a''"
    by (simp only: strip_prefix_Some REST_PREFIX_def append.simps)
  show "split_on (CHR ''/'') ''v1/tree/node-a'' = [''v1'', ''tree'', ''node-a'']"
    using split_join [of "[''v1'', ''tree'', ''node-a'']" "CHR ''/''"]
    by (simp only: join_with.simps append.simps list.pred_inject list.set) simp
qed

lemma find_unique: "r \<in> set xs \<Longrightarrow> P r \<Longrightarrow> (\<And>y. y \<in> set xs \<Longrightarrow> P y \<Longrightarrow> y = r) \<Longrightarrow> List.find P xs = Some r"
proof (induction xs)
  case (Cons x xs)
  show ?case
  proof (cases "P x")
    case True
    then have "x = r" using Cons.prems(3) [of x] by simp
    then show ?thesis using True by simp
  next
    case False
    then have "r \<in> set xs" using Cons.prems(1,2) by auto
    then show ?thesis using Cons.IH [OF _ Cons.prems(2)] Cons.prems(3) False by simp
  qed
qed simp

lemma find_map: "List.find P (map f xs) = map_option f (List.find (\<lambda>x. P (f x)) xs)"
  by (induction xs) simp_all

lemma node_json_fields:
  "get_str (node_json live r) ''handle'' = Some (res_handle r)"
  "get_str (node_json live (demo_row x p now n h nm ep)) ''node_id'' = Some n"
  "get (node_json live (demo_row x p now n h nm ep)) ''endpoints'' = Some (JArr [JStr ep])"
  by (simp_all add: node_json_def Let_def get_str_def obj_get.simps demo_row_def node_payload_def json_opt_def opt_default_def json_strings_def)

lemma handles_of_nodes: "handles_of (map (node_json live) rs) = map res_handle rs"
  by (induction rs) (simp_all add: handles_of_def List.map_filter_simps node_json_fields)

text \<open>A table in which the demo's names are free.\<close>

definition demo_free :: "(string, resource) table \<Rightarrow> bool" where
  "demo_free t \<longleftrightarrow> list_all (\<lambda>(k, r). k \<noteq> node_rid ''nd_demoA'' \<and> k \<noteq> node_rid ''nd_demoB'' \<and> res_handle r \<noteq> ''node-a'') t"

lemma demo_row_simps [simp]:
  "res_handle (demo_row x p now n h nm ep) = h" "res_visibility (demo_row x p now n h nm ep) = demo_visibility p"
  "res_owner (demo_row x p now n h nm ep) = principal_usr_id p" "res_type (demo_row x p now n h nm ep) = ''vp-node''"
  by (simp_all add: demo_row_def)

lemma demo_visible: "node_visible_to (principal_usr_id p) (demo_row x p now n h nm ep)"
  by (cases "principal_usr_id p") (simp_all add: node_visible_to_def demo_visibility_def)

text \<open>What a list of nodes has to have for the checks to pass.\<close>

definition mutual :: "json list \<Rightarrow> bool" where
  "mutual nodes \<longleftrightarrow> ''node-a'' \<in> set (handles_of nodes) \<and> ''node-b'' \<in> set (handles_of nodes) \<and>
     node_id_ok (node_a_of nodes) \<and> ep_ok (node_a_of nodes)"

lemma demo_found:
  assumes "demo_free t"
  shows "mutual (map (node_json live) (by_created (tab_where (node_visible_to (principal_usr_id p)) (demo_rows x p now t))))"
proof -
  let ?a = "demo_row x p now ''nd_demoA'' ''node-a'' ''Node A'' ''[::1]:32000''"
  let ?b = "demo_row x p now ''nd_demoB'' ''node-b'' ''Node B'' ''[::1]:32001''"
  let ?rs = "by_created (tab_where (node_visible_to (principal_usr_id p)) (demo_rows x p now t))"
  have in_a: "?a \<in> set ?rs" "?b \<in> set ?rs"
    using demo_visible by (auto simp: by_created_def set_tab_where demo_rows_def)
  have only: "r = ?a" if "r \<in> set ?rs" "res_handle r = ''node-a''" for r
    using that assms by (auto simp: by_created_def set_tab_where demo_rows_def demo_free_def list_all_iff)
  have "List.find (\<lambda>r. res_handle r = ''node-a'') ?rs = Some ?a"
    by (rule find_unique [OF in_a(1)]) (use only in auto)
  then have a: "node_a_of (map (node_json live) ?rs) = Some (node_json live ?a)"
    by (simp add: node_a_of_def find_map node_json_fields)
  have "''node-a'' \<in> res_handle ` set ?rs" "''node-b'' \<in> res_handle ` set ?rs"
    using imageI [OF in_a(1), of res_handle] imageI [OF in_a(2), of res_handle] by simp_all
  then show ?thesis
    by (simp add: mutual_def a handles_of_nodes node_id_ok_def ep_ok_def node_json_fields)
qed

lemma demo_in_tree:
  assumes "demo_free t"
  shows "length (by_created (tab_where (\<lambda>r. res_handle r = ''node-a'' \<and> VP_NODE_REST_GUARD r) (demo_rows x p now t))) =
    (if principal_usr_id p = None then 1 else 0)"
proof -
  have "tab_where (\<lambda>r. res_handle r = ''node-a'' \<and> VP_NODE_REST_GUARD r) t = []"
    using assms by (auto simp: tab_where_def filter_empty_conv demo_free_def list_all_iff)
  then show ?thesis
    by (simp add: by_created_def demo_rows_def tab_where_def VP_NODE_REST_GUARD_def demo_visibility_def)
qed

lemma demo_puts:
  assumes "demo_free t"
  shows "tab_get t (node_rid ''nd_demoA'') = None"
    "tab_get (tab_put (node_rid ''nd_demoA'') a t) (node_rid ''nd_demoB'') = None"
    "tab_put (node_rid ''nd_demoB'') b (tab_put (node_rid ''nd_demoA'') a t) = t @ [(node_rid ''nd_demoA'', a), (node_rid ''nd_demoB'', b)]"
proof -
  have n: "tab_get t (node_rid ''nd_demoA'') = None" "tab_get t (node_rid ''nd_demoB'') = None"
    using assms by (auto simp: tab_get_def map_of_eq_None_iff demo_free_def list_all_iff)
  then have m: "tab_get (tab_put (node_rid ''nd_demoA'') a t) (node_rid ''nd_demoB'') = None"
    by (simp add: tab.get_put node_rid_def)
  show "tab_get t (node_rid ''nd_demoA'') = None" "tab_get (tab_put (node_rid ''nd_demoA'') a t) (node_rid ''nd_demoB'') = None"
    by (rule n(1), rule m)
  show "tab_put (node_rid ''nd_demoB'') b (tab_put (node_rid ''nd_demoA'') a t) = t @ [(node_rid ''nd_demoA'', a), (node_rid ''nd_demoB'', b)]"
    using tab_put_fresh [OF m] tab_put_fresh [OF n(1)] by simp
qed

lemma demo_replies:
  assumes "alone w" and "takes_part p ar" and "demo_free (tb_resource (w_db w))"
    and "hub_answers x p ar ''Register'' (register_request ''nd_demoA'' ''node-a'' ''Node A'' [''[::1]:32000'']) w a w1"
    and "hub_answers x p ar ''Register'' (register_request ''nd_demoB'' ''node-b'' ''Node B'' [''[::1]:32001'']) w1 b w2"
    and "hub_answers x p ar ''Discover'' (JObj []) w2 reply w3"
  shows "w3 = w\<lparr>w_db := (w_db w)\<lparr>tb_resource := demo_rows x p (w_now w) (tb_resource (w_db w))\<rparr>\<rparr>"
    and "\<exists>live. nodes_in reply =
      map (node_json live) (by_created (tab_where (node_visible_to (principal_usr_id p)) (demo_rows x p (w_now w) (tb_resource (w_db w)))))"
proof -
  note puts = demo_puts [OF assms(3)]
  have w1: "w1 = w\<lparr>w_db := (w_db w)\<lparr>tb_resource := tab_put (node_rid ''nd_demoA'')
      (demo_row x p (w_now w) ''nd_demoA'' ''node-a'' ''Node A'' ''[::1]:32000'') (tb_resource (w_db w))\<rparr>\<rparr>"
    using assms(4) by (auto simp: hub_answers_def register_reply [OF assms(1,2)] puts(1) demo_row_def)
  have "alone w1" using assms(1) w1 by simp
  then have w2: "w2 = w\<lparr>w_db := (w_db w)\<lparr>tb_resource := demo_rows x p (w_now w) (tb_resource (w_db w))\<rparr>\<rparr>"
    using assms(5) by (auto simp: hub_answers_def register_reply [OF _ assms(2)] w1 puts(2,3) demo_rows_def demo_row_def [symmetric])
  have "alone w2" using assms(1) w2 by simp
  from discover_reply [OF this assms(2)] assms(6) w2
  show "w3 = w\<lparr>w_db := (w_db w)\<lparr>tb_resource := demo_rows x p (w_now w) (tb_resource (w_db w))\<rparr>\<rparr>"
    "\<exists>live. nodes_in reply =
      map (node_json live) (by_created (tab_where (node_visible_to (principal_usr_id p)) (demo_rows x p (w_now w) (tb_resource (w_db w)))))"
    by (auto simp: hub_answers_def obj_get.simps opt_default_def nodes_in_def)
qed

text \<open>
  C38: the demo succeeds: against a hub that runs alone and where its names are free, whether it presents no
  credential to a hub that demands none or that of a user, both nodes are found through the hub, the id and the endpoints of the
  first come back as they were registered, and exactly the two rows have been added. On the REST surface the node
  shows when it was registered without an identity; registered by a user it is private, and the tree is empty.
\<close>

theorem demo_succeeds:
  assumes "hub_idle ver cred s" and "non_empty (env ''HUB_CRED'') = cred" and "alone (hc_world s)"
    and "takes_part (presented ver cred) ar" and "demo_free (tb_resource (w_db (hc_world s)))"
    and "\<And>w. in_time timeout (respond (handle_request sv (route GET [''v1'', ''tree'', ''node-a'']) no_credentials)) w"
  shows "\<exists>report s'. nodes_demo (\<lambda>_. hub_link x ver ar) (hub_rest timeout sv) env s = (Inr report, s') \<and>
    {''node-a'', ''node-b''} \<subseteq> set (dr_handles report) \<and>
    dr_rest report = Some (if principal_usr_id (presented ver cred) = None then 1 else 0) \<and>
    w_db (hc_world s') = (w_db (hc_world s))\<lparr>tb_resource :=
      demo_rows x (presented ver cred) (w_now (hc_world s)) (tb_resource (w_db (hc_world s)))\<rparr>"
proof -
  let ?p = "presented ver cred"
  let ?w = "hc_world s"
  let ?t = "demo_rows x ?p (w_now ?w) (tb_resource (w_db ?w))"
  let ?w3 = "?w\<lparr>w_db := (w_db ?w)\<lparr>tb_resource := ?t\<rparr>\<rparr>"
  from on_hub.nodes_demo_answered [where links = "\<lambda>_. hub_link x ver ar" and env = env and rest = "hub_rest timeout sv",
      OF assms(1) refl assms(2)]
  obtain a w1 b w2 reply s1 where d: "nodes_demo (\<lambda>_. hub_link x ver ar) (hub_rest timeout sv) env s =
      demo_check (hub_rest timeout sv) a b (nodes_in reply) s1"
    and steps: "hub_answers x ?p ar ''Register'' (register_request ''nd_demoA'' ''node-a'' ''Node A'' [''[::1]:32000'']) ?w a w1"
      "hub_answers x ?p ar ''Register'' (register_request ''nd_demoB'' ''node-b'' ''Node B'' [''[::1]:32001'']) w1 b w2"
      "hub_answers x ?p ar ''Discover'' (JObj []) w2 reply (hc_world s1)" by blast
  note replies = demo_replies [OF assms(3,4,5) steps]
  have r: "mutual (nodes_in reply)" "hc_world s1 = ?w3" using replies demo_found [OF assms(5)] by auto
  have "alone (hc_world s1)" using assms(3) r(2) by simp
  from tree_request [OF this assms(6)] obtain resp where resp: "serve timeout sv GET [''v1'', ''tree'', ''node-a''] no_credentials (hc_world s1) = (Inr resp, hc_world s1)"
    "rs_body resp = JsonBody (JObj [(''handle'', JStr ''node-a''), (''path'', JStr ''/''), (''resources'', JArr (map resource_json
      (by_created (tab_where (\<lambda>r. res_handle r = ''node-a'' \<and> VP_NODE_REST_GUARD r) ?t))))])"
    using r(2) by auto
  have "hub_rest timeout sv ''http://localhost:3000/v1/tree/node-a'' s1 = (case rs_body resp of JsonBody v \<Rightarrow> Some v | _ \<Rightarrow> Some JNull,
      s1\<lparr>hc_net := (hc_net s1)\<lparr>hn_world := hc_world s1\<rparr>\<rparr>)"
    by (simp add: hub_rest_def demo_path resp)
  then obtain body s2 where h: "hub_rest timeout sv ''http://localhost:3000/v1/tree/node-a'' s1 = (Some body, s2)" "hc_world s2 = ?w3"
    "resources_in body = (if principal_usr_id ?p = None then 1 else 0)"
    using r(2) demo_in_tree [OF assms(5), of x ?p "w_now ?w"] by (simp add: resp(2) resources_in_def obj_get.simps opt_default_def)
  then show ?thesis using r(1) by (auto simp: d demo_check_def mutual_def Let_def)
qed

text \<open>
  The demo fails cleanly where it may not take part: against a hub that demands authentication, without
  a credential, the connections are made and the registrations are answered, but the answers are errors; the demo ends with
  the report that no node was found, and nothing is registered.
\<close>

theorem demo_refused:
  assumes "hub_idle ver None s" and "non_empty (env ''HUB_CRED'') = None"
  shows "\<exists>s'. nodes_demo (\<lambda>_. hub_link x ver True) rest env s = (Inl (Discovery_failed []), s') \<and> hc_world s' = hc_world s"
proof -
  have refused: "\<exists>msg. reply = JObj [(''error'', JStr msg)] \<and> w' = w"
    if h: "hub_answers x (presented ver None) True call payload w reply w'" "call \<in> {''Register'', ''Discover''}" for call payload w reply w'
  proof -
    obtain live where live: "nodes_reply x None True call payload live w = (Inr reply, w')"
      using h(1) by (auto simp: hub_answers_def presented_def)
    have "\<not> participates None True (method_scope call)" by (simp add: participates_def)
    with refused_reply [of None True call x payload live w] live h(2) show ?thesis by auto
  qed
  from on_hub.nodes_demo_answered [where links = "\<lambda>_. hub_link x ver True" and env = env and rest = rest, OF assms(1) refl assms(2)]
  obtain a w1 b w2 reply s1 where d: "nodes_demo (\<lambda>_. hub_link x ver True) rest env s = demo_check rest a b (nodes_in reply) s1"
    and steps: "hub_answers x (presented ver None) True ''Register'' (register_request ''nd_demoA'' ''node-a'' ''Node A'' [''[::1]:32000'']) (hc_world s) a w1"
      "hub_answers x (presented ver None) True ''Register'' (register_request ''nd_demoB'' ''node-b'' ''Node B'' [''[::1]:32001'']) w1 b w2"
      "hub_answers x (presented ver None) True ''Discover'' (JObj []) w2 reply (hc_world s1)" by blast
  have w: "hc_world s1 = hc_world s" "nodes_in reply = []"
    using refused [OF steps(1)] refused [OF steps(2)] refused [OF steps(3)] by (auto simp: nodes_in_def obj_get.simps opt_default_def)
  have "demo_check rest a b [] s1 = (Inl (Discovery_failed []), s1)"
    by (simp add: demo_check_def Let_def handles_of_def List.map_filter_simps)
  then show ?thesis using d w by auto
qed

section \<open>Concrete instances\<close>

text \<open>A hub with one node of \<open>usr_a\<close>, and nobody connected.\<close>

definition quiet_hub :: "db \<Rightarrow> hub_clients" where
  "quiet_hub d = \<lparr>hc_net = net_start (a_world d), hc_next = 0\<rparr>"

lemma quiet_hub_simps [simp]: "hc_world (quiet_hub d) = a_world d"
  by (simp add: quiet_hub_def net_start_def)

definition gc_env :: environment where
  "gc_env = [''NODE_IDS'' \<mapsto> ''w1,w2'', ''HUB_TOKEN_FILE'' \<mapsto> ''tok'']"

lemma gc_env_facts:
  "comma_list (gc_env ''NODE_IDS'') = Some [''w1'', ''w2'']"
  "token_from (\<lambda>_. Some ''usr_a'') gc_env = Inr (Some ''usr_a'')"
proof -
  have "split_on (CHR '','') ''w1,w2'' = [''w1'', ''w2'']" "trim ''w1'' = ''w1''" "trim ''w2'' = ''w2''"
    by code_simp+
  then show "comma_list (gc_env ''NODE_IDS'') = Some [''w1'', ''w2'']"
    by (simp add: comma_list_def gc_env_def)
  have "trim ''usr_a'' = ''usr_a''" by code_simp
  then show "token_from (\<lambda>_. Some ''usr_a'') gc_env = Inr (Some ''usr_a'')"
    by (simp add: token_from_def gc_env_def non_empty_def)
qed

lemma presented_usr_a: "presented any_user (Some ''usr_a'') = Some (user_conn ''usr_a'')"
  by (simp add: presented_def connection_auth_def utf8_examples any_user_def user_conn_def)

theorem registry_gc_witness:
  "\<exists>s'. registry_gc (\<lambda>_. hub_link an_ext any_user True) (\<lambda>_. Some ''usr_a'') gc_env (quiet_hub node_db) =
     (Inr \<lparr>gr_lines = [Gc_removed ''w1'' 1, Gc_removed ''w2'' 0], gr_nodes = Inr (Some [])\<rparr>, s') \<and>
     tb_resource (w_db (hc_world s')) = []"
proof -
  have t: "tb_resource node_db = [(node_rid ''w1'', a_node)]" by (simp add: node_db_def node_rid_def)
  have own: "owner_matches (principal_usr_id (Some (user_conn ''usr_a''))) a_node"
    by (simp add: owner_matches_def principal_usr_id_def user_conn_def a_node_def)
  have c: "cleaned (Some (user_conn ''usr_a'')) [''w1'', ''w2''] [(node_rid ''w1'', a_node)] = []"
    using own by (simp add: cleaned_def)
  have r: "removable (Some (user_conn ''usr_a'')) [(node_rid ''w1'', a_node)] ''w1''"
    "\<not> removable (Some (user_conn ''usr_a'')) [(node_rid ''w1'', a_node)] ''w2''"
    using own by (simp_all add: removable_def tab_get_def node_rid_def)
  have idle: "hub_idle any_user (Some ''usr_a'') (quiet_hub node_db)"
    by (simp add: hub_idle_def presented_usr_a quiet_hub_def net_start_def)
  have part: "takes_part (presented any_user (Some ''usr_a'')) True"
    by (simp add: takes_part_def presented_usr_a principal_usr_id_def user_conn_def)
  show ?thesis
    using registry_gc_cleans [OF idle _ _ gc_env_facts(1) _ gc_env_facts(2) part, of an_ext] r
    by (auto simp: t c presented_usr_a tab_ok_def gc_view_def by_created_def tab_where_def)
qed

text \<open>The demo without a credential and with that of a user.\<close>

theorem demo_witness:
  "(\<exists>report s'. nodes_demo (\<lambda>_. hub_link an_ext any_user False) (hub_rest no_limit a_server) (\<lambda>_. None) (quiet_hub empty_db) = (Inr report, s') \<and>
      dr_rest report = Some 1) \<and>
   (\<exists>report s'. nodes_demo (\<lambda>_. hub_link an_ext any_user True) (hub_rest no_limit a_server) [''HUB_CRED'' \<mapsto> ''usr_a''] (quiet_hub empty_db) = (Inr report, s') \<and>
      dr_rest report = Some 0)"
proof -
  have free: "demo_free (tb_resource (w_db (hc_world (quiet_hub empty_db))))" by (simp add: demo_free_def empty_db_def)
  have idle: "hub_idle any_user None (quiet_hub empty_db)" "hub_idle any_user (Some ''usr_a'') (quiet_hub empty_db)"
    by (simp_all add: hub_idle_def presented_usr_a quiet_hub_def net_start_def)
  have part: "takes_part (presented any_user None) False" "takes_part (presented any_user (Some ''usr_a'')) True"
    by (simp_all add: takes_part_def presented_usr_a principal_usr_id_def user_conn_def) (simp add: presented_def)
  have a: "alone (hc_world (quiet_hub empty_db))" by simp
  have env: "non_empty ((\<lambda>_. None) ''HUB_CRED'') = None" "non_empty ([''HUB_CRED'' \<mapsto> ''usr_a''] ''HUB_CRED'') = Some ''usr_a''"
    by (simp_all add: non_empty_def)
  have usr: "principal_usr_id (presented any_user None) = None" "principal_usr_id (presented any_user (Some ''usr_a'')) \<noteq> None"
    by (simp_all add: presented_usr_a principal_usr_id_def user_conn_def) (simp add: presented_def)
  show ?thesis
    using demo_succeeds [where env = "\<lambda>_. None", OF idle(1) env(1) a part(1) free no_limit_ok(2), of an_ext a_server]
      demo_succeeds [where env = "[''HUB_CRED'' \<mapsto> ''usr_a'']", OF idle(2) env(2) a part(2) free no_limit_ok(2), of an_ext a_server] usr
    by auto
qed

theorem demo_refused_witness:
  "\<exists>s'. nodes_demo (\<lambda>_. hub_link an_ext any_user True) (\<lambda>_ s. (None, s)) (\<lambda>_. None) (quiet_hub node_db) = (Inl (Discovery_failed []), s') \<and>
     hc_world s' = a_world node_db"
proof -
  have "hub_idle any_user None (quiet_hub node_db)" by (simp add: hub_idle_def quiet_hub_def net_start_def)
  then show ?thesis
    using demo_refused [where env = "\<lambda>_. None" and s = "quiet_hub node_db" and ver = any_user] by (simp add: non_empty_def)
qed

end
