(* ===== verification/Echo_Spike.thy ===== *)
theory Echo_Spike
  imports Node_Clients
begin

text \<open>
  The trial of the transport (\<open>crates/chronista-hub-server/examples/unison_spike.rs\<close>): a server with the
  library's discovery and an \<open>echo\<close> channel, and a client that asks both. The channel's loop and the client are
  the program's; the discovery document, its channel's name and method are the library's.
\<close>

section \<open>The protocol\<close>

definition spike_lines :: "string list" where
  "spike_lines =
     [[], ''protocol \"hub-spike\" version=\"0.0.1\" {'',
      ''    namespace \"chronista.hub.spike\"'', [],
      ''    channel \"unison.discovery\" from=\"client\" lifetime=\"persistent\" {'',
      ''        request \"GetProtocol\" {'',
      ''            field \"format\" type=\"string\" required=#true'',
      ''            returns \"ProtocolDocument\" {'',
      ''                field \"kdl\" type=\"string\" required=#true'',
      ''                field \"version\" type=\"string\" required=#true'',
      ''                field \"hash\" type=\"string\" required=#true'',
      ''                field \"codecs\" type=\"json\" required=#true'',
      ''            }'',
      ''        }'',
      ''    }'', [],
      ''    channel \"echo\" from=\"client\" lifetime=\"persistent\" {'',
      ''        request \"Echo\" {'',
      ''            field \"payload\" type=\"json\" required=#true'',
      ''            returns \"EchoResult\" {'',
      ''                field \"echoed\" type=\"json\" required=#true'',
      ''            }'',
      ''        }'',
      ''    }'',
      ''}'', []]"

definition SPIKE_KDL :: string where
  "SPIKE_KDL = join_with (CHR 0x0A) spike_lines"

section \<open>The echo channel\<close>

text \<open>A message, with its payload as a value when it is one; what \<open>recv\<close> gives.\<close>

datatype message_type = Request_type | Other_type

record message =
  ms_type :: message_type
  ms_method :: string
  ms_id :: nat
  ms_payload :: "json option"

datatype reception = Got message | Normal_close | Broken string

definition echo_reply :: "message \<Rightarrow> nat \<times> string \<times> json" where
  "echo_reply m =
     (let payload = opt_default JNull (ms_payload m)
      in (ms_id m, ms_method m, JObj [(''echoed'', opt_default JNull (get payload ''payload''))]))"

definition is_echo :: "message \<Rightarrow> bool" where
  "is_echo m \<longleftrightarrow> ms_type m = Request_type \<and> ms_method m = ''Echo''"

text \<open>
  The loop: each reception comes with whether a response to it can be sent. The result is the responses that
  were sent and how the handler ended; no end when it waits for more.
\<close>

fun echo_channel :: "(reception \<times> bool) list \<Rightarrow> (nat \<times> string \<times> json) list \<times> (string + unit) option" where
  "echo_channel [] = ([], None)"
| "echo_channel ((Got m, sent) # es) =
     (if is_echo m
      then (if sent then (let (rs, end_state) = echo_channel es in (echo_reply m # rs, end_state)) else ([], Some (Inr ())))
      else echo_channel es)"
| "echo_channel ((Normal_close, sent) # es) = ([], Some (Inr ()))"
| "echo_channel ((Broken e, sent) # es) = ([], Some (Inl e))"

section \<open>The client\<close>

text \<open>What the client looks at in the document; a failed assertion ends it.\<close>

record protocol_document =
  pd_kdl :: string
  pd_version :: string
  pd_hash :: string

datatype spike_end = Panicked string | Passed protocol_document json

definition echoed_hello :: "json \<Rightarrow> string option" where
  "echoed_hello resp = Option.bind (Option.bind (get resp ''echoed'') (\<lambda>v. get v ''hello'')) as_str"

text \<open>The assertions on the document; the printed part of the hash ends at its byte 16, which has to begin a character.\<close>

definition document_panic :: "protocol_document \<Rightarrow> string option" where
  "document_panic doc =
     (if pd_version doc \<noteq> ''0.0.1'' then Some ''discovery version mismatch''
      else if length (pd_hash doc) \<noteq> 64 then Some ''discovery hash should be sha256 hex''
      else if \<not> contains_str (pd_kdl doc) ''hub-spike'' then Some ''kdl should echo protocol name''
      else if is_continuation (pd_hash doc ! 16) then Some ''byte index 16 is not a char boundary''
      else None)"

definition spike_echo :: "'s link \<Rightarrow> nat \<Rightarrow> protocol_document \<Rightarrow> ('s, spike_end) client" where
  "spike_echo L client doc =
     cbnd (ln_open_channel L client ''echo'') (\<lambda>echan.
     cbnd (ln_request L echan ''Echo'' (JObj [(''payload'', JObj [(''hello'', JStr ''hub'')])])) (\<lambda>resp.
     if echoed_hello resp \<noteq> Some ''hub'' then cret (Panicked ''echo payload should round-trip'')
     else cbnd (ln_close L echan) (\<lambda>_. cbnd (ln_disconnect L client) (\<lambda>_. cret (Passed doc resp)))))"

definition spike_client ::
  "'s link \<Rightarrow> string \<Rightarrow> string \<Rightarrow> (json \<Rightarrow> client_error + protocol_document) \<Rightarrow> string \<Rightarrow> ('s, spike_end) client" where
  "spike_client L discovery_channel get_protocol read_document addr =
     cbnd (ln_connect L addr) (\<lambda>client.
     cbnd (ln_open_channel L client discovery_channel) (\<lambda>dchan.
     cbnd (ln_request L dchan get_protocol (JObj [(''format'', JStr ''kdl+hash'')])) (\<lambda>dval.
     case read_document dval of
       Inl e \<Rightarrow> cfail e
     | Inr doc \<Rightarrow>
         (case document_panic doc of
            Some m \<Rightarrow> cret (Panicked m)
          | None \<Rightarrow> cbnd (ln_close L dchan) (\<lambda>_. spike_echo L client doc)))))"

section \<open>What the channel answers\<close>

text \<open>The messages that the loop gets to see: those before the first end or the first response that cannot be sent.\<close>

fun handled :: "(reception \<times> bool) list \<Rightarrow> message list" where
  "handled ((Got m, sent) # es) = (if is_echo m \<and> \<not> sent then [] else m # handled es)"
| "handled _ = []"

text \<open>
  Every \<open>Echo\<close> request that is handled gets exactly one response, in order, under its own id and with its own
  payload; nothing else is answered.
\<close>

theorem echo_answers_requests: "fst (echo_channel es) = map echo_reply (filter is_echo (handled es))"
  by (induction es rule: echo_channel.induct) (auto split: prod.split)

text \<open>The channel ends without an error unless the connection breaks.\<close>

lemma echo_ends: "snd (echo_channel es) = Some (Inl e) \<Longrightarrow> \<exists>sent. (Broken e, sent) \<in> set es"
  by (induction es rule: echo_channel.induct) (auto split: prod.splits if_splits)

section \<open>Client and server together\<close>

text \<open>The library between them: channels by number, the document of the discovery, and the loop behind \<open>echo\<close>.\<close>

definition spike_link :: "string \<Rightarrow> json \<Rightarrow> (string list) link" where
  "spike_link discovery_channel document = \<lparr>
     ln_connect = (\<lambda>addr. cret 0), ln_connect_with_credential = (\<lambda>addr c. cret 0),
     ln_open_channel = (\<lambda>c name s. (Inr (length s), s @ [name])),
     ln_request = (\<lambda>k call payload s.
       if k < length s \<and> s ! k = discovery_channel then (Inr document, s)
       else if k < length s \<and> s ! k = ''echo''
       then (case fst (echo_channel [(Got \<lparr>ms_type = Request_type, ms_method = call, ms_id = 1, ms_payload = Some payload\<rparr>, True)]) of
         [(_, _, v)] \<Rightarrow> (Inr v, s) | _ \<Rightarrow> (Inl (Transport ''no answer''), s))
       else (Inl (Transport ''no channel''), s)),
     ln_close = (\<lambda>k. cret ()), ln_disconnect = (\<lambda>c. cret ())\<rparr>"

lemma spike_kdl_names: "contains_str SPIKE_KDL ''hub-spike''"
proof -
  have "SPIKE_KDL = (CHR 0x0A # ''protocol \"'') @ ''hub-spike'' @ (''\" version=\"0.0.1\" {'' @ CHR 0x0A # join_with (CHR 0x0A) (drop 2 spike_lines))"
    unfolding SPIKE_KDL_def by (simp add: spike_lines_def)
  then show ?thesis by (rule contains_strI)
qed

text \<open>
  The trial passes: with the discovery's promise (a document with the given protocol, its version and a hash of 64
  ASCII characters), the client gets what it has sent back from the echo channel, and no assertion fails.
\<close>

theorem spike_passes:
  assumes "discovery_channel \<noteq> ''echo''" and "read_document document = Inr \<lparr>pd_kdl = SPIKE_KDL, pd_version = ''0.0.1'', pd_hash = hash\<rparr>"
    and "length hash = 64" and "list_all (\<lambda>c. code_of c < 128) hash"
  shows "fst (spike_client (spike_link discovery_channel document) discovery_channel get_protocol read_document addr s) =
    Inr (Passed \<lparr>pd_kdl = SPIKE_KDL, pd_version = ''0.0.1'', pd_hash = hash\<rparr> (JObj [(''echoed'', JObj [(''hello'', JStr ''hub'')])]))"
proof -
  have "\<not> is_continuation (hash ! 16)"
    using assms(3,4) by (auto simp: is_continuation_def list_all_length dest!: spec [of _ 16])
  then have "document_panic \<lparr>pd_kdl = SPIKE_KDL, pd_version = ''0.0.1'', pd_hash = hash\<rparr> = None"
    using assms(3) spike_kdl_names by (simp add: document_panic_def)
  then show ?thesis
    using assms(1,2)
    by (simp add: spike_client_def spike_echo_def spike_link_def cbnd_def is_echo_def echo_reply_def opt_default_def obj_get.simps
      echoed_hello_def nth_append)
qed

lemma spike_example:
  "fst (spike_client (spike_link ''d'' JNull) ''d'' ''g'' (\<lambda>_. Inr \<lparr>pd_kdl = SPIKE_KDL, pd_version = ''0.0.1'', pd_hash = replicate 64 (CHR ''a'')\<rparr>) ''addr'' []) =
    Inr (Passed \<lparr>pd_kdl = SPIKE_KDL, pd_version = ''0.0.1'', pd_hash = replicate 64 (CHR ''a'')\<rparr> (JObj [(''echoed'', JObj [(''hello'', JStr ''hub'')])]))"
  by (rule spike_passes) (simp_all add: list_all_iff code_of_def)

end
