(* ===== verification/Boot.thy ===== *)
theory Boot
  imports Unison Db_Watch Config
begin

text \<open>
  The start of the program (\<open>crates/chronista-hub-server/src/main.rs\<close>, with \<open>db.rs\<close>'s \<open>open\<close> and
  \<open>unison_server.rs\<close>'s \<open>spawn_unison\<close>): what has to work, in which order, before the hub listens,
  which verifier it then has, and the refresh of that verifier's keys. The answers of the
  surroundings (the database SDK, the file system, the network) are parameters.
\<close>

section \<open>Opening the database\<close>

datatype sdk_call =
    Connect string
  | SigninRoot string string
  | SigninNamespace string string string
  | SigninDatabase string string string string
  | Use string string

definition signin_call :: "string \<Rightarrow> string \<Rightarrow> db_auth \<Rightarrow> sdk_call" where
  "signin_call ns db a =
     (case da_level a of
        RootLevel \<Rightarrow> SigninRoot (da_username a) (da_password a)
      | NamespaceLevel \<Rightarrow> SigninNamespace ns (da_username a) (da_password a)
      | DatabaseLevel \<Rightarrow> SigninDatabase ns db (da_username a) (da_password a))"

definition open_calls :: "config \<Rightarrow> sdk_call list" where
  "open_calls cfg = Connect (cf_db_url cfg) #
     (case cf_db_auth cfg of None \<Rightarrow> [] | Some a \<Rightarrow> [signin_call (cf_namespace cfg) (cf_database cfg) a]) @
     [Use (cf_namespace cfg) (cf_database cfg)]"

text \<open>Calls one after the other, up to the first that fails.\<close>

fun all_calls :: "('c \<Rightarrow> error + unit) \<Rightarrow> 'c list \<Rightarrow> error + unit" where
  "all_calls answer [] = Inr ()"
| "all_calls answer (c # cs) = (case answer c of Inl e \<Rightarrow> Inl e | Inr _ \<Rightarrow> all_calls answer cs)"

definition open_connection :: "(sdk_call \<Rightarrow> error + unit) \<Rightarrow> config \<Rightarrow> error + unit" where
  "open_connection sdk cfg = all_calls sdk (open_calls cfg)"

section \<open>The Unison surface\<close>

datatype cert_source = Dev_localhost | Provided "string list" | From_file string string

text \<open>The error of a step with a message put before it.\<close>

definition in_context :: "string \<Rightarrow> error + 'a \<Rightarrow> error + 'a" where
  "in_context msg r = (case r of Inl e \<Rightarrow> Inl (with_context msg e) | Inr a \<Rightarrow> Inr a)"

text \<open>
  \<open>resolve\<close> makes a certificate chain for names, \<open>write\<close> writes a file. The generated certificate
  is exported when a path for it is configured.
\<close>

definition build_cert_source ::
  "(string list \<Rightarrow> error + string list) \<Rightarrow> (string \<Rightarrow> string \<Rightarrow> error + unit) \<Rightarrow> unison_cert \<Rightarrow> string option \<Rightarrow>
   error + cert_source" where
  "build_cert_source resolve write cert cert_out =
     (case cert of
        Dev \<Rightarrow> Inr Dev_localhost
      | SelfSigned sans \<Rightarrow>
          (case in_context ''resolve self-signed Unison cert'' (resolve sans) of
             Inl e \<Rightarrow> Inl e
           | Inr chain \<Rightarrow>
               (case (cert_out, chain) of
                  (Some path, leaf # _) \<Rightarrow>
                    (case in_context (''write Unison cert DER to '' @ path) (write path leaf) of
                       Inl e \<Rightarrow> Inl e
                     | Inr _ \<Rightarrow> Inr (Provided chain))
                | _ \<Rightarrow> Inr (Provided chain)))
      | CertFile cert_path key_path \<Rightarrow> Inr (From_file cert_path key_path))"

record unison_surface =
  un_address :: string
  un_cert :: cert_source
  un_authenticator :: "string \<Rightarrow> conn_principal option"
  un_auth_required :: bool

section \<open>The verifier and its keys\<close>

text \<open>The text of the error for a key document that does not parse is not modelled.\<close>

definition build_verifier ::
  "ext \<Rightarrow> jwt_lib \<Rightarrow> (string \<Rightarrow> error + string) \<Rightarrow> auth_config \<Rightarrow> error + verifier \<times> jwks_verifier option" where
  "build_verifier x L fetch ac =
     (if ac_stub_auth_allowed ac then Inr (stub_verifier x, None)
      else case in_context (''fetch JWKS from '' @ ac_jwks_url ac) (fetch (ac_jwks_url ac)) of
        Inl e \<Rightarrow> Inl e
      | Inr doc \<Rightarrow>
          (case from_jwks_json L doc (ac_issuer ac) (ac_audiences ac) (ac_allow_stub_app_token ac) of
             None \<Rightarrow> Inl (anyhow [])
           | Some v \<Rightarrow> Inr (verifier_of_jwks L v, Some v)))"

definition refresh_interval :: "nat \<Rightarrow> nat" where
  "refresh_interval secs = max secs 30"

text \<open>A round of the background refresh, and the rounds for the answers that the fetches get.\<close>

definition refresh_round :: "jwt_lib \<Rightarrow> error + string \<Rightarrow> jwks_verifier \<Rightarrow> jwks_verifier" where
  "refresh_round L fetched v =
     (case fetched of Inl _ \<Rightarrow> v | Inr doc \<Rightarrow> snd (refresh_from_json L doc v))"

definition refresh_rounds :: "jwt_lib \<Rightarrow> (error + string) list \<Rightarrow> jwks_verifier \<Rightarrow> jwks_verifier" where
  "refresh_rounds L answers v = fold (refresh_round L) answers v"

section \<open>The start\<close>

record surroundings =
  su_env :: environment
  su_ext :: ext
  su_jwt :: jwt_lib
  su_sdk :: "sdk_call \<Rightarrow> error + unit"
  su_first_ping :: "(error + unit) option"
  su_reopened :: "(error + unit) option"
  su_second_ping :: "(error + unit) option"
  su_migrations :: "string \<Rightarrow> migration_dir"
  su_fetch :: "string \<Rightarrow> error + string"
  su_discovery :: "error + unit"
  su_resolve :: "string list \<Rightarrow> error + string list"
  su_write :: "string \<Rightarrow> string \<Rightarrow> error + unit"
  su_listen :: "string \<Rightarrow> cert_source \<Rightarrow> error + unit"
  su_bind :: "nat \<Rightarrow> error + unit"

definition spawn_unison :: "surroundings \<Rightarrow> config \<Rightarrow> verifier \<Rightarrow> error + unison_surface" where
  "spawn_unison su cfg ver =
     (case su_discovery su of
        Inl e \<Rightarrow> Inl e
      | Inr _ \<Rightarrow>
          (case build_cert_source (su_resolve su) (su_write su) (cf_unison_cert cfg) (cf_unison_cert_out cfg) of
             Inl e \<Rightarrow> Inl e
           | Inr cert \<Rightarrow>
               (case su_listen su (cf_unison_addr cfg) cert of
                  Inl e \<Rightarrow> Inl e
                | Inr _ \<Rightarrow> Inr \<lparr>un_address = cf_unison_addr cfg, un_cert = cert,
                    un_authenticator = connection_auth ver,
                    un_auth_required = cf_federation_auth_required cfg\<rparr>)))"

datatype task = Watchdog nat | Consumer_ms nat | Refresh_keys string nat

record running =
  ru_config :: config
  ru_applied :: "string list"
  ru_db :: db_state
  ru_tasks :: "task list"
  ru_keys :: "jwks_verifier option"
  ru_unison :: unison_surface
  ru_app :: app_state

definition SERVICE_NAME :: string where "SERVICE_NAME = ''chronista-hub''"
definition VERSION :: string where "VERSION = ''0.11.2''"

definition app_of :: "surroundings \<Rightarrow> auth_config \<Rightarrow> verifier \<Rightarrow> app_state" where
  "app_of su ac ver = \<lparr>st_ext = su_ext su, st_verifier = ver, st_admin_key = ac_admin_key ac, st_issuer = ac_issuer ac,
     st_settings = ac_settings ac, st_service = SERVICE_NAME, st_version = VERSION\<rparr>"

definition tasks_of :: "config \<Rightarrow> jwks_verifier option \<Rightarrow> task list" where
  "tasks_of cfg keys = [Watchdog (cf_db_check_secs cfg), Consumer_ms 1000] @
     (case keys of None \<Rightarrow> []
      | Some _ \<Rightarrow> [Refresh_keys (ac_jwks_url (cf_auth cfg)) (refresh_interval (ac_jwks_refresh_secs (cf_auth cfg)))])"

text \<open>\<open>main\<close> up to the point where it serves; an error ends the program, its tasks with it.\<close>

definition start_hub :: "surroundings \<Rightarrow> running hub" where
  "start_hub su =
     bnd (check (from_env (su_env su))) (\<lambda>cfg.
     bnd (check (in_context (''connect SurrealDB '' @ cf_db_url cfg) (open_connection (su_sdk su) cfg))) (\<lambda>_.
     bnd (if cf_auto_migrate cfg then run_pending_migrations (su_migrations su (cf_migrations_dir cfg)) else ret []) (\<lambda>applied.
     bnd clock_ms (\<lambda>now.
     bnd (check (build_verifier (su_ext su) (su_jwt su) (su_fetch su) (cf_auth cfg))) (\<lambda>(ver, keys).
     bnd (check (in_context ''spawn Unison surface'' (spawn_unison su cfg ver))) (\<lambda>unison.
     bnd (check (su_bind su (cf_port cfg))) (\<lambda>_.
     ret \<lparr>ru_config = cfg, ru_applied = applied,
       ru_db = checked 0 now (su_first_ping su) (su_reopened su) (su_second_ping su) (connected (cf_db_url cfg)),
       ru_tasks = tasks_of cfg keys, ru_keys = keys, ru_unison = unison, ru_app = app_of su (cf_auth cfg) ver\<rparr>)))))))"

section \<open>What a started hub has\<close>

lemma in_context_Inr [simp]: "in_context msg r = Inr a \<longleftrightarrow> r = Inr a"
  by (cases r) (simp_all add: in_context_def)

lemma all_calls_ok: "all_calls answer cs = Inr u \<longleftrightarrow> (\<forall>c \<in> set cs. \<exists>v. answer c = Inr v)"
  by (induction cs) (auto split: sum.split)

lemma all_calls_calm [simp]: "all_calls (\<lambda>_. Inr ()) cs = Inr ()"
  by (induction cs) simp_all

lemma check_eq: "check r w = (Inr a, w') \<longleftrightarrow> r = Inr a \<and> w' = w"
  by (cases r) auto

text \<open>The keys after any number of rounds are those of the last document that could be fetched and read.\<close>

definition good_keys :: "jwt_lib \<Rightarrow> error + string \<Rightarrow> (string option \<times> string) list option" where
  "good_keys L answer = (case answer of Inl _ \<Rightarrow> None | Inr doc \<Rightarrow> j_parse_jwks L doc)"

lemma refresh_round_eq:
  "refresh_round L answer v = (case good_keys L answer of None \<Rightarrow> v | Some ks \<Rightarrow> v\<lparr>jv_jwks := ks\<rparr>)"
  by (auto simp: refresh_round_def good_keys_def refresh_from_json_def split: sum.split option.split)

lemma refresh_rounds_eq:
  "refresh_rounds L answers v = v\<lparr>jv_jwks := last (jv_jwks v # List.map_filter (good_keys L) answers)\<rparr>"
proof (induction answers arbitrary: v)
  case (Cons a answers)
  have "refresh_rounds L (a # answers) v = refresh_rounds L answers (refresh_round L a v)"
    by (simp add: refresh_rounds_def)
  then show ?case
    by (cases "good_keys L a") (simp_all add: Cons refresh_round_eq map_filter_simps)
qed (simp add: refresh_rounds_def map_filter_simps)

text \<open>What had to work before the hub listens.\<close>

lemma start_hub_inversion:
  assumes "start_hub su w = (Inr ru, w')"
  obtains cfg ver where
    "from_env (su_env su) = Inr cfg" "ru_config ru = cfg"
    "open_connection (su_sdk su) cfg = Inr ()"
    "(if cf_auto_migrate cfg then run_pending_migrations (su_migrations su (cf_migrations_dir cfg)) else ret []) w =
       (Inr (ru_applied ru), w')"
    "build_verifier (su_ext su) (su_jwt su) (su_fetch su) (cf_auth cfg) = Inr (ver, ru_keys ru)"
    "spawn_unison su cfg ver = Inr (ru_unison ru)"
    "ru_app ru = app_of su (cf_auth cfg) ver" "ru_tasks ru = tasks_of cfg (ru_keys ru)"
    "\<exists>now. ru_db ru = checked 0 now (su_first_ping su) (su_reopened su) (su_second_ping su) (connected (cf_db_url cfg))"
proof -
  from assms show thesis
    by (auto simp: start_hub_def bnd_eq_Inr check_eq clock_ms_def intro!: that simp del: ret_apply dest!: ret_eq [THEN iffD1])
qed

lemma build_verifier_jwks:
  assumes "build_verifier x L fetch ac = Inr (ver, keys)" and "\<not> ac_stub_auth_allowed ac"
  obtains doc ks where "fetch (ac_jwks_url ac) = Inr doc" "j_parse_jwks L doc = Some ks"
    "keys = Some \<lparr>jv_jwks = ks, jv_issuer = ac_issuer ac, jv_audiences = ac_audiences ac,
       jv_allow_stub_app_token = ac_allow_stub_app_token ac\<rparr>"
    "ver = verifier_of_jwks L (the keys)"
  using assms by (auto simp: build_verifier_def from_jwks_json_def split: sum.splits option.splits)

lemma stub_allowed: "from_env env = Inr cfg \<Longrightarrow> ac_stub_auth_allowed (cf_auth cfg) \<longleftrightarrow> env ''STUB_AUTH_ALLOWED'' = Some ''true''"
  by (auto simp: from_env_def auth_of_def Let_def split: sum.splits)

text \<open>A token that a verifier may accept, given the keys, the issuer and the audiences.\<close>

definition checked_token ::
  "jwt_lib \<Rightarrow> (string \<Rightarrow> jwt option) \<Rightarrow> (string option \<times> string) list \<Rightarrow> string \<Rightarrow> string list \<Rightarrow> string \<Rightarrow> bool" where
  "checked_token L T keys issuer audiences tok \<longleftrightarrow>
     (\<exists>j kid jwk key. T tok = Some j \<and> j_header_kid L tok = Some (Some kid) \<and> (Some kid, jwk) \<in> set keys \<and>
        j_decoding_key L jwk = Some key \<and> key \<in> set (jt_keys j) \<and> jt_alg j = ''RS256'' \<and>
        jt_iss j = Some issuer \<and> jt_exp j \<noteq> None \<and>
        (\<exists>as. jt_aud j = Some as \<and> list_ex (\<lambda>a. a \<in> set audiences) as))"

lemma jwks_checks:
  assumes "jwt_lib_ok L T" and "verify_user_token (verifier_of_jwks L v) tok = Some p"
  shows "checked_token L T (jv_jwks v) (jv_issuer v) (jv_audiences v) tok"
  unfolding checked_token_def by (rule jwks_token_checked [OF assms])

section \<open>Properties\<close>



section \<open>Concrete instances\<close>

text \<open>Surroundings in which everything works, with a key document that the library can read.\<close>

definition a_jwt :: jwt_lib where
  "a_jwt = a_lib\<lparr>j_parse_jwks := (\<lambda>doc. if doc = ''keys'' then Some [(Some ''k1'', ''jwk1'')] else None)\<rparr>"

definition an_env :: environment where
  "an_env = [''CREO_ID_ISSUER'' \<mapsto> ''creo'', ''CREO_ID_AUDIENCES'' \<mapsto> ''hub'', ''AUTO_MIGRATE_ENABLED'' \<mapsto> ''true'',
     ''SURREALDB_USERNAME'' \<mapsto> ''u'', ''SURREALDB_PASSWORD'' \<mapsto> ''p'']"

definition all_well :: surroundings where
  "all_well = \<lparr>su_env = an_env, su_ext = an_ext, su_jwt = a_jwt, su_sdk = (\<lambda>_. Inr ()), su_first_ping = Some (Inr ()),
     su_reopened = None, su_second_ping = None, su_migrations = (\<lambda>_. two_migrations), su_fetch = (\<lambda>_. Inr ''keys''),
     su_discovery = Inr (), su_resolve = Inr, su_write = (\<lambda>_ _. Inr ()), su_listen = (\<lambda>_ _. Inr ()), su_bind = (\<lambda>_. Inr ())\<rparr>"

lemma a_jwt_ok: "jwt_lib_ok a_jwt a_token_text"
  using a_lib_ok by (simp add: jwt_lib_ok_def a_jwt_def)

lemma all_well_starts:
  obtains ru w' where "start_hub all_well (a_world (empty_db\<lparr>tb_migrations := [''001_event'']\<rparr>)) = (Inr ru, w')"
proof -
  obtain w' where w': "run_pending_migrations two_migrations (a_world (empty_db\<lparr>tb_migrations := [''001_event'']\<rparr>)) = (Inr [''002_app''], w')"
    by (rule two_migrations_run)
  show thesis
    by (rule that) (simp add: start_hub_def all_well_def an_env_def from_env_def parse_db_auth_def non_empty_def opt_filter_def
      or_else_def open_connection_def all_calls_ok in_context_def w' build_verifier_def auth_of_def Let_def
      from_jwks_json_def a_jwt_def spawn_unison_def unison_cert_of_def build_cert_source_def bnd_steps)
qed



end
