(* ===== verification/Running_Hub.thy ===== *)
theory Running_Hub
  imports Hub_Flows Boot
begin

text \<open>
  The running hub: the components of the program put together as \<open>main.rs\<close> puts them. One state
  holds the world of the handlers, the Unison connections and channels, the database connection with its
  health record and its checks, the watchdog, the application state with its verifier, and whether
  the program still serves; a step is one of any task. What the components share is what the code
  shares: a handler that kicks leaves a permit for the watchdog, the health endpoints show what the last check
  recorded, and a key refresh changes the verifier of HTTP and Unison alike.
\<close>

section \<open>The state\<close>

datatype stage = Accepting | Draining | Ended

record running_hub =
  hb_net :: hub_net
  hb_db :: db_state
  hb_watch :: watchdog
  hb_app :: app_state
  hb_keys :: "jwks_verifier option"
  hb_stage :: stage

abbreviation hb_world :: "running_hub \<Rightarrow> world" where
  "hb_world h \<equiv> hn_world (hb_net h)"

text \<open>What stays as it was at the start, and the reliance on the other clients of the database.\<close>

record installation =
  in_jwt :: jwt_lib
  in_timeout :: "nat \<Rightarrow> response hub \<Rightarrow> response option hub"
  in_js :: string
  in_auth_required :: bool
  in_others :: "db \<Rightarrow> bool"

definition launched :: "running \<Rightarrow> world \<Rightarrow> running_hub" where
  "launched ru w = \<lparr>hb_net = net_start (w\<lparr>w_kicked := False\<rparr>), hb_db = ru_db ru,
     hb_watch = \<lparr>wd_phase = Waiting, wd_permit = False, wd_tick_due = False, wd_checks = 0\<rparr>,
     hb_app = ru_app ru, hb_keys = ru_keys ru, hb_stage = Accepting\<rparr>"

definition server_of :: "installation \<Rightarrow> running_hub \<Rightarrow> server" where
  "server_of S h = \<lparr>sv_app = hb_app h, sv_health = ds_health (hb_db h), sv_js = in_js S\<rparr>"

text \<open>After a handler: the world that it leaves, its kick as a permit of the watchdog.\<close>

definition after_world :: "world \<Rightarrow> running_hub \<Rightarrow> running_hub" where
  "after_world w h = h\<lparr>hb_net := (hb_net h)\<lparr>hn_world := w\<lparr>w_kicked := False\<rparr>\<rparr>,
     hb_watch := (if w_kicked w then (hb_watch h)\<lparr>wd_permit := True\<rparr> else hb_watch h)\<rparr>"

text \<open>A round of the key refresh: both surfaces hold the same verifier.\<close>

definition rekeyed :: "jwt_lib \<Rightarrow> error + string \<Rightarrow> running_hub \<Rightarrow> running_hub" where
  "rekeyed L answer h =
     (case hb_keys h of
        None \<Rightarrow> h
      | Some v \<Rightarrow>
          (let v' = refresh_round L answer v
           in h\<lparr>hb_keys := Some v', hb_app := (hb_app h)\<lparr>st_verifier := verifier_of_jwks L v'\<rparr>\<rparr>))"

text \<open>The watchdog's own check is that of task 0; it goes on when its check has ended.\<close>

definition after_check :: "db_state \<Rightarrow> running_hub \<Rightarrow> running_hub" where
  "after_check d h = h\<lparr>hb_db := d,
     hb_watch := (if wd_phase (hb_watch h) = Checking \<and> ds_phase d 0 = Idle
       then (hb_watch h)\<lparr>wd_phase := Pausing\<rparr> else hb_watch h)\<rparr>"

section \<open>Its steps\<close>

inductive hub_moves :: "installation \<Rightarrow> running_hub \<Rightarrow> running_hub \<Rightarrow> bool" for S where
  Answer: "hb_stage h = Accepting \<Longrightarrow> serve (in_timeout S) (server_of S h) m path rq (hb_world h) = (r, w') \<Longrightarrow>
    hub_moves S h (after_world w' h)"
| Project: "hb_stage h \<noteq> Ended \<Longrightarrow> hub_moves S h (after_world (snd (consumer_loop ss (hb_world h))) h)"
| Channel: "hb_stage h \<noteq> Ended \<Longrightarrow>
    channel_step (st_ext (hb_app h)) (st_verifier (hb_app h)) (in_auth_required S) (hb_net h) n \<Longrightarrow>
    hub_moves S h (after_world (hn_world n) (h\<lparr>hb_net := n\<rparr>))"
| Rekey: "hb_stage h \<noteq> Ended \<Longrightarrow> hub_moves S h (rekeyed (in_jwt S) answer h)"
| Due: "hb_stage h \<noteq> Ended \<Longrightarrow> watch_step Tick (hb_watch h) = Some v \<Longrightarrow> hub_moves S h (h\<lparr>hb_watch := v\<rparr>)"
| Wake: "hb_stage h \<noteq> Ended \<Longrightarrow> is_wake e \<Longrightarrow> watch_step e (hb_watch h) = Some v \<Longrightarrow>
    hub_moves S h (h\<lparr>hb_watch := v, hb_db := enter 0 (Pinging (ds_generation (hb_db h))) (hb_db h)\<rparr>)"
| Check: "hb_stage h \<noteq> Ended \<Longrightarrow> check_step (hb_db h) d \<Longrightarrow> ds_phase (hb_db h) 0 \<noteq> Idle \<or> ds_phase d 0 = Idle \<Longrightarrow>
    hub_moves S h (after_check d h)"
| Rest: "hb_stage h \<noteq> Ended \<Longrightarrow> watch_step Pause_over (hb_watch h) = Some v \<Longrightarrow> hub_moves S h (h\<lparr>hb_watch := v\<rparr>)"
| Schedule: "\<forall>e \<in> set es. \<forall>d. in_others S d \<longrightarrow> in_others S (es_others e d) \<Longrightarrow>
    hub_moves S h (h\<lparr>hb_net := (hb_net h)\<lparr>hn_world := (hb_world h)\<lparr>w_script := es\<rparr>\<rparr>\<rparr>)"
| Elapse: "w_now (hb_world h) \<le> t \<Longrightarrow>
    hub_moves S h (h\<lparr>hb_net := (hb_net h)\<lparr>hn_world := (hb_world h)\<lparr>w_now := t\<rparr>\<rparr>\<rparr>)"
| Signal: "hb_stage h = Accepting \<Longrightarrow> hub_moves S h (h\<lparr>hb_stage := Draining\<rparr>)"
| End: "hb_stage h = Draining \<Longrightarrow> hub_moves S h (h\<lparr>hb_stage := Ended\<rparr>)"

inductive_cases hub_movesE: "hub_moves S h h'"

abbreviation hub_runs :: "installation \<Rightarrow> running_hub \<Rightarrow> running_hub \<Rightarrow> bool" where
  "hub_runs S \<equiv> (hub_moves S)\<^sup>*\<^sup>*"

lemma after_world_simps [simp]:
  "hb_world (after_world w h) = w\<lparr>w_kicked := False\<rparr>" "hb_db (after_world w h) = hb_db h"
  "hb_app (after_world w h) = hb_app h" "hb_keys (after_world w h) = hb_keys h" "hb_stage (after_world w h) = hb_stage h"
  "wd_phase (hb_watch (after_world w h)) = wd_phase (hb_watch h)" "wd_checks (hb_watch (after_world w h)) = wd_checks (hb_watch h)"
  "wd_permit (hb_watch (after_world w h)) \<longleftrightarrow> wd_permit (hb_watch h) \<or> w_kicked w"
  "hb_net (after_world w h) = (hb_net h)\<lparr>hn_world := w\<lparr>w_kicked := False\<rparr>\<rparr>"
  by (simp_all add: after_world_def)

lemma rekeyed_simps [simp]:
  "hb_net (rekeyed L a h) = hb_net h" "hb_db (rekeyed L a h) = hb_db h" "hb_watch (rekeyed L a h) = hb_watch h"
  "hb_stage (rekeyed L a h) = hb_stage h"
  by (simp_all add: rekeyed_def Let_def split: option.split)

lemma after_check_simps [simp]:
  "hb_net (after_check d h) = hb_net h" "hb_db (after_check d h) = d" "hb_app (after_check d h) = hb_app h"
  "hb_keys (after_check d h) = hb_keys h" "hb_stage (after_check d h) = hb_stage h"
  "wd_permit (hb_watch (after_check d h)) = wd_permit (hb_watch h)" "wd_checks (hb_watch (after_check d h)) = wd_checks (hb_watch h)"
  by (simp_all add: after_check_def)

lemma stable_kicked [simp]: "stable I (w\<lparr>w_kicked := b\<rparr>) = stable I w"
  by (simp add: stable_def)

section \<open>What every run keeps\<close>

text \<open>An invariant of the database that satisfies the contract and that the others keep.\<close>

context hub_invariant
begin

lemma channel_keeps:
  assumes "channel_step x ver ar s s'" and "stable I (hn_world s)"
  shows "stable I (hn_world s')"
  using assms(1)
proof (cases rule: channel_step.cases)
  case (Request i k call payload reply w')
  have "stable I (snd (nodes_reply x (hn_principal s (ch_ctx k)) ar call payload (is_live (hn_relay s)) (hn_world s)))"
    by (rule keepsD [OF nodes_keeps assms(2)])
  then show ?thesis using Request by simp
qed (use assms(2) in simp_all)

lemma move_keeps:
  assumes "limits (in_timeout S) I" and "in_others S = I" and "hub_moves S h h'" and "stable I (hb_world h)"
  shows "stable I (hb_world h')"
  using assms(3)
proof (cases rule: hub_moves.cases)
  case (Answer m path rq r w')
  then show ?thesis using keepsD [OF serve_keeps [OF assms(1) handle_keeps] assms(4)] by (metis after_world_simps(1) snd_conv stable_kicked)
next
  case (Project ss)
  then show ?thesis using keepsD [OF consumer_keeps assms(4)] by simp
next
  case (Channel n)
  then show ?thesis using channel_keeps [OF _ assms(4)] by simp
next
  case (Schedule es)
  then show ?thesis using assms(2,4) by (simp add: stable_def)
next
  case (Elapse t)
  then show ?thesis using assms(4) by (simp add: stable_def)
qed (use assms(4) in simp_all)

lemma run_keeps:
  assumes "limits (in_timeout S) I" and "in_others S = I" and "stable I (hb_world h)"
  shows "hub_runs S h h' \<Longrightarrow> stable I (hb_world h')"
  by (induction rule: rtranclp_induct) (auto intro: assms(3) move_keeps [OF assms(1,2)])

end

definition keys_current :: "jwt_lib \<Rightarrow> jwks_verifier option \<Rightarrow> jwks_verifier option \<Rightarrow> verifier \<Rightarrow> bool" where
  "keys_current L keys now ver \<longleftrightarrow>
     (case keys of
        None \<Rightarrow> now = None
      | Some v \<Rightarrow> \<exists>answers. now = Some (refresh_rounds L answers v) \<and> ver = verifier_of_jwks L (refresh_rounds L answers v))"

text \<open>
  The parts of the state and how they fit: the relay registry, the checks, the watchdog in step with its
  own check, the verifier with the keys that the refresh has come to.
\<close>

definition hub_fits :: "installation \<Rightarrow> jwks_verifier option \<Rightarrow> running_hub \<Rightarrow> bool" where
  "hub_fits S keys h \<longleftrightarrow>
     relay_backed (hb_net h) \<and> check_inv (hb_db h) \<and>
     (wd_phase (hb_watch h) = Checking \<longleftrightarrow> ds_phase (hb_db h) 0 \<noteq> Idle) \<and>
     keys_current (in_jwt S) keys (hb_keys h) (st_verifier (hb_app h))"

lemma refresh_rounds_snoc: "refresh_rounds L (answers @ [a]) v = refresh_round L a (refresh_rounds L answers v)"
  by (simp add: refresh_rounds_def)

lemma keys_current_rekeyed:
  "keys_current L keys (hb_keys h) (st_verifier (hb_app h)) \<Longrightarrow>
   keys_current L keys (hb_keys (rekeyed L a h)) (st_verifier (hb_app (rekeyed L a h)))"
proof (cases keys)
  case (Some v)
  assume "keys_current L keys (hb_keys h) (st_verifier (hb_app h))"
  then obtain answers where "hb_keys h = Some (refresh_rounds L answers v)" by (auto simp: keys_current_def Some)
  then show ?thesis
    by (auto simp: keys_current_def Some rekeyed_def Let_def refresh_rounds_snoc [symmetric] intro: exI [of _ "answers @ [a]"])
qed (auto simp: keys_current_def rekeyed_def)

lemma watch_stepsE:
  assumes "watch_step e w = Some w'"
  shows "e = Tick \<Longrightarrow> wd_phase w' = wd_phase w" "is_wake e \<Longrightarrow> wd_phase w = Waiting \<and> wd_phase w' = Checking"
    "e = Pause_over \<Longrightarrow> wd_phase w = Pausing \<and> wd_phase w' = Waiting"
  using assms by (cases e; auto simp: is_wake_def split: if_splits)+

lemma hub_fits_move:
  assumes "hub_moves S h h'" and "hub_fits S keys h"
  shows "hub_fits S keys h'"
  using assms(1)
proof (cases rule: hub_moves.cases)
  case (Channel n)
  then have "relay_backed n" using assms(2) relay_backed_channel by (simp add: hub_fits_def)
  then show ?thesis using assms(2) Channel by (simp add: hub_fits_def)
next
  case (Rekey a)
  then show ?thesis using assms(2) keys_current_rekeyed by (simp add: hub_fits_def)
next
  case (Wake e v)
  have idle: "wd_phase (hb_watch h) = Waiting" "wd_phase v = Checking" using watch_stepsE(2) [OF Wake(4,3)] by simp_all
  then have "ds_phase (hb_db h) 0 = Idle" using assms(2) by (simp add: hub_fits_def)
  then have "check_step (hb_db h) (enter 0 (Pinging (ds_generation (hb_db h))) (hb_db h))" by (rule check_step.Begin)
  then have "check_inv (enter 0 (Pinging (ds_generation (hb_db h))) (hb_db h))"
    using assms(2) check_inv_step by (simp add: hub_fits_def)
  then show ?thesis using assms(2) Wake idle by (simp add: hub_fits_def)
next
  case (Check d)
  then have "check_inv d" using assms(2) check_inv_step by (simp add: hub_fits_def)
  then show ?thesis using assms(2) Check by (auto simp: hub_fits_def after_check_def)
next
  case (Due v)
  then show ?thesis using assms(2) watch_stepsE(1) [OF Due(3)] by (simp add: hub_fits_def)
next
  case (Rest v)
  then show ?thesis using assms(2) watch_stepsE(3) [OF Rest(3)] by (simp add: hub_fits_def)
qed (use assms(2) in \<open>simp_all add: hub_fits_def\<close>)

lemma hub_fits_run: "hub_runs S h h' \<Longrightarrow> hub_fits S keys h \<Longrightarrow> hub_fits S keys h'"
  by (induction rule: rtranclp_induct) (auto intro: hub_fits_move)

lemma launched_fits:
  assumes "start_hub su w = (Inr ru, w')" and "in_jwt S = su_jwt su"
  shows "hub_fits S (ru_keys ru) (launched ru w')"
proof (rule start_hub_inversion [OF assms(1)], erule exE)
  fix cfg ver now
  assume s: "build_verifier (su_ext su) (su_jwt su) (su_fetch su) (cf_auth cfg) = Inr (ver, ru_keys ru)"
    "ru_app ru = app_of su (cf_auth cfg) ver"
    and db: "ru_db ru = checked 0 now (su_first_ping su) (su_reopened su) (su_second_ping su) (connected (cf_db_url cfg))"
  have ver: "\<And>v. ru_keys ru = Some v \<Longrightarrow> ver = verifier_of_jwks (su_jwt su) v"
    using s(1) by (auto simp: build_verifier_def split: if_splits sum.splits option.splits)
  have keys: "keys_current (in_jwt S) (ru_keys ru) (ru_keys ru) (st_verifier (ru_app ru))"
    by (cases "ru_keys ru")
      (auto simp: keys_current_def refresh_rounds_def s(2) app_of_def assms(2) ver intro: exI [of _ "[]"])
  have "check_inv (ru_db ru)" unfolding db
    by (rule check_inv_run [OF lone_check_runs]) (simp_all add: connected_def)
  moreover have "ds_phase (ru_db ru) 0 = Idle" by (simp add: db)
  moreover have "relay_backed (net_start w'')" for w'' by (simp add: relay_backed_def net_start_def)
  ultimately show ?thesis using keys by (simp add: hub_fits_def launched_def)
qed

text \<open>The start keeps the invariant when the statements of the migrations do.\<close>

lemma hub_inv_migrations [simp]: "hub_inv (d\<lparr>tb_migrations := ms\<rparr>) = hub_inv d"
  by (simp add: hub_inv_def roster_canonical_def roster_inv_def publication_inv_def app_roster_ok_def app_inv_def
      token_inv_def event_inv_def resource_inv_def)

lemma keeps_migrations:
  assumes "\<And>text t d. hub_inv d \<Longrightarrow> hub_inv (snd (md_exec M text t d))"
  shows "keeps hub_inv (apply_migrations M applied fs now)"
  by (induction fs arbitrary: now) (auto simp: Let_def assms simp del: ret_apply raise_apply intro!: keeps)

lemma keeps_start:
  assumes "\<And>dir text t d. hub_inv d \<Longrightarrow> hub_inv (snd (md_exec (su_migrations su dir) text t d))"
  shows "keeps hub_inv (start_hub su)"
  unfolding start_hub_def run_pending_migrations_def applied_migrations_def
  by (intro keeps keeps_migrations) (simp_all add: assms)

section \<open>Noticing an outage\<close>

text \<open>A permit is out, or a check has started since there were \<open>c\<close> checks.\<close>

definition owed :: "nat \<Rightarrow> watchdog \<Rightarrow> bool" where
  "owed c w \<longleftrightarrow> c \<le> wd_checks w \<and> (wd_permit w \<or> c < wd_checks w)"

lemma owed_watch_step: "watch_step e w = Some w' \<Longrightarrow> owed c w \<Longrightarrow> owed c w'"
  by (cases e) (auto simp: owed_def split: if_splits)

lemma owed_after [simp]: "owed c (hb_watch h) \<Longrightarrow> owed c (hb_watch (after_world w h))"
  "owed c (hb_watch (after_check d h)) = owed c (hb_watch h)"
  by (auto simp: owed_def)

lemma owed_move: "hub_moves S h h' \<Longrightarrow> owed c (hb_watch h) \<Longrightarrow> owed c (hb_watch h')"
  by (cases rule: hub_moves.cases)
    (auto simp del: watch_step.simps dest: owed_watch_step)

lemma owed_run: "hub_runs S h h' \<Longrightarrow> owed c (hb_watch h) \<Longrightarrow> owed c (hb_watch h')"
  by (induction rule: rtranclp_induct) (auto intro: owed_move)

text \<open>A check of the watchdog, undisturbed, among the other tasks.\<close>

lemma watchdog_works:
  assumes "(working 0)\<^sup>*\<^sup>* (hb_db h) d" and "hb_stage h \<noteq> Ended"
  shows "\<exists>h'. hub_runs S h h' \<and> hb_db h' = d \<and> hb_net h' = hb_net h \<and> hb_app h' = hb_app h \<and> hb_stage h' = hb_stage h"
  using assms(1)
proof (induction rule: rtranclp_induct)
  case (step d e)
  then obtain h' where h': "hub_runs S h h'" "hb_db h' = d" "hb_net h' = hb_net h" "hb_app h' = hb_app h" "hb_stage h' = hb_stage h"
    by blast
  have "hub_moves S h' (after_check e h')"
    using step.hyps(2) h'(2,5) assms(2) by (intro hub_moves.Check) (auto simp: working_def)
  then show ?case using h' by (intro exI [of _ "after_check e h'"]) (simp add: rtranclp.rtrancl_into_rtrancl)
qed blast

lemma watchdog_checks:
  assumes "hb_stage h \<noteq> Ended" and "is_wake e" and "watch_step e (hb_watch h) = Some v" and "ds_lock (hb_db h) = None"
  shows "\<exists>h'. hub_runs S h h' \<and> hb_db h' = checked 0 now first reopened second (hb_db h) \<and>
    hb_net h' = hb_net h \<and> hb_app h' = hb_app h \<and> hb_stage h' = hb_stage h"
proof -
  let ?h = "h\<lparr>hb_watch := v, hb_db := enter 0 (Pinging (ds_generation (hb_db h))) (hb_db h)\<rparr>"
  have "hub_moves S h ?h" by (rule hub_moves.Wake [OF assms(1-3)])
  moreover have "(working 0)\<^sup>*\<^sup>* (hb_db ?h) (checked 0 now first reopened second (hb_db h))"
    using lone_check_works [OF assms(4)] by simp
  from watchdog_works [OF this, of S] assms(1) obtain h' where
    "hub_runs S ?h h'" "hb_db h' = checked 0 now first reopened second (hb_db h)" "hb_net h' = hb_net h"
    "hb_app h' = hb_app h" "hb_stage h' = hb_stage h" by auto
  ultimately show ?thesis by (blast intro: converse_rtranclp_into_rtranclp)
qed

text \<open>The deep health endpoint shows what the last check recorded, and wakes nobody.\<close>

lemma deep_health_shows:
  "\<exists>resp. handle_request (server_of S h) (route GET [''health'', ''deep'']) rq w = (Inr resp, w) \<and>
     rs_status resp = (if dh_ok (ds_health (hb_db h)) then 200 else 503) \<and> \<not> rs_db_unavailable resp"
  by (simp add: route_def on_def server_of_def health_deep_def health_body_def json_response_def bnd_steps)

section \<open>Properties\<close>

text \<open>
  C2: from the start of the program on, however its tasks interleave, with faults at any query, the
  components fit together: the database satisfies its invariant, every relay entry leads to an open channel that
  registered the node, the connection is reopened by one task at a time and its reconnections are
  counted in the health record, the watchdog is at a check exactly when its task is, and both
  surfaces hold one verifier, with the keys that the refreshes of the start's document have led
  to. The statements of migrations and the others keep the invariant of the database.
\<close>

theorem running_hub_fits_together:
  assumes "start_hub su w = (Inr ru, w0)" and "stable hub_inv w"
    and "\<forall>dir text t d. hub_inv d \<longrightarrow> hub_inv (snd (md_exec (su_migrations su dir) text t d))" and "hub_runs S (launched ru w0) h"
    and "in_jwt S = su_jwt su" and "in_others S = hub_inv" and "limits (in_timeout S) hub_inv"
  shows "hub_inv (w_db (hb_world h)) \<and>
    (\<forall>n c. hn_relay (hb_net h) n = Some c \<longrightarrow>
       (\<exists>i k. hn_channels (hb_net h) i = Some k \<and> ch_ctx k = c \<and> n \<in> set (ch_registered k))) \<and>
    (\<forall>i j. rebuilding (ds_phase (hb_db h) i) \<and> rebuilding (ds_phase (hb_db h) j) \<longrightarrow> i = j) \<and>
    (ds_lock (hb_db h) = None \<longrightarrow> dh_reconnects (ds_health (hb_db h)) = word_of_nat (ds_conn (hb_db h))) \<and>
    (wd_phase (hb_watch h) = Checking \<longleftrightarrow> ds_phase (hb_db h) 0 \<noteq> Idle) \<and>
    (\<forall>v. ru_keys ru = Some v \<longrightarrow>
       (\<exists>answers. hb_keys h = Some (refresh_rounds (su_jwt su) answers v) \<and>
          st_verifier (hb_app h) = verifier_of_jwks (su_jwt su) (refresh_rounds (su_jwt su) answers v)))"
proof -
  have "keeps hub_inv (start_hub su)" by (rule keeps_start) (use assms(3) in blast)
  then have "stable hub_inv w0" using assms(1,2) by (metis keepsD snd_conv)
  then have "stable hub_inv (hb_world (launched ru w0))" by (simp add: launched_def net_start_def)
  from hub.run_keeps [OF assms(7,6) this assms(4)] have db: "hub_inv (w_db (hb_world h))" by (simp add: stable_def)
  have fits: "hub_fits S (ru_keys ru) h" by (rule hub_fits_run [OF assms(4) launched_fits [OF assms(1,5)]])
  then have inv: "check_inv (hb_db h)" by (simp add: hub_fits_def)
  have lock: "i = j" if "rebuilding (ds_phase (hb_db h) i)" "rebuilding (ds_phase (hb_db h) j)" for i j
    using inv that by (auto simp: check_inv_def)
  have "dh_reconnects (ds_health (hb_db h)) = word_of_nat (ds_conn (hb_db h))" if "ds_lock (hb_db h) = None"
    using inv that by (auto simp: check_inv_def holder_phase_def)
  then show ?thesis
    using db fits lock assms(5) by (auto simp: hub_fits_def relay_backed_def keys_current_def)
qed

text \<open>
  C3: an outage is noticed: a request that fails because the database cannot be reached is answered with
  503 and leaves word for the watchdog; whatever any task does then, the word is not lost before a
  check has started; and whenever the watchdog waits with that word, its check may run, and
  then \<open>/health/deep\<close> answers 200 or 503 by what the check has found, as does a hub that has recovered.
\<close>

theorem outage_is_noticed:
  assumes "hb_stage h = Accepting" and "is_unavailable e"
    and "handle_request (server_of S h) (route m path) rq (hb_world h) = (Inl e, w1)"
    and "in_time (in_timeout S) (respond (handle_request (server_of S h) (route m path) rq)) (hb_world h)"
  shows "\<exists>resp w'. serve (in_timeout S) (server_of S h) m path rq (hb_world h) = (Inr resp, w') \<and>
    rs_status resp = 503 \<and> hub_moves S h (after_world w' h) \<and>
    (\<forall>h2. hub_runs S (after_world w' h) h2 \<longrightarrow>
       wd_permit (hb_watch h2) \<or> wd_checks (hb_watch h) < wd_checks (hb_watch h2)) \<and>
    (\<forall>h2 now first reopened second. hub_runs S (after_world w' h) h2 \<and> hb_stage h2 \<noteq> Ended \<and>
       wd_permit (hb_watch h2) \<and> wd_phase (hb_watch h2) = Waiting \<and> ds_lock (hb_db h2) = None \<longrightarrow>
       (\<exists>h3. hub_runs S h2 h3 \<and> hb_db h3 = checked 0 now first reopened second (hb_db h2) \<and>
          (\<forall>rq' v. \<exists>deep. handle_request (server_of S h3) (route GET [''health'', ''deep'']) rq' v = (Inr deep, v) \<and>
             rs_status deep = (if check_once (ds_url (hb_db h2)) first reopened second = Inr () then 200 else 503))))"
proof -
  from serve_in_time [OF assms(4,3)] assms(2) obtain resp w' where
    r: "serve (in_timeout S) (server_of S h) m path rq (hb_world h) = (Inr resp, w')" "rs_status resp = 503" "w_kicked w'"
    by (auto simp: app_error_response_def db_unavailable_def)
  have "owed (wd_checks (hb_watch h)) (hb_watch (after_world w' h))" using r(3) by (simp add: owed_def)
  then have owed: "wd_permit (hb_watch h2) \<or> wd_checks (hb_watch h) < wd_checks (hb_watch h2)"
    if "hub_runs S (after_world w' h) h2" for h2
    using owed_run [OF that] by (simp add: owed_def)
  have check: "\<exists>h3. hub_runs S h2 h3 \<and> hb_db h3 = checked 0 now first reopened second (hb_db h2) \<and>
      (\<forall>rq' v. \<exists>deep. handle_request (server_of S h3) (route GET [''health'', ''deep'']) rq' v = (Inr deep, v) \<and>
         rs_status deep = (if check_once (ds_url (hb_db h2)) first reopened second = Inr () then 200 else 503))"
    if h2: "hb_stage h2 \<noteq> Ended" "wd_permit (hb_watch h2)" "wd_phase (hb_watch h2) = Waiting" "ds_lock (hb_db h2) = None"
    for h2 now first reopened second
  proof -
    obtain v where "watch_step Wake_kick (hb_watch h2) = Some v" using h2(2,3) by simp
    from watchdog_checks [OF h2(1) _ this h2(4), of S now first reopened second] show ?thesis
      using deep_health_shows by (fastforce simp: is_wake_def)
  qed
  show ?thesis
    using r hub_moves.Answer [OF assms(1) r(1)] owed check by (intro exI conjI) blast+
qed

section \<open>Concrete instances\<close>

definition installed :: installation where
  "installed = \<lparr>in_jwt = a_jwt, in_timeout = no_limit, in_js = [], in_auth_required = True, in_others = hub_inv\<rparr>"

theorem running_hub_witness:
  "\<exists>ru w0 h. start_hub all_well (a_world (empty_db\<lparr>tb_migrations := [''001_event'']\<rparr>)) = (Inr ru, w0) \<and>
     hub_runs installed (launched ru w0) h \<and> hb_keys h = ru_keys ru \<and> hub_inv (w_db (hb_world h))"
proof -
  obtain ru w0 where s: "start_hub all_well (a_world (empty_db\<lparr>tb_migrations := [''001_event'']\<rparr>)) = (Inr ru, w0)"
    by (rule all_well_starts)
  have st: "stable hub_inv (a_world (empty_db\<lparr>tb_migrations := [''001_event'']\<rparr>))"
    using hub_inv_empty by (simp add: stable_def)
  have "hub_runs installed (launched ru w0) (rekeyed a_jwt (Inl []) (launched ru w0))"
    using hub_moves.Rekey [of "launched ru w0" installed "Inl []"] by (simp add: launched_def installed_def r_into_rtranclp)
  moreover have "hb_keys (rekeyed a_jwt (Inl []) (launched ru w0)) = ru_keys ru"
    by (simp add: rekeyed_def launched_def refresh_round_def split: option.split)
  ultimately show ?thesis
    using running_hub_fits_together [OF s st, of installed "rekeyed a_jwt (Inl []) (launched ru w0)"] s no_limit_ok(1)
    by (auto simp: installed_def all_well_def two_migrations_def)
qed

text \<open>A hub whose first query meets a refused connection, with a remote database.\<close>

definition cut_off :: running_hub where
  "cut_off = \<lparr>hb_net = net_start (world_of roster_db [calm\<lparr>es_fault := Refused refused_connection\<rparr>]),
     hb_db = connected ''ws://db'',
     hb_watch = \<lparr>wd_phase = Waiting, wd_permit = False, wd_tick_due = False, wd_checks = 0\<rparr>,
     hb_app = a_state, hb_keys = None, hb_stage = Accepting\<rparr>"

theorem outage_is_noticed_witness:
  "\<exists>h3 deep. hub_runs installed cut_off h3 \<and>
     handle_request (server_of installed h3) (route GET [''health'', ''deep'']) no_credentials (hb_world h3) = (Inr deep, hb_world h3) \<and>
     rs_status deep = 503"
proof -
  let ?w = "world_of roster_db [calm\<lparr>es_fault := Refused refused_connection\<rparr>]"
  have "route GET [''v1'', ''apps''] = ListApps" by (simp add: route_def on_def)
  then have h: "handle_request (server_of installed cut_off) (route GET [''v1'', ''apps'']) no_credentials (hb_world cut_off) =
      (Inl refused_connection, a_world roster_db)"
    by (simp add: cut_off_def net_start_def list_apps_def list_active_apps_def select_def run_def query_def bnd_def calm_def world_of_def)
  have t: "in_time (in_timeout installed) (respond (handle_request (server_of installed cut_off) (route GET [''v1'', ''apps'']) no_credentials)) (hb_world cut_off)"
    using no_limit_ok(2) by (simp add: installed_def)
  have a: "hb_stage cut_off = Accepting" by (simp add: cut_off_def)
  from outage_is_noticed [OF a refused_connection_unavailable h t] obtain w' where w':
    "hub_moves installed cut_off (after_world w' cut_off)"
    "\<And>h2. hub_runs installed (after_world w' cut_off) h2 \<Longrightarrow> wd_permit (hb_watch h2) \<or> wd_checks (hb_watch cut_off) < wd_checks (hb_watch h2)"
    "\<And>h2 now first reopened second. hub_runs installed (after_world w' cut_off) h2 \<and> hb_stage h2 \<noteq> Ended \<and>
       wd_permit (hb_watch h2) \<and> wd_phase (hb_watch h2) = Waiting \<and> ds_lock (hb_db h2) = None \<Longrightarrow>
       (\<exists>h3. hub_runs installed h2 h3 \<and> hb_db h3 = checked 0 now first reopened second (hb_db h2) \<and>
          (\<forall>rq' v. \<exists>deep. handle_request (server_of installed h3) (route GET [''health'', ''deep'']) rq' v = (Inr deep, v) \<and>
             rs_status deep = (if check_once (ds_url (hb_db h2)) first reopened second = Inr () then 200 else 503)))"
    by blast
  have p: "wd_permit (hb_watch (after_world w' cut_off))"
    using w'(2) [OF rtranclp.rtrancl_refl] by (simp add: cut_off_def)
  have down: "check_once ''ws://db'' None None None \<noteq> Inr ()"
    by (simp add: check_once_def ping_result_def open_result_def is_remote_def)
  have ready: "hub_runs installed (after_world w' cut_off) (after_world w' cut_off) \<and> hb_stage (after_world w' cut_off) \<noteq> Ended \<and>
      wd_permit (hb_watch (after_world w' cut_off)) \<and> wd_phase (hb_watch (after_world w' cut_off)) = Waiting \<and>
      ds_lock (hb_db (after_world w' cut_off)) = None"
    using p by (simp add: cut_off_def connected_def)
  from w'(3) [OF ready, of 0 None None None] obtain h3 where h3: "hub_runs installed (after_world w' cut_off) h3"
    "\<And>rq' v. \<exists>deep. handle_request (server_of installed h3) (route GET [''health'', ''deep'']) rq' v = (Inr deep, v) \<and> rs_status deep = 503"
    using down by (auto simp: cut_off_def connected_def)
  have "hub_runs installed cut_off h3" using w'(1) h3(1) by (rule converse_rtranclp_into_rtranclp)
  then show ?thesis using h3(2) [of no_credentials "hb_world h3"] by blast
qed

end
