(* ===== verification/Spec2Isabelle.thy ===== *)
theory Spec2Isabelle
  imports Settings_Live Stored_Rows Unit_Tests Echo_Spike Running_Hub
begin

text \<open>
  Chronista Hub: a meta-registry of resources (\<open>crates/chronista-hub-server\<close>). Applications report
  changes of resources as events; a consumer projects the events onto a tree that anyone can read
  over REST; users have handles that can be renamed, and publish links under them; applications
  are registered by an administrator and hold tokens; nodes announce themselves and relay messages
  over Unison channels. This development models the server and proves what makes it correct.

  \<^bold>\<open>How the program is modelled.\<close> A handler of the code is an asynchronous function with queries to
  SurrealDB at its \<open>await\<close> points. Here it is a function of the world (\<open>Hub_World\<close>): the database,
  the clock, the random source, the permit of the watchdog, and a script that says, query by query,
  how much time passes before it, what all other tasks and clients have made of the database in
  the meantime, and whether the query fails before it runs, is answered with an error, or runs and
  loses its answer. A theorem over all scripts therefore speaks of every interleaving at query
  granularity and of every fault. \<open>alone\<close> is the empty script; \<open>keeps I m\<close> says that a step \<open>m\<close>
  preserves \<open>I\<close> when the others do; \<open>returns I m Q\<close> says what its answer satisfies under that reliance;
  \<open>reads m\<close> that it writes nothing. Tables are association lists with the unique indexes and assertions of
  \<open>migrations/*.surql\<close> (\<open>Hub_Table\<close>, \<open>Hub_Schema\<close>); strings are UTF-8 byte strings (\<open>Hub_Text\<close>); JSON is a
  datatype (\<open>Hub_Json\<close>); errors are \<open>anyhow\<close> chains (\<open>Hub_Error\<close>); every early return is a branch.

  \<^bold>\<open>Theories and sources\<close> (under \<open>crates/chronista-hub-server/src\<close>).
  \<^item> \<open>Hub_Model\<close>: \<open>model.rs\<close>, the data types, \<open>validate_envelope\<close>, handles and slugs.
  \<^item> \<open>Resource_Store\<close>, \<open>User_Roster\<close>, \<open>Handle_Rules\<close>, \<open>App_Roster\<close>, \<open>Publication_Store\<close>: \<open>storage.rs\<close>;
    \<open>Stored_Rows\<close>: its conversions between rows and values, and the conditions that it writes into statements.
  \<^item> \<open>Event_Log\<close> and \<open>Consumer\<close>: \<open>event_log.rs\<close> and \<open>consumer.rs\<close>.
  \<^item> \<open>Product_Token\<close> and \<open>Auth\<close>: \<open>product_token.rs\<close> and \<open>auth.rs\<close>.
  \<^item> \<open>Http_Base\<close>, \<open>Http_Api\<close>, \<open>Http_Users\<close>, \<open>Http_Publications\<close>, \<open>Hub_Serve\<close>: \<open>app.rs\<close>, from the routes and
    the guard to every endpoint, and the whole answer to a request (\<open>serve\<close>).
  \<^item> \<open>Pages\<close>: \<open>start.rs\<close>, \<open>profile.rs\<close>, \<open>settings.rs\<close>; \<open>Settings_Script\<close> and \<open>Settings_Safety\<close>: the
    JavaScript in \<open>settings.rs\<close>, as programs over the state of a browser tab; \<open>Settings_Live\<close>: that page against
    the endpoints of the hub.
  \<^item> \<open>Unison\<close>: \<open>unison_server.rs\<close>, its channels as a step relation over all connections.
  \<^item> \<open>Db_Watch\<close>: \<open>db.rs\<close>, the checks of all tasks as a step relation, the watchdog, the migrations.
  \<^item> \<open>Config\<close> and \<open>Boot\<close>: \<open>config.rs\<close> and \<open>main.rs\<close>, the start in its order and the key refresh;
    \<open>Debug_Output\<close>: what \<open>{:?}\<close> shows of the values that hold secrets.
  \<^item> \<open>Running_Hub\<close>: the tasks that \<open>main.rs\<close> leaves running, as steps over one state (\<open>running_hub\<close>), from
    the start to the shutdown.
  \<^item> \<open>Node_Clients\<close>: the programs under \<open>examples/\<close> against the hub's channels and REST surface;
    \<open>Echo_Spike\<close>: the trial of the transport (\<open>unison_spike.rs\<close>).
  \<^item> \<open>Unit_Tests\<close>: the tests that stand in the files of the server, as predicates that the model satisfies.

  \<^bold>\<open>Interfaces.\<close> \<open>keyed_table\<close> (a table: \<open>Hub_Table\<close>), \<open>work_queue\<close> (the log that the consumer works off),
  \<open>credential_store\<close> (tokens), \<open>token_verifier\<close> (both verifiers of \<open>auth.rs\<close>), \<open>handle_directory\<close>
  (handles with redirects), \<open>tab_relation\<close> (what every action of the settings page does to its tab: interpreted for
  what the tab sends and for what it stores), \<open>nodes_service\<close> (the sessions that the client programs rely on, interpreted
  on the hub's channels). \<open>public_invariant\<close>, \<open>http_invariant\<close> and \<open>hub_invariant\<close> (\<open>Hub_Serve\<close>) are the
  contract of a database invariant: one assumption for each write of the program with what the
  code has checked before it. A predicate on the database that satisfies the contract is kept by
  every request, the consumer and the nodes channel; \<open>Hub_Invariants\<close>, \<open>Hub_Access\<close> and \<open>Hub_Flows\<close> interpret it
  for the invariants of the six groups of tables, for the rows of applications and tokens, and for
  a revoked token.

  \<^bold>\<open>What the lemmas show.\<close> In each component: its invariant and that every operation keeps it
  under interference and faults; the result of each operation alone, on every branch; and
  where the code is a protocol, its specification (\<open>claim_spec\<close>, \<open>rename_spec\<close>, the projection of the
  log, the abstract outcome of an endpoint) with a refinement. \<open>Hub_Access\<close> shows who can change what,
  \<open>Hub_Flows\<close> follows an event, a publication, a token and an error through the
  components, \<open>Settings_Live\<close> what a user reads and types in the browser into the database and back, \<open>Running_Hub\<close> puts handlers, checks, watchdog, channels and keys into one run;
  this theory states the properties of the whole.

  \<^bold>\<open>Bounds.\<close> The retry loops are recursions over the number of attempts that the code makes.
  No model needs fuel: loops of the code that never end (the consumer, the watchdog, the refresh, the
  channels) are lists or step relations of rounds, so that a statement holds after any number of them.
  \<open>u64\<close> counters and the \<open>i64\<close> clock are words. The text of a number has its digits.

  \<^bold>\<open>Parameters.\<close> SHA-256, the printers and parsers of JSON, URLs and base64 (\<open>ext\<close>), the JWT library
  (\<open>jwt_lib\<close>, with its documented contract \<open>jwt_lib_ok\<close>), opening and pinging a connection, the transport of
  Unison, the file system and the network at the start (\<open>surroundings\<close>), what a page asks of its browser (\<open>page_env\<close>), the client side of
  the Unison library (\<open>link\<close>), and \<open>tokio::time::timeout\<close>:
  \<open>limits\<close> says that a step under a time limit does nothing to an invariant that the step would not do. A
  query that the SDK sends after its request was cut off is a write of the environment. That the hub's parser
  reads back what the browser prints for the body of a form is a hypothesis of the two properties of the forms.

  \<^bold>\<open>Not modelled.\<close> Logging; the texts of rejections by axum's extractors and of errors of the JSON
  parser; which signal ends the program (that the listener drains and the consumer is waited for is); the browser behind the
  script of the settings page (its storage, \<open>fetch\<close> and clock are parameters), and that the served text is
  that script: where the page is served, the text is a parameter; what the programs print; the request that fetches the
  key document (its answer is a parameter of the refresh); the integration tests under \<open>tests/\<close>, which drive a
  server and a database, and two unit tests: the one of the text of the script, and the one that clones of a connection
  are the same object, which the model has no two of.
\<close>

section \<open>The world of a running hub\<close>

text \<open>
  What happens to the world of a running hub, in any order: a request is served (by a server in
  any state, with any verifier), the consumer works, a request arrives on the nodes channel, and
  the environment: time passes, and other tasks and clients are scheduled to interfere at the next
  queries, with faults at any of them. Of what they do to the database only the invariant is known.
\<close>

inductive hub_step :: "(nat \<Rightarrow> response hub \<Rightarrow> response option hub) \<Rightarrow> world \<Rightarrow> world \<Rightarrow> bool" for timeout where
  Serve: "hub_step timeout w (snd (serve timeout sv m path rq w))"
| Consume: "hub_step timeout w (snd (consumer_loop ss w))"
| Nodes: "hub_step timeout w (snd (nodes_reply x p required call args live w))"
| Schedule: "\<forall>e \<in> set es. \<forall>d. hub_inv d \<longrightarrow> hub_inv (es_others e d) \<Longrightarrow> hub_step timeout w (w\<lparr>w_script := es\<rparr>)"
| Elapse: "w_now w \<le> t \<Longrightarrow> hub_step timeout w (w\<lparr>w_now := t\<rparr>)"

lemma hub_step_stable:
  assumes "limits timeout hub_inv" and "hub_step timeout w w'" and "stable hub_inv w"
  shows "stable hub_inv w'"
  using assms(2)
proof cases
  case (Serve sv m path rq)
  then show ?thesis using keepsD [OF serve_keeps [OF assms(1) hub.handle_keeps] assms(3)] by simp
next
  case (Consume ss)
  then show ?thesis using keepsD [OF hub.consumer_keeps assms(3)] by simp
next
  case (Nodes x p required call args live)
  then show ?thesis using keepsD [OF hub.nodes_keeps assms(3)] by simp
qed (use assms(3) in \<open>auto simp: stable_def\<close>)

lemma hub_run_stable:
  assumes "limits timeout hub_inv" and "stable hub_inv w0"
  shows "(hub_step timeout)\<^sup>*\<^sup>* w0 w \<Longrightarrow> stable hub_inv w"
  by (induction rule: rtranclp_induct) (auto intro: assms(2) hub_step_stable [OF assms(1)])

text \<open>What the invariant means for the rows.\<close>

lemma hub_inv_rows:
  assumes "hub_inv d"
  shows "(k, u) \<in> set (tb_user d) \<Longrightarrow> (k', u') \<in> set (tb_user d) \<Longrightarrow> ur_handle u = Some h \<Longrightarrow> ur_handle u' = Some h \<Longrightarrow> k = k'"
    and "(k, u) \<in> set (tb_user d) \<Longrightarrow> (k', u') \<in> set (tb_user d) \<Longrightarrow> ur_creo_sub u = Some s \<Longrightarrow> ur_creo_sub u' = Some s \<Longrightarrow> k = k'"
    and "(k, u) \<in> set (tb_user d) \<Longrightarrow> ur_handle u = Some h \<Longrightarrow> canonical_handle h = Some h"
    and "(a, r) \<in> set (tb_app d) \<Longrightarrow> app_entry_ok (ar_entry r) \<and> ae_app_id (ar_entry r) = a"
    and "(i, n) \<in> set (tb_resource d) \<Longrightarrow> res_id n = i"
    and "(j, ev) \<in> set (tb_event d) \<Longrightarrow> (j', ev') \<in> set (tb_event d) \<Longrightarrow>
      ev_idempotency (er_event ev) = ev_idempotency (er_event ev') \<Longrightarrow> j = j'"
  using assms
  by (auto simp: hub_inv_def roster_canonical_def roster_inv_def canonical_rows_def app_roster_ok_def app_inv_def
      resource_inv_def event_inv_def row_idempotency_def indexed_def dest: rows_okD)

section \<open>Properties of the whole\<close>

text \<open>
  C4: a GET or HEAD request writes nothing at all, except that the two endpoints of the own account
  enter a newcomer in the roster; and a request without credentials writes nothing whatever its
  method and path are: each keeps every property of the database that the environment keeps.
\<close>

theorem safe_requests_write_nothing:
  assumes "limits timeout I"
    and "anonymous sv rq \<or> read_only m \<and> route m path \<noteq> Me \<and> route m path \<noteq> MyPublishers"
  shows "keeps I (serve timeout sv m path rq)"
proof (rule serve_keeps [OF assms(1)])
  show "keeps I (handle_request sv (route m path) rq)"
    using assms(2) harmless_route [of m path] anonymous_keeps [of sv rq I] handle_reads
    by (auto simp: harmless_def)
qed

text \<open>
  C5: without the administration key no request, on any path and with any other credentials, adds,
  changes or removes an application or an application token.
\<close>

theorem applications_need_the_key:
  assumes "limits timeout (\<lambda>d. tb_app d = a \<and> tb_token d = t)" and "check_admin (sv_app sv) rq \<noteq> None"
  shows "keeps (\<lambda>d. tb_app d = a \<and> tb_token d = t) (serve timeout sv m path rq)"
  by (intro serve_keeps [OF assms(1)] locked.locked_handlers [OF assms(2)])

text \<open>
  C6: the row of a user who has signed in once (handle, name, account type, organisation) can be
  changed by no request of anybody else, on any endpoint, not even by one that races with the user's own.
\<close>

theorem own_row_only:
  assumes "limits timeout (row_kept v row)" and "ur_creo_sub row = Some s" and "ur_usr_id row = Some v" and "v \<noteq> []"
    and "signed_in (sv_app sv) rq \<noteq> Some s"
  shows "keeps (row_kept v row) (serve timeout sv m path rq)"
  by (intro serve_keeps [OF assms(1)] foreign_row_kept [OF assms(2-5)])

text \<open>
  C13: an error of a handler reaches the client as one of two fixed answers: 503 with a retry time when
  the database cannot be reached, and then the watchdog is woken; otherwise 500, the same for
  every error. No text of the error is in the answer.
\<close>

theorem errors_stay_inside:
  assumes "in_time timeout (respond (handle_request sv (route m path) rq)) w"
    and "handle_request sv (route m path) rq w = (Inl e, w1)"
  shows "\<exists>resp w'. serve timeout sv m path rq w = (Inr resp, w') \<and> w_db w' = w_db w1 \<and>
    (if is_unavailable e
     then rs_status resp = 503 \<and> (''retry-after'', ''5'') \<in> set (rs_headers resp) \<and> w_kicked w' \<and>
       (m \<noteq> HEAD \<longrightarrow> rs_body resp = JsonBody (JObj [(''error'', JStr ''database unavailable'')]))
     else rs_status resp = 500 \<and> rs_headers resp = [] \<and> w' = w1 \<and>
       (m \<noteq> HEAD \<longrightarrow> rs_body resp = JsonBody (JObj [(''error'', JStr ''internal server error'')])))"
  using serve_in_time [OF assms]
  by (auto simp: app_error_response_def db_unavailable_def error_response_def json_response_def)

text \<open>
  a request that is not done in time wakes the watchdog; a read is answered as one that can be
  repeated, a write is not: its answer says that the result is unknown.
\<close>

theorem overdue_requests_are_told:
  assumes "timeout REQUEST_TIMEOUT_S (respond (handle_request sv (route m path) rq)) w = (Inr None, w1)"
  shows "\<exists>resp. serve timeout sv m path rq w = (Inr resp, w1\<lparr>w_kicked := True\<rparr>) \<and>
    (if read_only m then rs_status resp = 503 \<and> (''retry-after'', ''5'') \<in> set (rs_headers resp)
     else rs_status resp = 504 \<and> rs_headers resp = [] \<and>
       rs_body resp = JsonBody (JObj [(''error'', JStr ''timed out; the result is unknown'')]))"
  using assms
  by (auto simp: serve_def guard_db_def bnd_def kick_def read_only_def db_unavailable_def)

text \<open>
  C1: however requests, the consumer, the nodes channel and the environment take turns, with faults at
  any query, the database stays sound: no two users share a handle or a subject and every handle
  is canonical, no two events share an idempotency key, every application row is a registration
  that passed all checks, every resource is found under its id. The environment keeps the invariant.
\<close>

theorem reachable_hub_is_sound:
  assumes "(hub_step timeout)\<^sup>*\<^sup>* w0 w" and "limits timeout hub_inv" and "stable hub_inv w0"
  shows "hub_inv (w_db w) \<and>
    (\<forall>k u k' u' h. (k, u) \<in> set (tb_user (w_db w)) \<and> (k', u') \<in> set (tb_user (w_db w)) \<and>
       ur_handle u = Some h \<and> ur_handle u' = Some h \<longrightarrow> k = k' \<and> canonical_handle h = Some h) \<and>
    (\<forall>k u k' u' s. (k, u) \<in> set (tb_user (w_db w)) \<and> (k', u') \<in> set (tb_user (w_db w)) \<and>
       ur_creo_sub u = Some s \<and> ur_creo_sub u' = Some s \<longrightarrow> k = k') \<and>
    (\<forall>j ev j' ev'. (j, ev) \<in> set (tb_event (w_db w)) \<and> (j', ev') \<in> set (tb_event (w_db w)) \<and>
       ev_idempotency (er_event ev) = ev_idempotency (er_event ev') \<longrightarrow> j = j') \<and>
    (\<forall>a r. (a, r) \<in> set (tb_app (w_db w)) \<longrightarrow> app_entry_ok (ar_entry r) \<and> ae_app_id (ar_entry r) = a) \<and>
    (\<forall>i n. (i, n) \<in> set (tb_resource (w_db w)) \<longrightarrow> res_id n = i)"
proof -
  have inv: "hub_inv (w_db w)"
    using hub_run_stable [OF assms(2,3,1)] by (simp add: stable_def)
  note rows = hub_inv_rows [OF inv]
  show ?thesis
  proof (intro conjI inv allI impI; (elim conjE)?)
    fix k u k' u' h
    assume u: "(k, u) \<in> set (tb_user (w_db w))" "(k', u') \<in> set (tb_user (w_db w))" "ur_handle u = Some h" "ur_handle u' = Some h"
    show "k = k'" by (rule rows(1) [OF u])
    show "canonical_handle h = Some h" by (rule rows(3) [OF u(1,3)])
  next
    fix a r
    assume "(a, r) \<in> set (tb_app (w_db w))"
    from rows(4) [OF this] show "app_entry_ok (ar_entry r)" "ae_app_id (ar_entry r) = a" by simp_all
  qed (rule rows(2) rows(5) rows(6); assumption)+
qed


text \<open>
  C9: a registration that was answered with success can be followed at once: the readable link with the
  publisher's present handle and the canonical slug redirects to the registered address.
\<close>

theorem registered_link_is_served:
  assumes "alone w" and "publication_inv (w_db w)" and "roster_canonical (w_db w)"
    and "put_publication_endpoint st handle slug rq w = (Inr resp, w')" and "succeeded resp"
  shows "\<exists>publisher name s p. publisher_at (st_ext st) (w_now w) (w_db w) handle = Some publisher \<and>
    ue_handle publisher = Some name \<and> canonical_slug slug = Some s \<and>
    rs_body resp = JsonBody (publication_view name p) \<and> pb_slug p = s \<and>
    publication_page st (''@'' @ name) s w' = (Inr (leads_to (pb_url p)), w')"
  by (rule registered_link [OF assms])

text \<open>
  C7: when a revocation was answered with 200 the token is dead, and it stays dead through anything the
  hub does later, under any interference that revives no token: a request with it alone is
  unauthorized, or told that the store cannot be asked, with either verifier.
\<close>

theorem revoked_token_stays_out:
  assumes "alone w" and "token_inv (w_db w)" and "prefix TOKEN_PREFIX tok"
    and "revoke_token_endpoint st app (hash_token (st_ext st) tok) rq w = (Inr resp, w')" and "rs_status resp = 200"
    and "limits timeout (token_dead (hash_token (st_ext st) tok))"
  shows "token_dead (hash_token (st_ext st) tok) (w_db w') \<and>
    keeps (token_dead (hash_token (st_ext st) tok)) (serve timeout sv m path rq') \<and>
    keeps (token_dead (hash_token (st_ext st) tok)) (consumer_loop ss) \<and>
    keeps (token_dead (hash_token (st_ext st) tok)) (nodes_reply x p required call args live) \<and>
    returns (token_dead (hash_token (st_ext st) tok))
      (authenticate (st_ext st) (stub_verifier x) True None (Some tok) accept scopes)
      (\<lambda>r. r = Inl Unauthorized \<or> r = Inl AuthUnavailable) \<and>
    returns (token_dead (hash_token (st_ext st) tok))
      (authenticate (st_ext st) (verifier_of_jwks L v) True None (Some tok) accept scopes)
      (\<lambda>r. r = Inl Unauthorized \<or> r = Inl AuthUnavailable)"
  by (intro conjI revoked_now [OF assms(1,2,4,5)] serve_keeps [OF assms(6)] dead_token.handle_keeps
      dead_token.consumer_keeps dead_token.nodes_keeps dead_token_refused [OF _ assms(3)]
      stub.token_verifier_axioms jwks.token_verifier_axioms)

section \<open>Concrete instances\<close>

theorem reachable_hub_witness:
  "hub_inv (w_db (snd (consumer_loop [Ticked] (snd (serve no_limit a_server PUT [''v1'', ''me'', ''handle'']
     (a_request ''sub_b'' ''ann'') (a_world empty_db))))))"
proof -
  let ?w1 = "snd (serve no_limit a_server PUT [''v1'', ''me'', ''handle'']
     (a_request ''sub_b'' ''ann'') (a_world empty_db))"
  have "hub_step no_limit (a_world empty_db) ?w1" "hub_step no_limit ?w1 (snd (consumer_loop [Ticked] ?w1))"
    by (rule hub_step.Serve, rule hub_step.Consume)
  then have "(hub_step no_limit)\<^sup>*\<^sup>* (a_world empty_db) (snd (consumer_loop [Ticked] ?w1))" by simp
  from reachable_hub_is_sound [OF this no_limit_ok(1) stable_a_world [of hub_inv, OF hub_inv_empty]] show ?thesis by blast
qed

theorem safe_requests_witness:
  "w_db (snd (serve no_limit a_server DELETE [''v1'', ''publications'', ''ann'', ''log''] no_credentials (a_world roster_db))) = roster_db"
proof -
  have "anonymous a_server no_credentials"
    using no_credentials_refused by (simp add: anonymous_def a_server_def no_credentials_def)
  from safe_requests_write_nothing [OF no_limit_ok(1) disjI1, OF this, of "\<lambda>d. d = roster_db"]
  show ?thesis by (auto simp: keeps_def stable_def dest!: spec [of _ "a_world roster_db"])
qed

theorem applications_witness:
  "tb_token (w_db (snd (serve no_limit a_server DELETE [''v1'', ''apps'', ''app'', ''tokens'', ''old''] no_credentials
     (a_world old_token_db)))) = tb_token old_token_db"
proof -
  have "check_admin (sv_app a_server) no_credentials \<noteq> None" using no_credentials_refused by (simp add: a_server_def)
  from applications_need_the_key [OF no_limit_ok(1) this, of "tb_app old_token_db" "tb_token old_token_db"]
  show ?thesis by (auto simp: keeps_def stable_def dest!: spec [of _ "a_world old_token_db"])
qed

theorem own_row_witness:
  "tab_get (tb_user (w_db (snd (serve no_limit a_server PUT [''v1'', ''me'', ''handle''] (a_request ''sub_b'' ''ann'')
     (a_world roster_db))))) ''usr_a'' = Some ann"
proof -
  have "signed_in (sv_app a_server) (a_request ''sub_b'' ''ann'') \<noteq> Some ''sub_a''"
    by (simp add: signed_in_def user_principal_def a_server_def a_state_def a_request_def strip_prefix_def)
  moreover have "ur_creo_sub ann = Some ''sub_a''" "ur_usr_id ann = Some ''usr_a''" by (simp_all add: row_simps)
  moreover have "row_kept ''usr_a'' ann roster_db"
    using roster_db_inv by (simp add: row_kept_def roster_db_def tab_get_def)
  ultimately show ?thesis
    using own_row_only [OF no_limit_ok(1), of ann "''sub_a''" "''usr_a''" a_server "a_request ''sub_b'' ''ann''" PUT "[''v1'', ''me'', ''handle'']"]
    by (auto simp: keeps_def stable_def row_kept_def dest!: spec [of _ "a_world roster_db"])
qed

theorem errors_stay_inside_witness:
  "\<exists>resp w'. serve no_limit a_server GET [''v1'', ''apps''] no_credentials
       (world_of roster_db [calm\<lparr>es_fault := Refused refused_connection\<rparr>]) = (Inr resp, w') \<and>
     rs_status resp = 503 \<and> w_kicked w' \<and> w_db w' = roster_db"
proof -
  let ?w = "world_of roster_db [calm\<lparr>es_fault := Refused refused_connection\<rparr>]"
  have "route GET [''v1'', ''apps''] = ListApps" by (simp add: route_def on_def)
  then have h: "handle_request a_server (route GET [''v1'', ''apps'']) no_credentials ?w = (Inl refused_connection, a_world roster_db)"
    by (simp add: list_apps_def list_active_apps_def select_def run_def query_def bnd_def calm_def world_of_def)
  show ?thesis
    using errors_stay_inside [OF no_limit_ok(2) h] refused_connection_unavailable by auto
qed

theorem overdue_witness:
  "\<exists>resp w'. serve (\<lambda>n m. ret None) a_server PUT [''v1'', ''me'', ''handle''] no_credentials (a_world roster_db) = (Inr resp, w') \<and>
     rs_status resp = 504 \<and> w_kicked w'"
  using overdue_requests_are_told [of "\<lambda>n m. ret None" a_server PUT "[''v1'', ''me'', ''handle'']" no_credentials "a_world roster_db"]
  by (auto simp: read_only_def)

definition event_json :: json where
  "event_json = JObj [(''event_id'', JStr ''e1''), (''app_id'', JStr ''app''), (''idempotency'', JStr ''k1''),
     (''emitted_at'', JStr ''t0''), (''kind'', JStr ''resource.created''),
     (''resource'', JObj [(''id'', JStr ''r1''), (''type'', JStr ''note''), (''path'', JStr ''/''), (''handle'', JStr ''ann''),
        (''visibility'', JStr ''public''), (''payload'', JObj []), (''createdAt'', JStr ''t0''), (''updatedAt'', JStr ''t0'')])]"

lemma event_json_valid: "validate_envelope event_json = Inr an_event"
  unfolding event_json_def an_event_def by code_simp

definition event_state :: app_state where
  "event_state = a_state\<lparr>st_ext := an_ext\<lparr>x_parse_json := (\<lambda>_. Some event_json)\<rparr>\<rparr>"

lemma event_posted:
  "\<exists>resp. post_events event_state (a_request ''ann'' []) (a_world empty_db) = (Inr resp, a_world one_event_db) \<and> rs_status resp = 202"
  using append_accepts
  by (auto simp: event_state_def post_events_def authenticate_def user_principal_def a_state_def a_request_def ingest_def
      event_json_valid bnd_def strip_prefix_def)


theorem registered_link_witness:
  "\<exists>s (p :: publication) w'. publication_page publishing_state ''@ann'' s w' = (Inr (leads_to (pb_url p)), w') \<and> pb_slug p = s \<and> w' = a_world published_db"
proof -
  obtain resp where r: "put_publication_endpoint publishing_state ''@ann'' ''log'' publishing_request (a_world publishing_db) =
      (Inr resp, a_world published_db)" "succeeded resp"
    using publishing_succeeds by (auto simp: succeeded_def)
  have canonical: "roster_canonical publishing_db"
    using roster_db_canonical by (simp add: roster_canonical_def roster_inv_def publishing_db_def)
  from registered_link_is_served [OF alone_a_world _ _ r, unfolded world_of_simps, OF publishing_inv(1) canonical]
  show ?thesis
  proof (elim exE conjE)
    fix publisher name s and p :: publication
    assume p: "publisher_at (st_ext publishing_state) 0 publishing_db ''@ann'' = Some publisher" "ue_handle publisher = Some name"
      and link: "pb_slug p = s"
        "publication_page publishing_state (''@'' @ name) s (a_world published_db) = (Inr (leads_to (pb_url p)), a_world published_db)"
    have "publisher_at (st_ext publishing_state) 0 publishing_db ''@ann'' = Some (user_of (st_ext publishing_state) ann)"
      by (rule publishing_publisher) (simp add: publishing_db_def)
    then have "name = ''ann''" using p by (simp add: user_of_def row_simps)
    then show ?thesis using link by auto
  qed
qed

definition admin_request :: request where
  "admin_request = no_credentials\<lparr>rq_admin_key := Some ''key''\<rparr>"

definition token_hash :: string where
  "token_hash = hash_token (st_ext a_state) ''cht_1''"

definition issued_db :: db where
  "issued_db = empty_db\<lparr>tb_token := [(token_hash, new_token_row token_hash ''app'' [] None 0 365)]\<rparr>"

theorem revoked_token_stays_out_witness:
  "\<exists>w'. revoke_token_endpoint a_state ''app'' token_hash admin_request (a_world issued_db) =
      (Inr (json_response 200 [(''revoked'', JBool True)]), w') \<and>
    returns (token_dead token_hash) (authenticate (st_ext a_state) (stub_verifier an_ext) True None (Some ''cht_1'') [AppKind] [])
      (\<lambda>r. r = Inl Unauthorized \<or> r = Inl AuthUnavailable) \<and> token_dead token_hash (w_db w')"
proof -
  have inv: "token_inv issued_db"
    by (simp add: token_inv_def token_table_ok_def tab_ok_def rows_ok_def issued_db_def new_token_row_simps)
  obtain w' where r: "revoke_token_endpoint a_state ''app'' token_hash admin_request (a_world issued_db) =
      (Inr (json_response 200 [(''revoked'', JBool True)]), w')"
    by (simp add: revoke_token_endpoint_def check_admin_def a_state_def admin_request_def no_credentials_def an_ext_def
        revoke_token_def quiet issued_db_def tab_where_def revocable_def new_token_row_simps)
  have "prefix TOKEN_PREFIX ''cht_1''" by (simp add: TOKEN_PREFIX_def)
  from revoked_token_stays_out [OF alone_a_world _ this r [unfolded token_hash_def] _ no_limit_ok(1), where x = an_ext]
  show ?thesis using r inv by (auto simp: token_hash_def)
qed

end
